theory Spec2Isabelle
  imports Main "HOL-Library.Sublist"
begin

section \<open>The credential factory of voxBot (src/services/credentialFactory.js)\<close>

subsection \<open>JavaScript values\<close>

text \<open>
  A field of the factory is \<open>undefined\<close> (never assigned), \<open>null\<close> or holds a value.
  Objects are always truthy; a boolean is truthy when it is \<open>true\<close>; a string when it is
  not empty.
\<close>

datatype 'a js = Undefined | Null | Val 'a

fun truthy :: "'a js \<Rightarrow> bool" where
  "truthy Undefined = False"
| "truthy Null = False"
| "truthy (Val x) = True"

fun truthy_bool :: "bool js \<Rightarrow> bool" where
  "truthy_bool Undefined = False"
| "truthy_bool Null = False"
| "truthy_bool (Val b) = b"

text \<open>\<open>process.env\<close>: a variable is a string or absent; the empty string is falsy.\<close>

type_synonym env = "string \<Rightarrow> string option"

definition env_truthy :: "env \<Rightarrow> string \<Rightarrow> bool" where
  "env_truthy env k = (case env k of None \<Rightarrow> False | Some v \<Rightarrow> v \<noteq> [])"

definition env_value :: "env \<Rightarrow> string \<Rightarrow> string" where
  \<comment> \<open>the string held by a variable that has been tested to be truthy\<close>
  "env_value env k = (case env k of None \<Rightarrow> [] | Some v \<Rightarrow> v)"

definition env_or :: "env \<Rightarrow> string \<Rightarrow> string \<Rightarrow> string" where
  \<comment> \<open>\<open>process.env.K || d\<close>\<close>
  "env_or env k d = (case env k of None \<Rightarrow> d | Some v \<Rightarrow> if v = [] then d else v)"

subsection \<open>Errors\<close>

text \<open>
  An error is identified with its \<open>message\<close>. The two aggregate errors are built by
  \<open>JSON.stringify\<close> of a list of records after a fixed prefix; the model keeps the list
  itself (pairs of name and message) in place of its JSON text. \<open>CannotReadProperty p\<close> is
  the TypeError of the engine for \<open>x.p\<close> with \<open>x\<close> undefined or null.
\<close>

datatype message =
    Text string
  | AllCertificateApproachesFailed "(string \<times> message) list"
  | AllAuthenticationMethodsFailed "(string \<times> message) list"
  | CredentialsNotAvailable message
  | CannotReadProperty string

subsection \<open>Credentials, clients and the factory\<close>

type_synonym bytes = "nat list"

datatype cert_arg = Base64String string | CertBuffer bytes | FilePath string

datatype credential =
    ManagedIdentityCredential
  | ClientCertificateCredential string string cert_arg
  | ClientSecretCredential string string string
  | DefaultAzureCredential

datatype secret_client = SecretClient string credential

datatype certificate_client = CertificateClient string credential

datatype graph_client = GraphClient credential "string list"

record factory =
  credential :: "credential js"
  secretClient :: "secret_client js"
  certificateClient :: "certificate_client js"
  graphClient :: "graph_client js"
  initializationError :: "message js"
  isInitialized :: "bool js"

record token_response =
  token :: string
  expiresOnTimestamp :: nat

record certificate_info =
  certificate :: string
  password :: string
  format :: string

subsection \<open>The outside world\<close>

text \<open>
  Every call that leaves the factory (a constructor of the Azure SDK, a token request, a
  Key Vault request, a file operation) is answered by the \<open>world\<close>: \<open>Some e\<close> or \<open>Inl e\<close>
  means that the call throws (or rejects with) \<open>e\<close>. \<open>tmpdir\<close> is \<open>os.tmpdir()\<close>,
  \<open>fromBase64\<close> is \<open>Buffer.from(s, 'base64')\<close>, \<open>createLogger\<close> is \<open>winston.createLogger\<close>
  with the given level and \<open>addFileTransport\<close> the construction and addition of the file
  transport. A failed write may leave a partial file behind (\<open>WriteFailed e True\<close>).

  A world holds the answers that one pass of the factory gets: the construction of a
  factory, or one refresh. Within a pass the answers do not depend on what was asked
  before. A pass reaches line 234 at most once (\<open>refresh_written\<close> and
  \<open>constructor_written\<close> below), so it reads the clock and the random generator at most
  once: \<open>date_now\<close> is what \<open>Date.now()\<close> returns then, and
  \<open>random_digits\<close> are the digits in base 36, after the point, of what \<open>Math.random()\<close>
  returns then. Two passes that read different clocks or draw different numbers are run
  in different worlds.
\<close>

datatype write_outcome = Written | WriteFailed message bool

record world =
  construct :: "credential \<Rightarrow> message option"
  getToken :: "credential \<Rightarrow> string \<Rightarrow> message + token_response js"
  newSecretClient :: "string \<Rightarrow> credential \<Rightarrow> message option"
  newCertificateClient :: "string \<Rightarrow> credential \<Rightarrow> message option"
  newGraphClient :: "credential \<Rightarrow> string list \<Rightarrow> message option"
  vaultGetCertificate :: "certificate_client \<Rightarrow> string \<Rightarrow> message + string"
  vaultGetSecret :: "secret_client \<Rightarrow> string \<Rightarrow> message + string"
  vaultSetSecret :: "secret_client \<Rightarrow> string \<Rightarrow> string \<Rightarrow> message option"
  tmpdir :: string
  date_now :: nat
  random_digits :: "nat list"
  fromBase64 :: "string \<Rightarrow> bytes"
  writeFileSync :: "string \<Rightarrow> bytes \<Rightarrow> write_outcome"
  unlinkSync :: "string \<Rightarrow> message option"
  createLogger :: "string \<Rightarrow> message option"
  mkdirSync :: "string \<Rightarrow> message option"
  addFileTransport :: "string \<Rightarrow> message option"

text \<open>
  The calls are recorded in order, each with the factory as it is at the moment of the
  call. \<open>GetToken\<close>, \<open>GetCertificate\<close>, \<open>GetSecret\<close> and \<open>SetSecret\<close> are asynchronous: the
  caller is suspended there and any other code that runs meanwhile sees that snapshot.
\<close>

datatype event =
    New credential
  | NewSecretClient string credential
  | NewCertificateClient string credential
  | NewGraphClient credential "string list"
  | GetToken credential string
  | GetCertificate certificate_client string
  | GetSecret secret_client string
  | SetSecret secret_client string string
  | WriteFileSync string bytes
  | ExistsSync string
  | UnlinkSync string
  | CreateLogger string
  | MkdirSync string
  | AddFileTransport string

fun is_suspend_point :: "event \<Rightarrow> bool" where
  "is_suspend_point (GetToken c sc) = True"
| "is_suspend_point (GetCertificate cl n) = True"
| "is_suspend_point (GetSecret cl n) = True"
| "is_suspend_point (SetSecret cl n v) = True"
| "is_suspend_point e = False"

text \<open>
  A run threads the factory (\<open>this\<close>), the files and directories on disk, the recorded
  calls and \<open>credentialAttempts\<close>, the local attempt log of \<open>setupCredentials\<close> (kept after
  the function returns so that it can be inspected).
\<close>

record run =
  this :: factory
  files :: "string set"
  trace :: "(event \<times> factory) list"
  credentialAttempts :: "(string \<times> message) list"

type_synonym 'a outcome = "(message + 'a) \<times> run"

definition emit :: "event \<Rightarrow> run \<Rightarrow> run" where
  "emit e r = r\<lparr>trace := trace r @ [(e, this r)]\<rparr>"

definition call :: "event \<Rightarrow> message + 'a \<Rightarrow> run \<Rightarrow> 'a outcome" where
  \<comment> \<open>an external call with the given answer\<close>
  "call e answer r = (answer, emit e r)"

definition throws :: "message option \<Rightarrow> message + unit" where
  "throws x = (case x of Some e \<Rightarrow> Inl e | None \<Rightarrow> Inr ())"

definition and_then :: "'a outcome \<Rightarrow> ('a \<Rightarrow> run \<Rightarrow> 'b outcome) \<Rightarrow> 'b outcome" where
  \<comment> \<open>sequencing inside a \<open>try\<close> block: an error skips the rest\<close>
  "and_then m f = (case m of (Inl e, r) \<Rightarrow> (Inl e, r) | (Inr x, r) \<Rightarrow> f x r)"

definition set_credential :: "credential js \<Rightarrow> run \<Rightarrow> run" where
  "set_credential c r = r\<lparr>this := (this r)\<lparr>credential := c\<rparr>\<rparr>"

definition default_scope :: string where
  "default_scope = ''https://graph.microsoft.com/.default''"

definition token_received :: "token_response js \<Rightarrow> bool" where
  \<comment> \<open>\<open>tokenResponse && tokenResponse.token\<close>\<close>
  "token_received resp = (case resp of Val t \<Rightarrow> token t \<noteq> [] | _ \<Rightarrow> False)"

subsection \<open>testCredential (lines 323-343)\<close>

definition testCredential :: "world \<Rightarrow> run \<Rightarrow> bool outcome" where
  "testCredential w r =
     (case credential (this r) of
        Val c \<Rightarrow>
          and_then (call (GetToken c default_scope) (getToken w c default_scope) r)
            (\<lambda>tokenResponse r'.
               if token_received tokenResponse then (Inr True, r')
               else (Inl (Text ''No token received from credential''), r'))
      | _ \<Rightarrow> (Inl (Text ''No credential available to test''), r))"

subsection \<open>getCertificateFromKeyVault (lines 145-189)\<close>

definition getCertificateFromKeyVault ::
  "env \<Rightarrow> world \<Rightarrow> string \<Rightarrow> string \<Rightarrow> run \<Rightarrow> certificate_info outcome" where
  "getCertificateFromKeyVault env w keyVaultUri certificateName r =
     (let tempCredential = DefaultAzureCredential;
          tempCertClient = CertificateClient keyVaultUri tempCredential;
          tempSecretClient = SecretClient keyVaultUri tempCredential
      in
      and_then (call (New tempCredential) (throws (construct w tempCredential)) r) (\<lambda>_ r.
      and_then (call (NewCertificateClient keyVaultUri tempCredential)
                  (throws (newCertificateClient w keyVaultUri tempCredential)) r) (\<lambda>_ r.
      and_then (call (GetCertificate tempCertClient certificateName)
                  (vaultGetCertificate w tempCertClient certificateName) r) (\<lambda>_ r.
      and_then (call (NewSecretClient keyVaultUri tempCredential)
                  (throws (newSecretClient w keyVaultUri tempCredential)) r) (\<lambda>_ r.
      and_then (call (GetSecret tempSecretClient certificateName)
                  (vaultGetSecret w tempSecretClient certificateName) r) (\<lambda>secretValue r.
        (Inr \<lparr>certificate = secretValue,
              password = env_or env ''AZURE_KEY_VAULT_CERTIFICATE_PASSWORD'' [],
              format = ''pkcs12''\<rparr>, r)))))))"

subsection \<open>tryCreateCertificateCredential (lines 191-277)\<close>

definition try_unlink :: "world \<Rightarrow> string \<Rightarrow> run \<Rightarrow> run" where
  \<comment> \<open>\<open>try { fs.unlinkSync(p) } catch (cleanupError) { warn }\<close>\<close>
  "try_unlink w p r =
     (let r' = emit (UnlinkSync p) r
      in case unlinkSync w p of
           None \<Rightarrow> r'\<lparr>files := files r' - {p}\<rparr>
         | Some cleanupError \<Rightarrow> r')"

definition cleanup_on_error :: "world \<Rightarrow> string \<Rightarrow> run \<Rightarrow> run" where
  \<comment> \<open>lines 262-272: \<open>if (tempFilePath && fs.existsSync(tempFilePath)) ...\<close>\<close>
  "cleanup_on_error w p r =
     (if p \<noteq> [] then
        (let r' = emit (ExistsSync p) r
         in if p \<in> files r' then try_unlink w p r' else r')
      else r)"

definition write_file :: "world \<Rightarrow> string \<Rightarrow> bytes \<Rightarrow> run \<Rightarrow> unit outcome" where
  \<comment> \<open>\<open>fs.writeFileSync(p, buf)\<close>\<close>
  "write_file w p buf r =
     (let r' = emit (WriteFileSync p buf) r
      in case writeFileSync w p buf of
           Written \<Rightarrow> (Inr (), r'\<lparr>files := insert p (files r')\<rparr>)
         | WriteFailed e partial \<Rightarrow>
             (Inl e, if partial then r'\<lparr>files := insert p (files r')\<rparr> else r'))"

text \<open>
  Line 234 names the temporary file
  \<open>path.join(tempDir, `cert-${Date.now()}-${Math.random().toString(36).substr(2, 9)}.pfx`)\<close>.
  The clock is printed in decimal; of the random number the first nine digits in base 36
  are kept. \<open>path.join\<close> is that of POSIX: the non-empty parts are joined by a slash and
  the result is normalized (empty and \<open>.\<close> segments dropped, \<open>..\<close> resolved, a leading
  and a trailing slash kept).
\<close>

definition digit_char :: "nat \<Rightarrow> char" where
  "digit_char d = ''0123456789abcdefghijklmnopqrstuvwxyz'' ! d"

fun decimal :: "nat \<Rightarrow> string" where
  "decimal n =
     (if n < 10 then [digit_char n] else decimal (n div 10) @ [digit_char (n mod 10)])"

declare decimal.simps [simp del]

definition random_text :: "world \<Rightarrow> string" where
  \<comment> \<open>\<open>Math.random().toString(36).substr(2, 9)\<close>\<close>
  "random_text w = map (\<lambda>d. digit_char (d mod 36)) (take 9 (random_digits w))"

definition temp_file_name :: "world \<Rightarrow> string" where
  "temp_file_name w = ''cert-'' @ decimal (date_now w) @ ''-'' @ random_text w @ ''.pfx''"

fun split_slash :: "string \<Rightarrow> string list" where
  "split_slash [] = [[]]"
| "split_slash (c # cs) =
     (if c = CHR ''/'' then [] # split_slash cs
      else (case split_slash cs of [] \<Rightarrow> [[c]] | x # xs \<Rightarrow> (c # x) # xs))"

fun join_slash :: "string list \<Rightarrow> string" where
  "join_slash [] = []"
| "join_slash [x] = x"
| "join_slash (x # y # ys) = x @ ''/'' @ join_slash (y # ys)"

fun normalize_segments :: "bool \<Rightarrow> string list \<Rightarrow> string list \<Rightarrow> string list" where
  \<comment> \<open>\<open>acc\<close> holds the segments kept so far, the last one first\<close>
  "normalize_segments up acc [] = rev acc"
| "normalize_segments up acc (s # ss) =
     (if s = [] \<or> s = ''.'' then normalize_segments up acc ss
      else if s = ''..'' then
        (case acc of
           [] \<Rightarrow> normalize_segments up (if up then [''..''] else []) ss
         | a # as \<Rightarrow>
             if a = ''..'' then normalize_segments up (if up then ''..'' # acc else acc) ss
             else normalize_segments up as ss)
      else normalize_segments up (s # acc) ss)"

definition normalize_path :: "string \<Rightarrow> string" where
  "normalize_path p =
     (if p = [] then ''.''
      else
        (let isAbsolute = (hd p = CHR ''/'');
             trailingSeparator = (last p = CHR ''/'');
             q = join_slash (normalize_segments (\<not> isAbsolute) [] (split_slash p))
         in if q = [] then
              (if isAbsolute then ''/'' else if trailingSeparator then ''./'' else ''.'')
            else (if isAbsolute then ''/'' else []) @ q
                 @ (if trailingSeparator then ''/'' else [])))"

definition path_join :: "string \<Rightarrow> string \<Rightarrow> string" where
  "path_join a b =
     (let joined = (if a = [] then b else if b = [] then a else a @ ''/'' @ b)
      in if joined = [] then ''.'' else normalize_path joined)"

definition temp_file_path :: "world \<Rightarrow> string" where
  "temp_file_path w = path_join (tmpdir w) (temp_file_name w)"

definition approach3 ::
  "world \<Rightarrow> string \<Rightarrow> string \<Rightarrow> certificate_info \<Rightarrow> (string \<times> message) list \<Rightarrow> run
     \<Rightarrow> unit outcome" where
  \<comment> \<open>lines 227-276: temporary file; \<open>errors\<close> holds the failures of the first two approaches\<close>
  "approach3 w tenantId clientId certificateInfo errors r =
     (let tempFilePath = temp_file_path w;
          certBuffer = fromBase64 w (certificate certificateInfo);
          c = ClientCertificateCredential tenantId clientId (FilePath tempFilePath)
      in case and_then (write_file w tempFilePath certBuffer r) (\<lambda>_ r.
              and_then (call (New c) (throws (construct w c)) r) (\<lambda>_ r.
                (Inr (), try_unlink w tempFilePath (set_credential (Val c) r)))) of
           (Inr u, r') \<Rightarrow> (Inr (), r')
         | (Inl error, r') \<Rightarrow>
             (Inl (AllCertificateApproachesFailed (errors @ [(''tempFile'', error)])),
              cleanup_on_error w tempFilePath r'))"

definition approach2 ::
  "world \<Rightarrow> string \<Rightarrow> string \<Rightarrow> certificate_info \<Rightarrow> (string \<times> message) list \<Rightarrow> run
     \<Rightarrow> unit outcome" where
  \<comment> \<open>lines 212-225: byte buffer, then the rest\<close>
  "approach2 w tenantId clientId certificateInfo errors r =
     (let certBuffer = fromBase64 w (certificate certificateInfo);
          c = ClientCertificateCredential tenantId clientId (CertBuffer certBuffer)
      in case call (New c) (throws (construct w c)) r of
           (Inr u, r') \<Rightarrow> (Inr (), set_credential (Val c) r')
         | (Inl error, r') \<Rightarrow>
             approach3 w tenantId clientId certificateInfo (errors @ [(''buffer'', error)]) r')"

definition tryCreateCertificateCredential ::
  "world \<Rightarrow> string \<Rightarrow> string \<Rightarrow> certificate_info \<Rightarrow> run \<Rightarrow> unit outcome" where
  "tryCreateCertificateCredential w tenantId clientId certificateInfo r =
     (let c = ClientCertificateCredential tenantId clientId
                (Base64String (certificate certificateInfo))
      in case call (New c) (throws (construct w c)) r of
           (Inr u, r') \<Rightarrow> (Inr (), set_credential (Val c) r')
         | (Inl error, r') \<Rightarrow>
             approach2 w tenantId clientId certificateInfo [(''base64String'', error)] r')"

subsection \<open>setupCredentials (lines 64-143)\<close>

definition construct_and_test :: "world \<Rightarrow> credential \<Rightarrow> run \<Rightarrow> bool outcome" where
  \<comment> \<open>\<open>this.credential = new C(...); await this.testCredential();\<close>\<close>
  "construct_and_test w c r =
     and_then (call (New c) (throws (construct w c)) r) (\<lambda>_ r.
       testCredential w (set_credential (Val c) r))"

definition fallback :: "string \<Rightarrow> message \<Rightarrow> run \<Rightarrow> run" where
  \<comment> \<open>the \<open>catch\<close> of attempts 1 to 3: log the attempt, reset the credential\<close>
  "fallback type error r =
     set_credential Null (r\<lparr>credentialAttempts := credentialAttempts r @ [(type, error)]\<rparr>)"

definition attempt4 :: "world \<Rightarrow> run \<Rightarrow> unit outcome" where
  \<comment> \<open>lines 127-137: DefaultAzureCredential\<close>
  "attempt4 w r =
     (case construct_and_test w DefaultAzureCredential r of
        (Inr ok, r') \<Rightarrow> (Inr (), r')
      | (Inl error, r') \<Rightarrow>
          (let r'' = r'\<lparr>credentialAttempts :=
                          credentialAttempts r' @ [(''DefaultAzureCredential'', error)]\<rparr>
           in (Inl (AllAuthenticationMethodsFailed (credentialAttempts r'')), r'')))"

definition attempt3 :: "env \<Rightarrow> world \<Rightarrow> run \<Rightarrow> unit outcome" where
  \<comment> \<open>lines 112-125: client secret\<close>
  "attempt3 env w r =
     (if env_truthy env ''MICROSOFT_APP_TENANT_ID'' \<and> env_truthy env ''MICROSOFT_APP_ID''
         \<and> env_truthy env ''MICROSOFT_APP_PASSWORD'' then
        (case construct_and_test w
                (ClientSecretCredential (env_value env ''MICROSOFT_APP_TENANT_ID'')
                   (env_value env ''MICROSOFT_APP_ID'') (env_value env ''MICROSOFT_APP_PASSWORD'')) r of
           (Inr ok, r') \<Rightarrow> (Inr (), r')
         | (Inl error, r') \<Rightarrow> attempt4 w (fallback ''ClientSecret'' error r'))
      else attempt4 w r)"

definition attempt2 :: "env \<Rightarrow> world \<Rightarrow> run \<Rightarrow> unit outcome" where
  \<comment> \<open>lines 94-110: certificate from the Key Vault\<close>
  "attempt2 env w r =
     (if env_truthy env ''AZURE_KEY_VAULT_URI''
         \<and> env_truthy env ''AZURE_KEY_VAULT_CERTIFICATE_NAME''
         \<and> env_truthy env ''MICROSOFT_APP_TENANT_ID'' \<and> env_truthy env ''MICROSOFT_APP_ID'' then
        (case and_then (getCertificateFromKeyVault env w (env_value env ''AZURE_KEY_VAULT_URI'')
                          (env_value env ''AZURE_KEY_VAULT_CERTIFICATE_NAME'') r) (\<lambda>certificateInfo r.
              and_then (tryCreateCertificateCredential w (env_value env ''MICROSOFT_APP_TENANT_ID'')
                          (env_value env ''MICROSOFT_APP_ID'') certificateInfo r) (\<lambda>_ r.
                testCredential w r)) of
           (Inr ok, r') \<Rightarrow> (Inr (), r')
         | (Inl error, r') \<Rightarrow> attempt3 env w (fallback ''ClientCertificate'' error r'))
      else attempt3 env w r)"

definition attempt1 :: "env \<Rightarrow> world \<Rightarrow> run \<Rightarrow> unit outcome" where
  \<comment> \<open>lines 80-92: managed identity\<close>
  "attempt1 env w r =
     (if env_truthy env ''AZURE_CLIENT_ID'' \<or> env_truthy env ''MSI_ENDPOINT'' then
        (case construct_and_test w ManagedIdentityCredential r of
           (Inr ok, r') \<Rightarrow> (Inr (), r')
         | (Inl error, r') \<Rightarrow> attempt2 env w (fallback ''ManagedIdentity'' error r'))
      else attempt2 env w r)"

definition setupCredentials :: "env \<Rightarrow> world \<Rightarrow> run \<Rightarrow> unit outcome" where
  "setupCredentials env w r = attempt1 env w (r\<lparr>credentialAttempts := []\<rparr>)"

subsection \<open>setupKeyVaultClients (lines 280-297) and setupGraphClient (lines 299-321)\<close>

definition setupKeyVaultClients :: "env \<Rightarrow> world \<Rightarrow> run \<Rightarrow> unit outcome" where
  "setupKeyVaultClients env w r =
     (case credential (this r) of
        Val c \<Rightarrow>
          if env_truthy env ''AZURE_KEY_VAULT_URI'' then
            (let keyVaultUri = env_value env ''AZURE_KEY_VAULT_URI''
             in and_then (call (NewSecretClient keyVaultUri c)
                            (throws (newSecretClient w keyVaultUri c)) r) (\<lambda>_ r.
                and_then (call (NewCertificateClient keyVaultUri c)
                            (throws (newCertificateClient w keyVaultUri c))
                            (r\<lparr>this := (this r)\<lparr>secretClient :=
                                                 Val (SecretClient keyVaultUri c)\<rparr>\<rparr>)) (\<lambda>_ r.
                  (Inr (), r\<lparr>this := (this r)\<lparr>certificateClient :=
                                                 Val (CertificateClient keyVaultUri c)\<rparr>\<rparr>))))
          else (Inr (), r)
      | _ \<Rightarrow> (Inr (), r))"

fun split_comma :: "string \<Rightarrow> string list" where
  \<comment> \<open>\<open>s.split(',')\<close>\<close>
  "split_comma [] = [[]]"
| "split_comma (c # cs) =
     (if c = CHR '','' then [] # split_comma cs
      else (case split_comma cs of [] \<Rightarrow> [[c]] | x # xs \<Rightarrow> (c # x) # xs))"

definition graph_scopes :: "env \<Rightarrow> string list" where
  "graph_scopes env =
     (if env_truthy env ''GRAPH_SCOPES'' then split_comma (env_value env ''GRAPH_SCOPES'')
      else [default_scope])"

definition setupGraphClient :: "env \<Rightarrow> world \<Rightarrow> run \<Rightarrow> unit outcome" where
  "setupGraphClient env w r =
     (case credential (this r) of
        Val c \<Rightarrow>
          (let scopes = graph_scopes env
           in and_then (call (NewGraphClient c scopes) (throws (newGraphClient w c scopes)) r)
                (\<lambda>_ r. (Inr (), r\<lparr>this := (this r)\<lparr>graphClient :=
                                                   Val (GraphClient c scopes)\<rparr>\<rparr>)))
      | _ \<Rightarrow> (Inl (Text ''Credential not initialized''), r))"

subsection \<open>The logger (services/logger.js, lines 5-41)\<close>

text \<open>
  The constructor of \<open>Logger\<close> creates the winston logger and, when \<open>LOG_FILE_PATH\<close> is set,
  makes the directory of the log file if it is not there and adds a file transport. Each
  of these calls may throw; \<open>fs.existsSync\<close> reads the disk of the run. The methods of the
  logger (\<open>info\<close>, \<open>warn\<close>, \<open>error\<close>, \<open>debug\<close>) only hand a record to winston; they are
  taken not to throw and are left out of the functions that log.
\<close>

definition path_dirname :: "string \<Rightarrow> string" where
  \<comment> \<open>\<open>path.dirname\<close> of POSIX: the path up to the last slash that has a name after it\<close>
  "path_dirname p =
     (if p = [] then ''.''
      else
        (let hasRoot = (hd p = CHR ''/'');
             rest = dropWhile (\<lambda>c. c \<noteq> CHR ''/'')
                      (dropWhile (\<lambda>c. c = CHR ''/'') (rev (tl p)))
         in if rest = [] then (if hasRoot then ''/'' else ''.'')
            else if hasRoot \<and> tl rest = [] then ''//''
            else hd p # rev (tl rest)))"

definition make_directory :: "world \<Rightarrow> string \<Rightarrow> run \<Rightarrow> unit outcome" where
  \<comment> \<open>\<open>fs.mkdirSync(logDir, { recursive: true })\<close>\<close>
  "make_directory w d r =
     (let r' = emit (MkdirSync d) r
      in case mkdirSync w d of
           Some e \<Rightarrow> (Inl e, r')
         | None \<Rightarrow> (Inr (), r'\<lparr>files := insert d (files r')\<rparr>))"

definition new_Logger :: "env \<Rightarrow> world \<Rightarrow> run \<Rightarrow> unit outcome" where
  "new_Logger env w r =
     (let level = env_or env ''LOG_LEVEL'' ''info''
      in and_then (call (CreateLogger level) (throws (createLogger w level)) r) (\<lambda>_ r.
           if env_truthy env ''LOG_FILE_PATH'' then
             (let logFilePath = env_value env ''LOG_FILE_PATH'';
                  logDir = path_dirname logFilePath;
                  r' = emit (ExistsSync logDir) r
              in and_then (if logDir \<in> files r' then (Inr (), r')
                           else make_directory w logDir r') (\<lambda>_ r.
                   call (AddFileTransport logFilePath)
                     (throws (addFileTransport w logFilePath)) r))
           else (Inr (), r)))"

subsection \<open>initialize, initializeAsync and the constructor (lines 9-62)\<close>

definition initialize :: "env \<Rightarrow> world \<Rightarrow> run \<Rightarrow> bool outcome" where
  "initialize env w r =
     (case and_then (setupCredentials env w r) (\<lambda>_ r.
           and_then (setupKeyVaultClients env w r) (\<lambda>_ r.
             setupGraphClient env w r)) of
        (Inr u, r') \<Rightarrow> (Inr True, r')
      | (Inl error, r') \<Rightarrow>
          (Inr False, r'\<lparr>this := (this r')\<lparr>initializationError := Val error\<rparr>\<rparr>))"

definition initializeAsync :: "env \<Rightarrow> world \<Rightarrow> run \<Rightarrow> unit outcome" where
  "initializeAsync env w r =
     (case initialize env w r of
        (Inr b, r') \<Rightarrow> (Inr (), r'\<lparr>this := (this r')\<lparr>isInitialized := Val b\<rparr>\<rparr>)
      | (Inl error, r') \<Rightarrow>
          (Inr (), r'\<lparr>this := (this r')\<lparr>initializationError := Val error,
                                           isInitialized := Val False\<rparr>\<rparr>))"

definition unassigned :: factory where
  \<comment> \<open>the object before any field has been assigned\<close>
  "unassigned = \<lparr>credential = Undefined, secretClient = Undefined,
                  certificateClient = Undefined, graphClient = Undefined,
                  initializationError = Undefined, isInitialized = Undefined\<rparr>"

definition fresh :: factory where
  \<comment> \<open>lines 18-23\<close>
  "fresh = \<lparr>credential = Null, secretClient = Null, certificateClient = Null,
            graphClient = Null, initializationError = Null, isInitialized = Val False\<rparr>"

text \<open>
  The constructor first creates the logger (line 10), outside any \<open>try\<close>: when that throws,
  the constructor throws (\<open>Inl\<close>). Otherwise it returns (\<open>Inr\<close>): in the test environment
  at once, without a promise (\<open>None\<close>); else after assigning the fields and calling
  \<open>initializeAsync()\<close>, whose promise it drops. A call of an async function returns its
  promise and never throws; what remains to be seen is whether the dropped promise
  rejects. \<open>constructor\<close> gives the settlement of that promise and the run once it has
  settled; the factory as other code sees it before that is in the snapshots of the
  trace. The record \<open>factory\<close> holds the six state fields of lines 18-23; the field
  \<open>logger\<close>, assigned once at line 10, is not among them.
\<close>

definition blank :: "string set \<Rightarrow> run" where
  \<comment> \<open>the run when the constructor is entered\<close>
  "blank disk = \<lparr>this = unassigned, files = disk, trace = [], credentialAttempts = []\<rparr>"

definition test_environment :: "env \<Rightarrow> bool" where
  "test_environment env = (env ''NODE_ENV'' = Some ''test'')"

definition constructor ::
  "env \<Rightarrow> world \<Rightarrow> string set \<Rightarrow> (message + (message + unit) option) \<times> run" where
  "constructor env w disk =
     (case new_Logger env w (blank disk) of
        (Inl error, r) \<Rightarrow> (Inl error, r)
      | (Inr u, r) \<Rightarrow>
          if test_environment env then (Inr None, r)
          else
            (case initializeAsync env w (r\<lparr>this := fresh\<rparr>) of
               (promise, r') \<Rightarrow> (Inr (Some promise), r')))"

subsection \<open>The readiness gate (lines 519-555)\<close>

text \<open>
  The gate runs while initialization may still be going on elsewhere. What it reads is
  given by a \<open>schedule\<close>: \<open>view k\<close> is the factory as it is when the waiter looks at it
  for the \<open>k\<close>-th time after the call (\<open>view 0\<close> at the call itself), and the \<open>k\<close>-th sleep
  of \<open>setTimeout(resolve, 100)\<close> lasts \<open>100 + lateness k\<close> milliseconds.
\<close>

record schedule =
  view :: "nat \<Rightarrow> factory"
  lateness :: "nat \<Rightarrow> nat"

definition settled :: "factory \<Rightarrow> schedule" where
  \<comment> \<open>nothing changes the factory while the caller waits\<close>
  "settled s = \<lparr>view = (\<lambda>k. s), lateness = (\<lambda>k. 0)\<rparr>"

definition pending :: "factory \<Rightarrow> bool" where
  \<comment> \<open>\<open>!this.isInitialized && !this.initializationError\<close>\<close>
  "pending s = (\<not> truthy_bool (isInitialized s) \<and> \<not> truthy (initializationError s))"

function wait_loop :: "schedule \<Rightarrow> nat \<Rightarrow> nat \<Rightarrow> nat \<Rightarrow> nat" where
  \<comment> \<open>the \<open>while\<close> of lines 522-524; the result is the number of sleeps\<close>
  "wait_loop sch timeoutMs elapsed k =
     (if pending (view sch k) \<and> elapsed < timeoutMs
      then wait_loop sch timeoutMs (elapsed + 100 + lateness sch k) (Suc k)
      else k)"
  by pat_completeness auto
termination
  by (relation "measure (\<lambda>(sch, timeoutMs, elapsed, k). timeoutMs - elapsed)") auto

definition waitForInitialization :: "schedule \<Rightarrow> nat \<Rightarrow> (message + bool) \<times> nat" where
  "waitForInitialization sch timeoutMs =
     (let k = wait_loop sch timeoutMs 0 0; s = view sch k
      in case initializationError s of
           Val error \<Rightarrow> (Inl error, k)
         | _ \<Rightarrow> if \<not> truthy_bool (isInitialized s)
                then (Inl (Text ''Credential initialization timeout''), k)
                else (Inr True, k))"

definition check_available :: "factory \<Rightarrow> message + unit" where
  \<comment> \<open>lines 548-554\<close>
  "check_available s =
     (case initializationError s of
        Val error \<Rightarrow> Inl (CredentialsNotAvailable error)
      | _ \<Rightarrow> if \<not> truthy (credential s)
             then Inl (Text ''No credential available after initialization'')
             else Inr ())"

definition ensureCredentialAvailable :: "env \<Rightarrow> schedule \<Rightarrow> (message + unit) \<times> nat" where
  "ensureCredentialAvailable env sch =
     (if test_environment env then (Inr (), 0)
      else if pending (view sch 0) then
        (case waitForInitialization sch 30000 of
           (Inl error, k) \<Rightarrow> (Inl error, k)
         | (Inr ok, k) \<Rightarrow> (check_available (view sch k), k))
      else (check_available (view sch 0), 0))"

subsection \<open>Accessors (lines 345-468)\<close>

definition secret_client_missing :: message where
  "secret_client_missing =
     Text ''Secret client not initialized. Ensure AZURE_KEY_VAULT_URI is configured.''"

definition certificate_client_missing :: message where
  "certificate_client_missing =
     Text ''Certificate client not initialized. Ensure AZURE_KEY_VAULT_URI is configured.''"

definition graph_client_missing :: message where
  "graph_client_missing = Text ''Microsoft Graph client not initialized''"

definition getSecret :: "env \<Rightarrow> world \<Rightarrow> schedule \<Rightarrow> string \<Rightarrow> message + string" where
  "getSecret env w sch secretName =
     (case ensureCredentialAvailable env sch of
        (Inl error, k) \<Rightarrow> Inl error
      | (Inr u, k) \<Rightarrow>
          (case secretClient (view sch k) of
             Val client \<Rightarrow> vaultGetSecret w client secretName
           | _ \<Rightarrow> Inl secret_client_missing))"

definition setSecret :: "world \<Rightarrow> factory \<Rightarrow> string \<Rightarrow> string \<Rightarrow> message + unit" where
  "setSecret w s secretName secretValue =
     (case secretClient s of
        Val client \<Rightarrow> throws (vaultSetSecret w client secretName secretValue)
      | _ \<Rightarrow> Inl secret_client_missing)"

definition getCertificate :: "world \<Rightarrow> factory \<Rightarrow> string \<Rightarrow> message + string" where
  "getCertificate w s certificateName =
     (case certificateClient s of
        Val client \<Rightarrow> vaultGetCertificate w client certificateName
      | _ \<Rightarrow> Inl certificate_client_missing)"

definition getGraphClient :: "factory \<Rightarrow> message + graph_client" where
  "getGraphClient s =
     (case graphClient s of Val client \<Rightarrow> Inr client | _ \<Rightarrow> Inl graph_client_missing)"

definition getCredential :: "factory \<Rightarrow> message + credential" where
  "getCredential s =
     (case credential s of Val c \<Rightarrow> Inr c | _ \<Rightarrow> Inl (Text ''Credential not initialized''))"

datatype scopes = ScopeArray "string list" | ScopeString string

fun join_space :: "string list \<Rightarrow> string" where
  \<comment> \<open>\<open>scopes.join(' ')\<close>\<close>
  "join_space [] = []"
| "join_space [x] = x"
| "join_space (x # y # ys) = x @ '' '' @ join_space (y # ys)"

fun scope_string :: "scopes \<Rightarrow> string" where
  "scope_string (ScopeArray xs) = join_space xs"
| "scope_string (ScopeString x) = x"

definition request_token :: "world \<Rightarrow> factory \<Rightarrow> scopes \<Rightarrow> message + string" where
  \<comment> \<open>lines 424-435, the part of \<open>getAccessToken\<close> after the gate\<close>
  "request_token w s scopes =
     (case credential s of
        Val c \<Rightarrow>
          (case getToken w c (scope_string scopes) of
             Inl error \<Rightarrow> Inl error
           | Inr tokenResponse \<Rightarrow>
               (case tokenResponse of
                  Val t \<Rightarrow> if token t \<noteq> [] then Inr (token t)
                           else Inl (Text ''No token received from credential'')
                | _ \<Rightarrow> Inl (Text ''No token received from credential'')))
      | _ \<Rightarrow> Inl (CannotReadProperty ''getToken''))"

definition default_scopes :: scopes where
  \<comment> \<open>the default value of the parameter \<open>scopes\<close> of \<open>getAccessToken\<close>\<close>
  "default_scopes = ScopeArray [default_scope]"

definition getAccessToken :: "env \<Rightarrow> world \<Rightarrow> schedule \<Rightarrow> scopes \<Rightarrow> message + string" where
  "getAccessToken env w sch scopes =
     (case ensureCredentialAvailable env sch of
        (Inl error, k) \<Rightarrow> Inl error
      | (Inr u, k) \<Rightarrow> request_token w (view sch k) scopes)"

definition refreshCredentials :: "env \<Rightarrow> world \<Rightarrow> run \<Rightarrow> unit outcome" where
  "refreshCredentials env w r =
     and_then (setupCredentials env w r) (\<lambda>_ r.
     and_then (setupKeyVaultClients env w r) (\<lambda>_ r.
       setupGraphClient env w r))"

record health_status =
  credential_status :: string
  secretClient_status :: string
  certificateClient_status :: string
  graphClient_status :: string
  keyVaultUri_status :: string

definition initialized_or_not :: "'a js \<Rightarrow> string" where
  "initialized_or_not x = (if truthy x then ''initialized'' else ''not initialized'')"

definition getHealthStatus :: "env \<Rightarrow> factory \<Rightarrow> health_status" where
  "getHealthStatus env s =
     \<lparr>credential_status = initialized_or_not (credential s),
      secretClient_status = initialized_or_not (secretClient s),
      certificateClient_status = initialized_or_not (certificateClient s),
      graphClient_status = initialized_or_not (graphClient s),
      keyVaultUri_status =
        (if env_truthy env ''AZURE_KEY_VAULT_URI'' then ''configured'' else ''not configured'')\<rparr>"

subsection \<open>Diagnostic helpers (lines 507-517)\<close>

definition isCredentialAvailable :: "factory \<Rightarrow> bool" where
  \<comment> \<open>\<open>this.credential !== null && this.isInitialized\<close>\<close>
  "isCredentialAvailable s = (credential s \<noteq> Null \<and> truthy_bool (isInitialized s))"

definition hasInitializationError :: "factory \<Rightarrow> bool" where
  "hasInitializationError s = (initializationError s \<noteq> Null)"

definition getInitializationError :: "factory \<Rightarrow> message js" where
  "getInitializationError s = initializationError s"

subsection \<open>Reading a run\<close>

definition new_events :: "run \<Rightarrow> run \<Rightarrow> event list" where
  \<comment> \<open>the calls made between two points of a run\<close>
  "new_events r r' = map fst (drop (length (trace r)) (trace r'))"

fun constructed :: "event list \<Rightarrow> credential list" where
  \<comment> \<open>the credential constructor calls among some events, in order\<close>
  "constructed [] = []"
| "constructed (New c # es) = c # constructed es"
| "constructed (e # es) = constructed es"

fun logger_call :: "event \<Rightarrow> bool" where
  \<comment> \<open>the calls of the constructor of \<open>Logger\<close>\<close>
  "logger_call (CreateLogger level) = True"
| "logger_call (ExistsSync d) = True"
| "logger_call (MkdirSync d) = True"
| "logger_call (AddFileTransport p) = True"
| "logger_call e = False"

fun written :: "event list \<Rightarrow> string list" where
  \<comment> \<open>the files written among some events, in order\<close>
  "written [] = []"
| "written (WriteFileSync p b # es) = p # written es"
| "written (e # es) = written es"


definition passes_liveness :: "world \<Rightarrow> credential \<Rightarrow> bool" where
  "passes_liveness w c =
     (case getToken w c default_scope of Inl e \<Rightarrow> False | Inr resp \<Rightarrow> token_received resp)"

definition committed :: "world \<Rightarrow> run \<Rightarrow> bool" where
  \<comment> \<open>the last call of the run is the successful liveness test of the assigned credential\<close>
  "committed w r =
     (case credential (this r) of
        Val c \<Rightarrow> passes_liveness w c \<and> trace r \<noteq> []
                 \<and> last (trace r) = (GetToken c default_scope, this r)
      | _ \<Rightarrow> False)"

text \<open>
  What other code can see while a resolution pass that started from the factory \<open>s0\<close> is
  suspended: the fields other than the credential are those of \<open>s0\<close>; during a liveness
  test the credential is the candidate under test; during the Key Vault requests it is the
  credential of \<open>s0\<close> or null.
\<close>

fun candidate_or_previous :: "factory \<Rightarrow> event \<times> factory \<Rightarrow> bool" where
  "candidate_or_previous s0 (GetToken c sc, s) = (sc = default_scope \<and> credential s = Val c)"
| "candidate_or_previous s0 (e, s) =
     (if is_suspend_point e then credential s = credential s0 \<or> credential s = Null else True)"

definition same_but_credential :: "factory \<Rightarrow> factory \<Rightarrow> bool" where
  "same_but_credential s s0 = (s\<lparr>credential := Null\<rparr> = s0\<lparr>credential := Null\<rparr>)"

definition snapshot_ok :: "factory \<Rightarrow> event \<times> factory \<Rightarrow> bool" where
  "snapshot_ok s0 x = (same_but_credential (snd x) s0 \<and> candidate_or_previous s0 x)"

fun is_liveness_test :: "event \<Rightarrow> bool" where
  "is_liveness_test (GetToken c sc) = True"
| "is_liveness_test e = False"

definition pass_ok :: "factory \<Rightarrow> event \<times> factory \<Rightarrow> bool" where
  \<comment> \<open>a snapshot taken during a pass that started from \<open>s0\<close>: the resolution state is
      that of \<open>s0\<close>, the credential the candidate under test, or that of \<open>s0\<close>, or null\<close>
  "pass_ok s0 x =
     (initializationError (snd x) = initializationError s0
      \<and> isInitialized (snd x) = isInitialized s0
      \<and> candidate_or_previous s0 x)"

text \<open>
  The three argument forms of the certificate sub-procedure, in the order of the
  specification: the base64 string, the decoded buffer, the path of the temporary file.
\<close>

definition form_a :: "string \<Rightarrow> string \<Rightarrow> certificate_info \<Rightarrow> credential" where
  "form_a tenantId clientId info =
     ClientCertificateCredential tenantId clientId (Base64String (certificate info))"

definition form_b :: "world \<Rightarrow> string \<Rightarrow> string \<Rightarrow> certificate_info \<Rightarrow> credential" where
  "form_b w tenantId clientId info =
     ClientCertificateCredential tenantId clientId (CertBuffer (fromBase64 w (certificate info)))"

definition form_c :: "world \<Rightarrow> string \<Rightarrow> string \<Rightarrow> credential" where
  "form_c w tenantId clientId =
     ClientCertificateCredential tenantId clientId (FilePath (temp_file_path w))"

definition sub_attempt_c :: "world \<Rightarrow> string \<Rightarrow> string \<Rightarrow> certificate_info \<Rightarrow> message option" where
  \<comment> \<open>what the third sub-attempt throws: the failure of the write, or else of the constructor\<close>
  "sub_attempt_c w tenantId clientId info =
     (case writeFileSync w (temp_file_path w) (fromBase64 w (certificate info)) of
        WriteFailed e partial \<Rightarrow> Some e
      | Written \<Rightarrow> construct w (form_c w tenantId clientId))"

definition certificate_prerequisite :: "env \<Rightarrow> bool" where
  "certificate_prerequisite env =
     (env_truthy env ''AZURE_KEY_VAULT_URI'' \<and> env_truthy env ''AZURE_KEY_VAULT_CERTIFICATE_NAME''
      \<and> env_truthy env ''MICROSOFT_APP_TENANT_ID'' \<and> env_truthy env ''MICROSOFT_APP_ID'')"

subsection \<open>Example environments and worlds\<close>

definition calm_world :: world where
  \<comment> \<open>every external call succeeds\<close>
  "calm_world =
     \<lparr>construct = (\<lambda>c. None),
      getToken = (\<lambda>c sc. Inr (Val \<lparr>token = ''tok'', expiresOnTimestamp = 0\<rparr>)),
      newSecretClient = (\<lambda>u c. None),
      newCertificateClient = (\<lambda>u c. None),
      newGraphClient = (\<lambda>c sc. None),
      vaultGetCertificate = (\<lambda>cl n. Inr ''cert''),
      vaultGetSecret = (\<lambda>cl n. Inr ''QUJD''),
      vaultSetSecret = (\<lambda>cl n v. None),
      tmpdir = ''/tmp'',
      date_now = 1,
      random_digits = [10],
      fromBase64 = (\<lambda>s. [65, 66, 67]),
      writeFileSync = (\<lambda>p b. Written),
      unlinkSync = (\<lambda>p. None),
      createLogger = (\<lambda>l. None),
      mkdirSync = (\<lambda>d. None),
      addFileTransport = (\<lambda>p. None)\<rparr>"

definition test_env :: env where
  "test_env = map_of [(''NODE_ENV'', ''test'')]"



definition new_run :: "factory \<Rightarrow> run" where
  "new_run s = \<lparr>this = s, files = {}, trace = [], credentialAttempts = []\<rparr>"

definition certificate_env :: env where
  \<comment> \<open>the prerequisites of the certificate and of the client secret strategies\<close>
  "certificate_env =
     map_of [(''AZURE_KEY_VAULT_URI'', ''https://kv.example''),
             (''AZURE_KEY_VAULT_CERTIFICATE_NAME'', ''bot''),
             (''MICROSOFT_APP_TENANT_ID'', ''t''),
             (''MICROSOFT_APP_ID'', ''c''),
             (''MICROSOFT_APP_PASSWORD'', ''s'')]"

definition stubborn_world :: world where
  \<comment> \<open>the certificate credential constructor rejects every argument form\<close>
  "stubborn_world =
     calm_world\<lparr>construct :=
       (\<lambda>c. case c of ClientCertificateCredential t i a \<Rightarrow> Some (Text ''bad certificate'')
              | _ \<Rightarrow> None)\<rparr>"

definition sticky_world :: world where
  \<comment> \<open>only the file path is accepted, and the temporary file cannot be removed\<close>
  "sticky_world =
     calm_world\<lparr>construct :=
       (\<lambda>c. case c of ClientCertificateCredential t i (FilePath p) \<Rightarrow> None
              | ClientCertificateCredential t i a \<Rightarrow> Some (Text ''bad certificate'')
              | _ \<Rightarrow> None),
       unlinkSync := (\<lambda>p. Some (Text ''EPERM''))\<rparr>"

definition later_world :: world where
  \<comment> \<open>as \<open>stubborn_world\<close>, one millisecond later\<close>
  "later_world = stubborn_world\<lparr>date_now := 2\<rparr>"

definition pkcs12 :: certificate_info where
  "pkcs12 = \<lparr>certificate = ''QUJD'', password = [], format = ''pkcs12''\<rparr>"

subsection \<open>The resolution algorithm of the specification\<close>

text \<open>
  The specification describes resolution as one loop over the strategies in a fixed
  order. The definitions below follow its words (section 4.1): a strategy whose
  prerequisite configuration is absent is skipped; otherwise its credential is constructed
  and then tested by a token request for the default scope; a failure is recorded under
  the name of the strategy and the next strategy is tried; the first success ends the
  loop. They are compared with \<open>setupCredentials\<close> below.
\<close>

datatype strategy = ManagedIdentity | ClientCertificate | ClientSecret | DefaultAzure

definition strategy_order :: "strategy list" where
  "strategy_order = [ManagedIdentity, ClientCertificate, ClientSecret, DefaultAzure]"

fun strategy_name :: "strategy \<Rightarrow> string" where
  "strategy_name ManagedIdentity = ''ManagedIdentity''"
| "strategy_name ClientCertificate = ''ClientCertificate''"
| "strategy_name ClientSecret = ''ClientSecret''"
| "strategy_name DefaultAzure = ''DefaultAzureCredential''"

fun prerequisite :: "env \<Rightarrow> strategy \<Rightarrow> bool" where
  "prerequisite env ManagedIdentity =
     (env_truthy env ''AZURE_CLIENT_ID'' \<or> env_truthy env ''MSI_ENDPOINT'')"
| "prerequisite env ClientCertificate = certificate_prerequisite env"
| "prerequisite env ClientSecret =
     (env_truthy env ''MICROSOFT_APP_TENANT_ID'' \<and> env_truthy env ''MICROSOFT_APP_ID''
      \<and> env_truthy env ''MICROSOFT_APP_PASSWORD'')"
| "prerequisite env DefaultAzure = True"

definition construct_plain :: "world \<Rightarrow> credential \<Rightarrow> run \<Rightarrow> unit outcome" where
  "construct_plain w c r =
     and_then (call (New c) (throws (construct w c)) r) (\<lambda>_ r.
       (Inr (), set_credential (Val c) r))"

fun construct_credential :: "env \<Rightarrow> world \<Rightarrow> strategy \<Rightarrow> run \<Rightarrow> unit outcome" where
  "construct_credential env w ManagedIdentity r = construct_plain w ManagedIdentityCredential r"
| "construct_credential env w ClientCertificate r =
     and_then (getCertificateFromKeyVault env w (env_value env ''AZURE_KEY_VAULT_URI'')
                 (env_value env ''AZURE_KEY_VAULT_CERTIFICATE_NAME'') r) (\<lambda>certificateInfo r.
       tryCreateCertificateCredential w (env_value env ''MICROSOFT_APP_TENANT_ID'')
         (env_value env ''MICROSOFT_APP_ID'') certificateInfo r)"
| "construct_credential env w ClientSecret r =
     construct_plain w
       (ClientSecretCredential (env_value env ''MICROSOFT_APP_TENANT_ID'')
          (env_value env ''MICROSOFT_APP_ID'') (env_value env ''MICROSOFT_APP_PASSWORD'')) r"
| "construct_credential env w DefaultAzure r = construct_plain w DefaultAzureCredential r"

definition attempt_strategy :: "env \<Rightarrow> world \<Rightarrow> strategy \<Rightarrow> run \<Rightarrow> bool outcome" where
  \<comment> \<open>construct, then the liveness test\<close>
  "attempt_strategy env w st r =
     and_then (construct_credential env w st r) (\<lambda>_ r. testCredential w r)"

fun resolution_chain :: "env \<Rightarrow> world \<Rightarrow> strategy list \<Rightarrow> run \<Rightarrow> bool \<times> run" where
  "resolution_chain env w [] r = (False, r)"
| "resolution_chain env w (st # rest) r =
     (if \<not> prerequisite env st then resolution_chain env w rest r
      else (case attempt_strategy env w st r of
              (Inr ok, r') \<Rightarrow> (True, r')
            | (Inl error, r') \<Rightarrow>
                resolution_chain env w rest (fallback (strategy_name st) error r')))"

definition agree :: "unit outcome \<Rightarrow> bool \<times> run \<Rightarrow> bool" where
  \<comment> \<open>the code and the loop of the specification did the same: the same calls with the
      same snapshots, the same attempt log, the same files, and on success the same
      factory; on failure the code throws the aggregate of the attempt log\<close>
  "agree code spec =
     ((fst code = Inr ()) = fst spec
      \<and> trace (snd code) = trace (snd spec)
      \<and> files (snd code) = files (snd spec)
      \<and> credentialAttempts (snd code) = credentialAttempts (snd spec)
      \<and> (if fst spec then this (snd code) = this (snd spec)
         else fst code = Inl (AllAuthenticationMethodsFailed (credentialAttempts (snd code)))
              \<and> this (snd spec) = (this (snd code))\<lparr>credential := Null\<rparr>))"

definition secret_env :: env where
  \<comment> \<open>a managed identity hint and the client secret configuration, no Key Vault\<close>
  "secret_env =
     map_of [(''AZURE_CLIENT_ID'', ''mi''),
             (''MICROSOFT_APP_TENANT_ID'', ''t''),
             (''MICROSOFT_APP_ID'', ''c''),
             (''MICROSOFT_APP_PASSWORD'', ''s'')]"

definition no_msi_world :: world where
  \<comment> \<open>no managed identity endpoint answers\<close>
  "no_msi_world =
     calm_world\<lparr>getToken :=
       (\<lambda>c sc. if c = ManagedIdentityCredential then Inl (Text ''no managed identity endpoint'')
               else Inr (Val \<lparr>token = ''tok'', expiresOnTimestamp = 0\<rparr>))\<rparr>"

definition offline_world :: world where
  \<comment> \<open>no token request succeeds\<close>
  "offline_world = calm_world\<lparr>getToken := (\<lambda>c sc. Inl (Text ''network unreachable''))\<rparr>"

fun elapsed_after :: "schedule \<Rightarrow> nat \<Rightarrow> nat" where
  \<comment> \<open>\<open>Date.now() - startTime\<close> after \<open>k\<close> sleeps\<close>
  "elapsed_after sch 0 = 0"
| "elapsed_after sch (Suc k) = elapsed_after sch k + 100 + lateness sch k"

definition initialization_timeout :: message where
  "initialization_timeout = Text ''Credential initialization timeout''"

definition failed_with :: "message \<Rightarrow> factory" where
  \<comment> \<open>a factory whose resolution has failed with the given error\<close>
  "failed_with e = fresh\<lparr>initializationError := Val e\<rparr>"

definition ready_with :: "credential \<Rightarrow> factory" where
  \<comment> \<open>a factory whose resolution has succeeded, without Key Vault\<close>
  "ready_with c = fresh\<lparr>credential := Val c, graphClient := Val (GraphClient c [default_scope]),
                        isInitialized := Val True\<rparr>"

definition becomes :: "nat \<Rightarrow> factory \<Rightarrow> schedule" where
  \<comment> \<open>pending until the \<open>n\<close>-th look, then the given factory; sleeps are punctual\<close>
  "becomes n s = \<lparr>view = (\<lambda>k. if k < n then fresh else s), lateness = (\<lambda>k. 0)\<rparr>"

text \<open>
  The accessor of the specification (section 4.2): pass the readiness gate first, then
  check that the sub-client is there, then use it.
\<close>

definition gate_then_check ::
  "env \<Rightarrow> schedule \<Rightarrow> (factory \<Rightarrow> 'c js) \<Rightarrow> message \<Rightarrow> ('c \<Rightarrow> message + 'a) \<Rightarrow> message + 'a" where
  "gate_then_check env sch sub_client missing use =
     (case ensureCredentialAvailable env sch of
        (Inl error, k) \<Rightarrow> Inl error
      | (Inr u, k) \<Rightarrow>
          (case sub_client (view sch k) of Val client \<Rightarrow> use client | _ \<Rightarrow> Inl missing))"

definition hinted_env :: env where
  \<comment> \<open>a managed identity hint and the certificate configuration\<close>
  "hinted_env =
     map_of [(''AZURE_CLIENT_ID'', ''mi''),
             (''AZURE_KEY_VAULT_URI'', ''https://kv.example''),
             (''AZURE_KEY_VAULT_CERTIFICATE_NAME'', ''bot''),
             (''MICROSOFT_APP_TENANT_ID'', ''t''),
             (''MICROSOFT_APP_ID'', ''c'')]"

definition vault_run :: run where
  \<comment> \<open>a factory constructed where the managed identity fails and the certificate works\<close>
  "vault_run = snd (constructor hinted_env no_msi_world {})"

definition with_vault :: "credential \<Rightarrow> factory" where
  \<comment> \<open>a factory whose resolution has succeeded, with Key Vault\<close>
  "with_vault c =
     \<lparr>credential = Val c,
      secretClient = Val (SecretClient ''https://kv.example'' c),
      certificateClient = Val (CertificateClient ''https://kv.example'' c),
      graphClient = Val (GraphClient c [default_scope]),
      initializationError = Null, isInitialized = Val True\<rparr>"

definition graphless_world :: world where
  \<comment> \<open>the Graph client cannot be built\<close>
  "graphless_world = calm_world\<lparr>newGraphClient := (\<lambda>c sc. Some (Text ''graph sdk error''))\<rparr>"

definition logged :: "string set \<Rightarrow> run" where
  \<comment> \<open>the run of the constructor after lines 10-23, when no log file is asked for\<close>
  "logged disk =
     \<lparr>this = fresh, files = disk, trace = [(CreateLogger ''info'', unassigned)],
      credentialAttempts = []\<rparr>"

definition first_run :: run where
  \<comment> \<open>a factory constructed where the managed identity fails and the client secret works\<close>
  "first_run = snd (constructor secret_env no_msi_world {})"

definition second_run :: run where
  \<comment> \<open>the same factory after a refresh in the same world\<close>
  "second_run = snd (refreshCredentials secret_env no_msi_world first_run)"

definition under_test :: "factory \<Rightarrow> credential \<Rightarrow> factory" where
  \<comment> \<open>the factory while the given candidate is being tested\<close>
  "under_test s c = s\<lparr>credential := Val c\<rparr>"



section \<open>Properties\<close>

lemmas run_defs =
  emit_def call_def throws_def and_then_def set_credential_def fallback_def

lemmas resolve_defs =
  setupCredentials_def attempt1_def attempt2_def attempt3_def attempt4_def
  construct_and_test_def testCredential_def token_received_def
  getCertificateFromKeyVault_def tryCreateCertificateCredential_def approach2_def
  approach3_def write_file_def try_unlink_def cleanup_on_error_def

lemmas init_defs =
  constructor_def blank_def new_Logger_def make_directory_def initializeAsync_def
  initialize_def setupKeyVaultClients_def setupGraphClient_def graph_scopes_def fresh_def
  unassigned_def

lemmas env_defs = env_truthy_def env_value_def env_or_def test_environment_def

subsection \<open>The logger and the constructor\<close>

lemma new_Logger_this: "this (snd (new_Logger env w r)) = this r"
  by (simp add: new_Logger_def make_directory_def run_defs Let_def split: option.splits)

lemma new_Logger_attempts:
  "credentialAttempts (snd (new_Logger env w r)) = credentialAttempts r"
  by (simp add: new_Logger_def make_directory_def run_defs Let_def split: option.splits)

lemma new_Logger_trace:
  "\<exists>new. trace (snd (new_Logger env w r)) = trace r @ new
     \<and> list_all (\<lambda>x. logger_call (fst x) \<and> snd x = this r) new"
  by (simp add: new_Logger_def make_directory_def run_defs Let_def split: option.splits)

lemma logger_call_quiet: "logger_call e \<Longrightarrow> \<not> is_suspend_point e"
  by (cases e) simp_all

lemma new_Logger_quiet:
  assumes "\<not> env_truthy env ''LOG_FILE_PATH''" and "createLogger w = (\<lambda>level. None)"
  shows "new_Logger env w r = (Inr (), emit (CreateLogger (env_or env ''LOG_LEVEL'' ''info'')) r)"
  using assms by (simp add: new_Logger_def run_defs Let_def)

lemma constructor_throws:
  "(fst (constructor env w disk) = Inl e) = (fst (new_Logger env w (blank disk)) = Inl e)"
  by (cases "new_Logger env w (blank disk)")
    (auto simp add: constructor_def split: sum.splits prod.splits)

lemma constructor_thrown:
  assumes "fst (new_Logger env w (blank disk)) = Inl e"
  shows "constructor env w disk = (Inl e, snd (new_Logger env w (blank disk)))"
proof -
  obtain r where "new_Logger env w (blank disk) = (Inl e, r)"
    using assms by (cases "new_Logger env w (blank disk)") simp
  then show ?thesis
    by (simp add: constructor_def)
qed

lemma constructor_started:
  assumes "\<not> test_environment env" and "new_Logger env w (blank disk) = (Inr (), r0)"
  shows "constructor env w disk =
           (Inr (Some (fst (initializeAsync env w (r0\<lparr>this := fresh\<rparr>)))),
            snd (initializeAsync env w (r0\<lparr>this := fresh\<rparr>)))"
  using assms by (simp add: constructor_def split: prod.splits)

lemma constructor_cases:
  assumes "\<not> test_environment env"
  obtains (thrown) e where "fst (new_Logger env w (blank disk)) = Inl e"
      and "constructor env w disk = (Inl e, snd (new_Logger env w (blank disk)))"
    | (started) r0 where "new_Logger env w (blank disk) = (Inr (), r0)"
      and "constructor env w disk =
             (Inr (Some (fst (initializeAsync env w (r0\<lparr>this := fresh\<rparr>)))),
              snd (initializeAsync env w (r0\<lparr>this := fresh\<rparr>)))"
proof (cases "new_Logger env w (blank disk)")
  case (Pair a r0)
  show ?thesis
  proof (cases a)
    case (Inl e)
    with Pair have "fst (new_Logger env w (blank disk)) = Inl e"
      by simp
    then show ?thesis
      using constructor_thrown thrown by blast
  next
    case (Inr u)
    with Pair have "new_Logger env w (blank disk) = (Inr (), r0)"
      by simp
    then show ?thesis
      using constructor_started [OF assms] started by blast
  qed
qed

lemma new_Logger_blank:
  "this (snd (new_Logger env w (blank disk))) = unassigned"
  "credentialAttempts (snd (new_Logger env w (blank disk))) = []"
  "list_all (\<lambda>x. logger_call (fst x) \<and> snd x = unassigned)
     (trace (snd (new_Logger env w (blank disk))))"
proof -
  show "this (snd (new_Logger env w (blank disk))) = unassigned"
    by (simp add: new_Logger_this blank_def)
  show "credentialAttempts (snd (new_Logger env w (blank disk))) = []"
    by (simp add: new_Logger_attempts blank_def)
  obtain new where n: "trace (snd (new_Logger env w (blank disk))) = trace (blank disk) @ new"
    "list_all (\<lambda>x. logger_call (fst x) \<and> snd x = this (blank disk)) new"
    using new_Logger_trace [of env w "blank disk"] by blast
  show "list_all (\<lambda>x. logger_call (fst x) \<and> snd x = unassigned)
     (trace (snd (new_Logger env w (blank disk))))"
    unfolding n(1) using n(2) by (simp add: blank_def)
qed

subsection \<open>The test environment\<close>




subsection \<open>The name of the temporary file\<close>

lemma digit_char_mem: "d < 36 \<Longrightarrow> digit_char d \<in> set ''0123456789abcdefghijklmnopqrstuvwxyz''"
  unfolding digit_char_def by (rule nth_mem) simp

lemma digit_char_inj:
  assumes "a < 36" and "b < 36" and "digit_char a = digit_char b"
  shows "a = b"
proof -
  have "distinct ''0123456789abcdefghijklmnopqrstuvwxyz''"
    by simp
  with assms show ?thesis
    unfolding digit_char_def by (simp add: nth_eq_iff_index_eq)
qed

lemma digit_char_plain:
  assumes "d < 36"
  shows "digit_char d \<noteq> CHR ''/''" and "digit_char d \<noteq> CHR ''-''"
    and "CHR ''/'' \<noteq> digit_char d" and "CHR ''-'' \<noteq> digit_char d"
  using digit_char_mem [OF assms] by auto

lemma decimal_nonempty: "decimal n \<noteq> []"
  by (subst decimal.simps) simp

lemma decimal_plain: "CHR ''/'' \<notin> set (decimal n) \<and> CHR ''-'' \<notin> set (decimal n)"
proof (induction n rule: decimal.induct)
  case (1 n)
  show ?case
  proof (cases "n < 10")
    case True
    then show ?thesis
      using digit_char_plain [of n] by (subst (1 2) decimal.simps) simp
  next
    case False
    have "n mod 10 < 10"
      by simp
    then have "n mod 10 < 36"
      by simp
    with False show ?thesis
      using 1 digit_char_plain [of "n mod 10"] by (subst (1 2) decimal.simps) simp
  qed
qed

lemma decimal_inj: "decimal n = decimal m \<Longrightarrow> n = m"
proof (induction n arbitrary: m rule: decimal.induct)
  case (1 n)
  show ?case
  proof (cases "n < 10")
    case n: True
    show ?thesis
    proof (cases "m < 10")
      case True
      with n 1(2) have "digit_char n = digit_char m"
        by (simp add: decimal.simps [of n] decimal.simps [of m])
      with n True show ?thesis
        by (auto intro: digit_char_inj)
    next
      case False
      with n 1(2) show ?thesis
        using decimal_nonempty [of "m div 10"]
        by (simp add: decimal.simps [of n] decimal.simps [of m])
    qed
  next
    case n: False
    show ?thesis
    proof (cases "m < 10")
      case True
      with n 1(2) show ?thesis
        using decimal_nonempty [of "n div 10"]
        by (simp add: decimal.simps [of n] decimal.simps [of m])
    next
      case False
      with n 1(2) have e: "decimal (n div 10) = decimal (m div 10)"
        "digit_char (n mod 10) = digit_char (m mod 10)"
        by (simp_all add: decimal.simps [of n] decimal.simps [of m])
      from 1(1) [OF n e(1)] have "n div 10 = m div 10" .
      moreover from e(2) have "n mod 10 = m mod 10"
        by (auto intro: digit_char_inj)
      ultimately show ?thesis
        by (metis div_mult_mod_eq)
    qed
  qed
qed

lemma random_text_plain:
  "CHR ''/'' \<notin> set (random_text w) \<and> CHR ''-'' \<notin> set (random_text w)"
proof -
  have "c \<noteq> CHR ''/'' \<and> c \<noteq> CHR ''-''" if "c \<in> set (random_text w)" for c
  proof -
    from that obtain d where "c = digit_char (d mod 36)"
      by (auto simp add: random_text_def)
    moreover have "d mod 36 < 36"
      by simp
    ultimately show ?thesis
      using digit_char_plain(1,2) [of "d mod 36"] by simp
  qed
  then show ?thesis
    by blast
qed

lemma temp_file_name_plain:
  "CHR ''/'' \<notin> set (temp_file_name w)" "temp_file_name w \<noteq> []"
  "temp_file_name w \<noteq> ''.''" "temp_file_name w \<noteq> ''..''"
  using decimal_plain [of "date_now w"] random_text_plain [of w]
  by (simp_all add: temp_file_name_def)

lemma temp_file_name_eq:
  "(temp_file_name w = temp_file_name w') =
     (date_now w = date_now w' \<and> random_text w = random_text w')"
proof
  assume "temp_file_name w = temp_file_name w'"
  then have "decimal (date_now w) @ CHR ''-'' # random_text w =
      decimal (date_now w') @ CHR ''-'' # random_text w'"
    by (simp add: temp_file_name_def)
  then have "decimal (date_now w) = decimal (date_now w') \<and> random_text w = random_text w'"
    using decimal_plain [of "date_now w"] random_text_plain [of w]
      append_Cons_eq_iff [of "CHR ''-''" "decimal (date_now w)" "random_text w"
        "decimal (date_now w')" "random_text w'"]
    by blast
  then show "date_now w = date_now w' \<and> random_text w = random_text w'"
    by (auto dest: decimal_inj)
next
  assume "date_now w = date_now w' \<and> random_text w = random_text w'"
  then show "temp_file_name w = temp_file_name w'"
    by (simp add: temp_file_name_def)
qed

lemma split_slash_nonempty: "split_slash p \<noteq> []"
  by (induction p) (auto split: list.splits)

lemma split_slash_append:
  "split_slash (a @ CHR ''/'' # b) = split_slash a @ split_slash b"
  using split_slash_nonempty by (induction a) (auto split: list.splits)

lemma split_slash_plain: "CHR ''/'' \<notin> set n \<Longrightarrow> split_slash n = [n]"
  by (induction n) auto

lemma normalize_segments_append:
  "normalize_segments up acc (xs @ ys) =
     normalize_segments up (rev (normalize_segments up acc xs)) ys"
  by (induction xs arbitrary: acc) (auto split: list.splits)

lemma join_slash_snoc:
  "join_slash (xs @ [n]) = (if xs = [] then n else join_slash xs @ ''/'' @ n)"
  by (induction xs rule: join_slash.induct) auto

lemma path_join_plain:
  "\<exists>d. \<forall>n. CHR ''/'' \<notin> set n \<and> n \<noteq> [] \<and> n \<noteq> ''.'' \<and> n \<noteq> ''..'' \<longrightarrow> path_join a n = d @ n"
proof (cases "a = []")
  case True
  have "path_join a n = [] @ n"
    if "CHR ''/'' \<notin> set n \<and> n \<noteq> [] \<and> n \<noteq> ''.'' \<and> n \<noteq> ''..''" for n
  proof -
    from that have "hd n \<noteq> CHR ''/''" "last n \<noteq> CHR ''/''"
      by (metis hd_in_set, metis last_in_set)
    with that True show ?thesis
      by (simp add: path_join_def normalize_path_def split_slash_plain Let_def)
  qed
  then show ?thesis by blast
next
  case False
  let ?abs = "hd a = CHR ''/''"
  let ?ns = "normalize_segments (\<not> ?abs) [] (split_slash a)"
  let ?d = "(if ?abs then ''/'' else []) @ (if ?ns = [] then [] else join_slash ?ns @ ''/'')"
  have "path_join a n = ?d @ n"
    if "CHR ''/'' \<notin> set n \<and> n \<noteq> [] \<and> n \<noteq> ''.'' \<and> n \<noteq> ''..''" for n
  proof -
    from that have l: "last n \<noteq> CHR ''/''"
      by (metis last_in_set)
    have s: "split_slash (a @ CHR ''/'' # n) = split_slash a @ [n]"
      using that by (simp add: split_slash_append split_slash_plain)
    have q: "normalize_segments (\<not> ?abs) [] (split_slash a @ [n]) = ?ns @ [n]"
      using that by (simp add: normalize_segments_append)
    from that False show ?thesis
      unfolding path_join_def normalize_path_def Let_def
      by (simp add: s q join_slash_snoc l)
  qed
  then show ?thesis by blast
qed

lemma temp_file_path_eq:
  assumes "tmpdir w = tmpdir w'"
  shows "(temp_file_path w = temp_file_path w') =
     (date_now w = date_now w' \<and> random_text w = random_text w')"
proof -
  obtain d where d: "\<And>n. CHR ''/'' \<notin> set n \<and> n \<noteq> [] \<and> n \<noteq> ''.'' \<and> n \<noteq> ''..''
      \<Longrightarrow> path_join (tmpdir w) n = d @ n"
    using path_join_plain [of "tmpdir w"] by blast
  have "temp_file_path w = d @ temp_file_name w" "temp_file_path w' = d @ temp_file_name w'"
    using d [of "temp_file_name w"] d [of "temp_file_name w'"] assms
    by (simp_all add: temp_file_path_def temp_file_name_plain)
  then show ?thesis
    by (simp add: temp_file_name_eq)
qed

lemma normalize_path_nonempty: "normalize_path p \<noteq> []"
  by (simp add: normalize_path_def Let_def)

lemma path_join_nonempty: "path_join a b \<noteq> []"
  by (simp add: path_join_def Let_def normalize_path_nonempty)

lemma temp_file_path_nonempty [simp]: "temp_file_path w \<noteq> []"
  by (simp add: temp_file_path_def path_join_nonempty)

lemma temp_file_path_example:
  assumes "tmpdir w = ''/tmp''" and "date_now w = 1" and "random_digits w = [10]"
  shows "temp_file_path w = ''/tmp/cert-1-a.pfx''"
  using assms
  by (simp add: temp_file_path_def path_join_def normalize_path_def temp_file_name_def
      random_text_def digit_char_def Let_def decimal.simps)

subsection \<open>The certificate sub-procedure\<close>

lemma tryCreate_result:
  "fst (tryCreateCertificateCredential w t c info r) =
     (case construct w (form_a t c info) of None \<Rightarrow> Inr ()
      | Some e1 \<Rightarrow>
         (case construct w (form_b w t c info) of None \<Rightarrow> Inr ()
          | Some e2 \<Rightarrow>
             (case sub_attempt_c w t c info of None \<Rightarrow> Inr ()
              | Some e3 \<Rightarrow> Inl (AllCertificateApproachesFailed
                   [(''base64String'', e1), (''buffer'', e2), (''tempFile'', e3)]))))"
  by (simp add: resolve_defs run_defs form_a_def form_b_def form_c_def sub_attempt_c_def Let_def
      split: option.splits write_outcome.splits)

lemma tryCreate_calls:
  "constructed (new_events r (snd (tryCreateCertificateCredential w t c info r))) =
     (case construct w (form_a t c info) of None \<Rightarrow> [form_a t c info]
      | Some e1 \<Rightarrow>
         (case construct w (form_b w t c info) of None \<Rightarrow> [form_a t c info, form_b w t c info]
          | Some e2 \<Rightarrow>
             (case writeFileSync w (temp_file_path w) (fromBase64 w (certificate info)) of
                Written \<Rightarrow> [form_a t c info, form_b w t c info, form_c w t c]
              | WriteFailed e p \<Rightarrow> [form_a t c info, form_b w t c info])))"
  by (simp add: resolve_defs run_defs form_a_def form_b_def form_c_def new_events_def Let_def
      split: option.splits write_outcome.splits)

lemma tryCreate_events:
  "new_events r (snd (tryCreateCertificateCredential w t c info r)) =
     (case construct w (form_a t c info) of None \<Rightarrow> [New (form_a t c info)]
      | Some e1 \<Rightarrow>
         (case construct w (form_b w t c info) of
            None \<Rightarrow> [New (form_a t c info), New (form_b w t c info)]
          | Some e2 \<Rightarrow>
             [New (form_a t c info), New (form_b w t c info),
              WriteFileSync (temp_file_path w) (fromBase64 w (certificate info))]
             @ (case writeFileSync w (temp_file_path w) (fromBase64 w (certificate info)) of
                  Written \<Rightarrow>
                    New (form_c w t c)
                    # (case construct w (form_c w t c) of
                         None \<Rightarrow> [UnlinkSync (temp_file_path w)]
                       | Some e3 \<Rightarrow> [ExistsSync (temp_file_path w),
                                    UnlinkSync (temp_file_path w)])
                | WriteFailed e partial \<Rightarrow>
                    ExistsSync (temp_file_path w)
                    # (if partial \<or> temp_file_path w \<in> files r
                       then [UnlinkSync (temp_file_path w)] else []))))"
  by (simp add: resolve_defs run_defs form_a_def form_b_def form_c_def new_events_def Let_def
      split: option.splits write_outcome.splits)

lemma form_c_eq:
  assumes "tmpdir w = tmpdir w'"
  shows "(form_c w t c = form_c w' t c) =
           (date_now w = date_now w' \<and> random_text w = random_text w')"
  using temp_file_path_eq [OF assms] by (simp add: form_c_def)

lemma tryCreate_credential:
  "credential (this (snd (tryCreateCertificateCredential w t c info r))) =
     (case construct w (form_a t c info) of None \<Rightarrow> Val (form_a t c info)
      | Some e1 \<Rightarrow>
         (case construct w (form_b w t c info) of None \<Rightarrow> Val (form_b w t c info)
          | Some e2 \<Rightarrow>
             (case sub_attempt_c w t c info of None \<Rightarrow> Val (form_c w t c)
              | Some e3 \<Rightarrow> credential (this r))))"
  by (simp add: resolve_defs run_defs form_a_def form_b_def form_c_def sub_attempt_c_def Let_def
      split: option.splits write_outcome.splits)

lemma tryCreate_attempts:
  "credentialAttempts (snd (tryCreateCertificateCredential w t c info r)) = credentialAttempts r"
  by (simp add: resolve_defs run_defs Let_def split: option.splits write_outcome.splits)

lemma getCertificate_attempts:
  "credentialAttempts (snd (getCertificateFromKeyVault env w u n r)) = credentialAttempts r"
  by (simp add: getCertificateFromKeyVault_def run_defs Let_def split: option.splits sum.splits)

lemma attempt2_all_throw:
  assumes "certificate_prerequisite env"
    and "getCertificateFromKeyVault env w (env_value env ''AZURE_KEY_VAULT_URI'')
           (env_value env ''AZURE_KEY_VAULT_CERTIFICATE_NAME'') r = (Inr info, r1)"
    and "tryCreateCertificateCredential w (env_value env ''MICROSOFT_APP_TENANT_ID'')
           (env_value env ''MICROSOFT_APP_ID'') info r1 = (Inl e, r2)"
  shows "attempt2 env w r = attempt3 env w (fallback ''ClientCertificate'' e r2)"
  using assms by (simp add: attempt2_def certificate_prerequisite_def and_then_def)

text \<open>
  C3. \<open>tryCreateCertificateCredential\<close> calls the constructor with the base64 string, then
  with the decoded buffer, then with the path of the temporary file, in this order and
  stopping at the first call that returns; the credential of that call becomes
  \<open>this.credential\<close>. In the third sub-attempt the decoded bytes are written to the file
  before the constructor is called with its path, and a failing write is the failure of
  that sub-attempt. The file lies in the directory for temporary files and is named
  \<open>cert-\<close>, the clock reading, \<open>-\<close>, nine random digits, \<open>.pfx\<close>: in one directory two
  passes use the same path exactly when they read the same clock and draw the same
  digits. When all three sub-attempts throw, the error lists the three failures, the
  attempt log is not touched by the sub-procedure, and \<open>setupCredentials\<close> logs one
  \<open>ClientCertificate\<close> entry with that error and goes on with the client secret strategy.
\<close>

theorem certificate_sub_procedure:
  "constructed (new_events r (snd (tryCreateCertificateCredential w t c info r))) =
     (case construct w (form_a t c info) of None \<Rightarrow> [form_a t c info]
      | Some e1 \<Rightarrow>
         (case construct w (form_b w t c info) of None \<Rightarrow> [form_a t c info, form_b w t c info]
          | Some e2 \<Rightarrow>
             (case writeFileSync w (temp_file_path w) (fromBase64 w (certificate info)) of
                Written \<Rightarrow> [form_a t c info, form_b w t c info, form_c w t c]
              | WriteFailed e p \<Rightarrow> [form_a t c info, form_b w t c info])))
   \<and> new_events r (snd (tryCreateCertificateCredential w t c info r)) =
     (case construct w (form_a t c info) of None \<Rightarrow> [New (form_a t c info)]
      | Some e1 \<Rightarrow>
         (case construct w (form_b w t c info) of
            None \<Rightarrow> [New (form_a t c info), New (form_b w t c info)]
          | Some e2 \<Rightarrow>
             [New (form_a t c info), New (form_b w t c info),
              WriteFileSync (temp_file_path w) (fromBase64 w (certificate info))]
             @ (case writeFileSync w (temp_file_path w) (fromBase64 w (certificate info)) of
                  Written \<Rightarrow>
                    New (form_c w t c)
                    # (case construct w (form_c w t c) of
                         None \<Rightarrow> [UnlinkSync (temp_file_path w)]
                       | Some e3 \<Rightarrow> [ExistsSync (temp_file_path w),
                                    UnlinkSync (temp_file_path w)])
                | WriteFailed e partial \<Rightarrow>
                    ExistsSync (temp_file_path w)
                    # (if partial \<or> temp_file_path w \<in> files r
                       then [UnlinkSync (temp_file_path w)] else []))))
   \<and> fst (tryCreateCertificateCredential w t c info r) =
     (case construct w (form_a t c info) of None \<Rightarrow> Inr ()
      | Some e1 \<Rightarrow>
         (case construct w (form_b w t c info) of None \<Rightarrow> Inr ()
          | Some e2 \<Rightarrow>
             (case sub_attempt_c w t c info of None \<Rightarrow> Inr ()
              | Some e3 \<Rightarrow> Inl (AllCertificateApproachesFailed
                   [(''base64String'', e1), (''buffer'', e2), (''tempFile'', e3)]))))
   \<and> credential (this (snd (tryCreateCertificateCredential w t c info r))) =
     (case construct w (form_a t c info) of None \<Rightarrow> Val (form_a t c info)
      | Some e1 \<Rightarrow>
         (case construct w (form_b w t c info) of None \<Rightarrow> Val (form_b w t c info)
          | Some e2 \<Rightarrow>
             (case sub_attempt_c w t c info of None \<Rightarrow> Val (form_c w t c)
              | Some e3 \<Rightarrow> credential (this r))))
   \<and> form_c w t c =
       ClientCertificateCredential t c
         (FilePath (path_join (tmpdir w)
            (''cert-'' @ decimal (date_now w) @ ''-'' @ random_text w @ ''.pfx'')))
   \<and> (tmpdir w = tmpdir w' \<longrightarrow>
        (form_c w t c = form_c w' t c) =
          (date_now w = date_now w' \<and> random_text w = random_text w'))
   \<and> (certificate_prerequisite env
        \<and> getCertificateFromKeyVault env w (env_value env ''AZURE_KEY_VAULT_URI'')
            (env_value env ''AZURE_KEY_VAULT_CERTIFICATE_NAME'') r = (Inr info, r1)
        \<and> tryCreateCertificateCredential w (env_value env ''MICROSOFT_APP_TENANT_ID'')
            (env_value env ''MICROSOFT_APP_ID'') info r1 = (Inl e, r2)
      \<longrightarrow> attempt2 env w r = attempt3 env w (fallback ''ClientCertificate'' e r2)
        \<and> credentialAttempts (fallback ''ClientCertificate'' e r2) =
            credentialAttempts r @ [(''ClientCertificate'', e)]
        \<and> credential (this (fallback ''ClientCertificate'' e r2)) = Null
        \<and> (\<exists>e1 e2 e3. e = AllCertificateApproachesFailed
              [(''base64String'', e1), (''buffer'', e2), (''tempFile'', e3)]))"
proof -
  have outer: "attempt2 env w r = attempt3 env w (fallback ''ClientCertificate'' e r2)
        \<and> credentialAttempts (fallback ''ClientCertificate'' e r2) =
            credentialAttempts r @ [(''ClientCertificate'', e)]
        \<and> credential (this (fallback ''ClientCertificate'' e r2)) = Null
        \<and> (\<exists>e1 e2 e3. e = AllCertificateApproachesFailed
              [(''base64String'', e1), (''buffer'', e2), (''tempFile'', e3)])"
    if p: "certificate_prerequisite env"
      and g: "getCertificateFromKeyVault env w (env_value env ''AZURE_KEY_VAULT_URI'')
            (env_value env ''AZURE_KEY_VAULT_CERTIFICATE_NAME'') r = (Inr info, r1)"
      and y: "tryCreateCertificateCredential w (env_value env ''MICROSOFT_APP_TENANT_ID'')
            (env_value env ''MICROSOFT_APP_ID'') info r1 = (Inl e, r2)"
  proof -
    have "credentialAttempts r1 = credentialAttempts r"
      using getCertificate_attempts [of env w "env_value env ''AZURE_KEY_VAULT_URI''"
          "env_value env ''AZURE_KEY_VAULT_CERTIFICATE_NAME''" r] g by simp
    moreover have "credentialAttempts r2 = credentialAttempts r1"
      using tryCreate_attempts [of w "env_value env ''MICROSOFT_APP_TENANT_ID''"
          "env_value env ''MICROSOFT_APP_ID''" info r1] y by simp
    ultimately have log: "credentialAttempts (fallback ''ClientCertificate'' e r2) =
        credentialAttempts r @ [(''ClientCertificate'', e)]"
      by (simp add: fallback_def set_credential_def)
    have shape: "\<exists>e1 e2 e3. e = AllCertificateApproachesFailed
        [(''base64String'', e1), (''buffer'', e2), (''tempFile'', e3)]"
      using tryCreate_result [of w "env_value env ''MICROSOFT_APP_TENANT_ID''"
          "env_value env ''MICROSOFT_APP_ID''" info r1] y
      by (auto split: option.splits)
    show ?thesis
      using attempt2_all_throw [OF p g y] log shape
      by (simp add: fallback_def set_credential_def)
  qed
  have name: "form_c w t c =
       ClientCertificateCredential t c
         (FilePath (path_join (tmpdir w)
            (''cert-'' @ decimal (date_now w) @ ''-'' @ random_text w @ ''.pfx'')))"
    by (simp add: form_c_def temp_file_path_def temp_file_name_def)
  have unique: "tmpdir w = tmpdir w' \<longrightarrow>
        (form_c w t c = form_c w' t c) =
          (date_now w = date_now w' \<and> random_text w = random_text w')"
    using form_c_eq [of w w' t c] by blast
  show ?thesis
    using tryCreate_calls [of r w t c info] tryCreate_events [of r w t c info]
      tryCreate_result [of w t c info r] tryCreate_credential [of w t c info r]
      name unique outer
    by blast
qed

theorem certificate_sub_procedure_witness:
  "certificate_prerequisite certificate_env
   \<and> fst (getCertificateFromKeyVault certificate_env stubborn_world ''https://kv.example''
            ''bot'' (new_run fresh)) = Inr pkcs12
   \<and> constructed (new_events (new_run fresh)
        (snd (tryCreateCertificateCredential stubborn_world ''t'' ''c'' pkcs12 (new_run fresh)))) =
       [form_a ''t'' ''c'' pkcs12, form_b stubborn_world ''t'' ''c'' pkcs12,
        form_c stubborn_world ''t'' ''c'']
   \<and> new_events (new_run fresh)
        (snd (tryCreateCertificateCredential stubborn_world ''t'' ''c'' pkcs12 (new_run fresh))) =
       [New (ClientCertificateCredential ''t'' ''c'' (Base64String ''QUJD'')),
        New (ClientCertificateCredential ''t'' ''c'' (CertBuffer [65, 66, 67])),
        WriteFileSync ''/tmp/cert-1-a.pfx'' [65, 66, 67],
        New (ClientCertificateCredential ''t'' ''c'' (FilePath ''/tmp/cert-1-a.pfx'')),
        ExistsSync ''/tmp/cert-1-a.pfx'', UnlinkSync ''/tmp/cert-1-a.pfx'']
   \<and> tmpdir stubborn_world = tmpdir later_world
   \<and> form_c stubborn_world ''t'' ''c'' \<noteq> form_c later_world ''t'' ''c''
   \<and> fst (tryCreateCertificateCredential stubborn_world ''t'' ''c'' pkcs12 (new_run fresh)) =
       Inl (AllCertificateApproachesFailed
             [(''base64String'', Text ''bad certificate''), (''buffer'', Text ''bad certificate''),
              (''tempFile'', Text ''bad certificate'')])
   \<and> attempt2 certificate_env stubborn_world (new_run fresh) =
       attempt3 certificate_env stubborn_world
         (fallback ''ClientCertificate''
            (AllCertificateApproachesFailed
              [(''base64String'', Text ''bad certificate''), (''buffer'', Text ''bad certificate''),
               (''tempFile'', Text ''bad certificate'')])
            (snd (tryCreateCertificateCredential stubborn_world ''t'' ''c'' pkcs12
                    (snd (getCertificateFromKeyVault certificate_env stubborn_world
                            ''https://kv.example'' ''bot'' (new_run fresh))))))"
proof -
  let ?e = "AllCertificateApproachesFailed
              [(''base64String'', Text ''bad certificate''), (''buffer'', Text ''bad certificate''),
               (''tempFile'', Text ''bad certificate'')]"
  let ?r1 = "snd (getCertificateFromKeyVault certificate_env stubborn_world
                            ''https://kv.example'' ''bot'' (new_run fresh))"
  let ?r2 = "snd (tryCreateCertificateCredential stubborn_world ''t'' ''c'' pkcs12 ?r1)"
  have p: "certificate_prerequisite certificate_env"
    by (simp add: certificate_env_def env_defs certificate_prerequisite_def)
  have v: "env_value certificate_env ''AZURE_KEY_VAULT_URI'' = ''https://kv.example''"
    "env_value certificate_env ''AZURE_KEY_VAULT_CERTIFICATE_NAME'' = ''bot''"
    "env_value certificate_env ''MICROSOFT_APP_TENANT_ID'' = ''t''"
    "env_value certificate_env ''MICROSOFT_APP_ID'' = ''c''"
    by (simp_all add: certificate_env_def env_defs)
  have n: "temp_file_path stubborn_world = ''/tmp/cert-1-a.pfx''"
    by (rule temp_file_path_example) (simp_all add: stubborn_world_def calm_world_def)
  have c: "construct stubborn_world (form_a ''t'' ''c'' pkcs12) = Some (Text ''bad certificate'')"
    "construct stubborn_world (form_b stubborn_world ''t'' ''c'' pkcs12) = Some (Text ''bad certificate'')"
    "construct stubborn_world (form_c stubborn_world ''t'' ''c'') = Some (Text ''bad certificate'')"
    "sub_attempt_c stubborn_world ''t'' ''c'' pkcs12 = Some (Text ''bad certificate'')"
    "writeFileSync stubborn_world (temp_file_path stubborn_world)
       (fromBase64 stubborn_world (certificate pkcs12)) = Written"
    by (simp_all add: stubborn_world_def calm_world_def form_a_def form_b_def form_c_def
        sub_attempt_c_def)
  have f: "form_a ''t'' ''c'' pkcs12 =
      ClientCertificateCredential ''t'' ''c'' (Base64String ''QUJD'')"
    "form_b stubborn_world ''t'' ''c'' pkcs12 =
      ClientCertificateCredential ''t'' ''c'' (CertBuffer [65, 66, 67])"
    "form_c stubborn_world ''t'' ''c'' =
      ClientCertificateCredential ''t'' ''c'' (FilePath ''/tmp/cert-1-a.pfx'')"
    "fromBase64 stubborn_world (certificate pkcs12) = [65, 66, 67]"
    by (simp_all add: form_a_def form_b_def form_c_def n)
      (simp_all add: stubborn_world_def calm_world_def pkcs12_def)
  have g: "fst (getCertificateFromKeyVault certificate_env stubborn_world ''https://kv.example''
            ''bot'' (new_run fresh)) = Inr pkcs12"
    by (simp add: getCertificateFromKeyVault_def run_defs stubborn_world_def calm_world_def
        pkcs12_def env_defs certificate_env_def Let_def)
  then have g': "getCertificateFromKeyVault certificate_env stubborn_world
      (env_value certificate_env ''AZURE_KEY_VAULT_URI'')
      (env_value certificate_env ''AZURE_KEY_VAULT_CERTIFICATE_NAME'') (new_run fresh) =
      (Inr pkcs12, ?r1)"
    unfolding v by (simp add: prod_eq_iff)
  have y: "tryCreateCertificateCredential stubborn_world
      (env_value certificate_env ''MICROSOFT_APP_TENANT_ID'')
      (env_value certificate_env ''MICROSOFT_APP_ID'') pkcs12 ?r1 = (Inl ?e, ?r2)"
    unfolding v using tryCreate_result [of stubborn_world "''t''" "''c''" pkcs12 ?r1]
    by (simp add: prod_eq_iff c)
  have l: "tmpdir stubborn_world = tmpdir later_world"
    "date_now stubborn_world \<noteq> date_now later_world"
    by (simp_all add: later_world_def stubborn_world_def calm_world_def)
  note main = certificate_sub_procedure [where env = certificate_env and w = stubborn_world
      and r = "new_run fresh" and t = "''t''" and c = "''c''" and info = pkcs12
      and ?r1.0 = ?r1 and e = ?e and ?r2.0 = ?r2 and w' = later_world]
  from main p g' y have a: "attempt2 certificate_env stubborn_world (new_run fresh) =
       attempt3 certificate_env stubborn_world (fallback ''ClientCertificate'' ?e ?r2)"
    by blast
  have b: "constructed (new_events (new_run fresh)
        (snd (tryCreateCertificateCredential stubborn_world ''t'' ''c'' pkcs12 (new_run fresh)))) =
       [form_a ''t'' ''c'' pkcs12, form_b stubborn_world ''t'' ''c'' pkcs12,
        form_c stubborn_world ''t'' ''c'']"
    using main [THEN conjunct1] by (simp add: c)
  have ev: "new_events (new_run fresh)
        (snd (tryCreateCertificateCredential stubborn_world ''t'' ''c'' pkcs12 (new_run fresh))) =
       [New (ClientCertificateCredential ''t'' ''c'' (Base64String ''QUJD'')),
        New (ClientCertificateCredential ''t'' ''c'' (CertBuffer [65, 66, 67])),
        WriteFileSync ''/tmp/cert-1-a.pfx'' [65, 66, 67],
        New (ClientCertificateCredential ''t'' ''c'' (FilePath ''/tmp/cert-1-a.pfx'')),
        ExistsSync ''/tmp/cert-1-a.pfx'', UnlinkSync ''/tmp/cert-1-a.pfx'']"
    using main [THEN conjunct2, THEN conjunct1] by (simp add: c) (simp add: f n)
  have d: "fst (tryCreateCertificateCredential stubborn_world ''t'' ''c'' pkcs12 (new_run fresh)) =
       Inl ?e"
    using main [THEN conjunct2, THEN conjunct2, THEN conjunct1] by (simp add: c)
  from main l have u: "form_c stubborn_world ''t'' ''c'' \<noteq> form_c later_world ''t'' ''c''"
    by blast
  show ?thesis using p g a b ev d l(1) u by simp
qed

subsection \<open>The temporary certificate file\<close>

text \<open>
  C4, as stated, fails: when \<open>unlinkSync\<close> throws, the error is caught and logged
  (lines 250-255 and 266-271) and the temporary file stays on disk after the sub-procedure
  has returned.
\<close>

theorem temporary_file_left_behind:
  "fst (tryCreateCertificateCredential sticky_world ''t'' ''c'' pkcs12 (new_run fresh)) = Inr ()
   \<and> temp_file_path sticky_world
       \<in> files (snd (tryCreateCertificateCredential sticky_world ''t'' ''c'' pkcs12 (new_run fresh)))
   \<and> temp_file_path sticky_world \<notin> files (new_run fresh)"
  by (simp add: resolve_defs run_defs sticky_world_def calm_world_def pkcs12_def new_run_def
      Let_def)

text \<open>
  C4, amended. Whenever the temp-file sub-approach runs, the file is gone when it
  returns or throws provided that \<open>unlinkSync\<close> does not throw; once the file has been
  written, the removal is attempted after the constructor call on the success path and on
  the constructor-throws path alike; and the whole sub-procedure leaves no temporary file
  under the same proviso, the disk being otherwise untouched.
\<close>

theorem temporary_file_cleanup:
  "(unlinkSync w (temp_file_path w) = None
      \<longrightarrow> temp_file_path w \<notin> files (snd (approach3 w t c info errs r)))
   \<and> (writeFileSync w (temp_file_path w) (fromBase64 w (certificate info)) = Written
      \<longrightarrow> new_events r (snd (approach3 w t c info errs r)) =
           (case construct w (form_c w t c) of
              None \<Rightarrow> [WriteFileSync (temp_file_path w) (fromBase64 w (certificate info)),
                       New (form_c w t c), UnlinkSync (temp_file_path w)]
            | Some e \<Rightarrow> [WriteFileSync (temp_file_path w) (fromBase64 w (certificate info)),
                       New (form_c w t c), ExistsSync (temp_file_path w),
                       UnlinkSync (temp_file_path w)]))
   \<and> (unlinkSync w (temp_file_path w) = None
      \<longrightarrow> files (snd (tryCreateCertificateCredential w t c info r)) =
           (if construct w (form_a t c info) = None \<or> construct w (form_b w t c info) = None
            then files r else files r - {temp_file_path w}))"
proof (intro conjI impI)
  assume "unlinkSync w (temp_file_path w) = None"
  then show "temp_file_path w \<notin> files (snd (approach3 w t c info errs r))"
    by (simp add: approach3_def write_file_def try_unlink_def cleanup_on_error_def
        temp_file_path_example run_defs Let_def split: option.splits write_outcome.splits)
next
  assume "writeFileSync w (temp_file_path w) (fromBase64 w (certificate info)) = Written"
  then show "new_events r (snd (approach3 w t c info errs r)) =
           (case construct w (form_c w t c) of
              None \<Rightarrow> [WriteFileSync (temp_file_path w) (fromBase64 w (certificate info)),
                       New (form_c w t c), UnlinkSync (temp_file_path w)]
            | Some e \<Rightarrow> [WriteFileSync (temp_file_path w) (fromBase64 w (certificate info)),
                       New (form_c w t c), ExistsSync (temp_file_path w),
                       UnlinkSync (temp_file_path w)])"
    by (simp add: approach3_def write_file_def try_unlink_def cleanup_on_error_def
        form_c_def new_events_def temp_file_path_example run_defs Let_def split: option.splits)
next
  assume "unlinkSync w (temp_file_path w) = None"
  then show "files (snd (tryCreateCertificateCredential w t c info r)) =
           (if construct w (form_a t c info) = None \<or> construct w (form_b w t c info) = None
            then files r else files r - {temp_file_path w})"
    by (auto simp add: resolve_defs run_defs form_a_def form_b_def Let_def
        split: option.splits write_outcome.splits)
qed

theorem temporary_file_cleanup_witness:
  "unlinkSync stubborn_world (temp_file_path stubborn_world) = None
   \<and> writeFileSync stubborn_world (temp_file_path stubborn_world)
        (fromBase64 stubborn_world (certificate pkcs12)) = Written
   \<and> temp_file_path stubborn_world
        \<notin> files (snd (approach3 stubborn_world ''t'' ''c'' pkcs12 [] (new_run fresh)))
   \<and> new_events (new_run fresh) (snd (approach3 stubborn_world ''t'' ''c'' pkcs12 [] (new_run fresh))) =
        [WriteFileSync ''/tmp/cert-1-a.pfx'' [65, 66, 67],
         New (ClientCertificateCredential ''t'' ''c'' (FilePath ''/tmp/cert-1-a.pfx'')),
         ExistsSync ''/tmp/cert-1-a.pfx'', UnlinkSync ''/tmp/cert-1-a.pfx'']
   \<and> files (snd (tryCreateCertificateCredential stubborn_world ''t'' ''c'' pkcs12 (new_run fresh))) = {}"
proof -
  have u: "unlinkSync stubborn_world (temp_file_path stubborn_world) = None"
    and wr: "writeFileSync stubborn_world (temp_file_path stubborn_world)
        (fromBase64 stubborn_world (certificate pkcs12)) = Written"
    and c: "construct stubborn_world (form_a ''t'' ''c'' pkcs12) = Some (Text ''bad certificate'')"
      "construct stubborn_world (form_b stubborn_world ''t'' ''c'' pkcs12) = Some (Text ''bad certificate'')"
      "construct stubborn_world (form_c stubborn_world ''t'' ''c'') = Some (Text ''bad certificate'')"
    and p: "temp_file_path stubborn_world = ''/tmp/cert-1-a.pfx''"
      "fromBase64 stubborn_world (certificate pkcs12) = [65, 66, 67]"
      "form_c stubborn_world ''t'' ''c'' = ClientCertificateCredential ''t'' ''c'' (FilePath ''/tmp/cert-1-a.pfx'')"
    by (simp_all add: stubborn_world_def calm_world_def form_a_def form_b_def form_c_def
        temp_file_path_example pkcs12_def)
  have f: "files (new_run fresh) = {}"
    by (simp add: new_run_def)
  have "temp_file_path stubborn_world
        \<notin> files (snd (approach3 stubborn_world ''t'' ''c'' pkcs12 [] (new_run fresh)))
   \<and> new_events (new_run fresh) (snd (approach3 stubborn_world ''t'' ''c'' pkcs12 [] (new_run fresh))) =
        [WriteFileSync (temp_file_path stubborn_world) (fromBase64 stubborn_world (certificate pkcs12)),
         New (form_c stubborn_world ''t'' ''c''),
         ExistsSync (temp_file_path stubborn_world), UnlinkSync (temp_file_path stubborn_world)]
   \<and> files (snd (tryCreateCertificateCredential stubborn_world ''t'' ''c'' pkcs12 (new_run fresh))) = {}"
    using temporary_file_cleanup [of stubborn_world "''t''" "''c''" pkcs12 "[]" "new_run fresh"]
      u wr
    by (simp add: c f)
  then show ?thesis
    using u wr by (simp add: p)
qed

subsection \<open>The code against the loop of the specification\<close>

lemma attempt4_agree:
  "agree (attempt4 w r) (resolution_chain env w [DefaultAzure] r)"
  by (simp add: agree_def attempt4_def attempt_strategy_def construct_plain_def
      construct_and_test_def testCredential_def run_defs Let_def
      split: sum.splits option.splits prod.splits js.splits)

lemma attempt3_agree:
  "agree (attempt3 env w r) (resolution_chain env w [ClientSecret, DefaultAzure] r)"
proof (cases "prerequisite env ClientSecret")
  case False
  then show ?thesis
    using attempt4_agree [of w r env] by (auto simp add: attempt3_def)
next
  case True
  let ?c = "ClientSecretCredential (env_value env ''MICROSOFT_APP_TENANT_ID'')
          (env_value env ''MICROSOFT_APP_ID'') (env_value env ''MICROSOFT_APP_PASSWORD'')"
  have same: "construct_and_test w ?c r = attempt_strategy env w ClientSecret r"
    by (simp add: construct_and_test_def attempt_strategy_def construct_plain_def and_then_def
        call_def split: sum.splits)
  show ?thesis
  proof (cases "attempt_strategy env w ClientSecret r")
    case (Pair res r')
    show ?thesis
    proof (cases res)
      case (Inl error)
      with Pair True same show ?thesis
        using attempt4_agree [of w "fallback ''ClientSecret'' error r'" env]
        by (simp add: attempt3_def)
    next
      case (Inr ok)
      with Pair True same show ?thesis
        by (simp add: attempt3_def agree_def)
    qed
  qed
qed


lemma attempt2_agree:
  "agree (attempt2 env w r)
     (resolution_chain env w [ClientCertificate, ClientSecret, DefaultAzure] r)"
proof (cases "prerequisite env ClientCertificate")
  case False
  then show ?thesis
    using attempt3_agree [of env w r]
    by (auto simp add: attempt2_def certificate_prerequisite_def)
next
  case True
  have same: "and_then (getCertificateFromKeyVault env w (env_value env ''AZURE_KEY_VAULT_URI'')
                          (env_value env ''AZURE_KEY_VAULT_CERTIFICATE_NAME'') r) (\<lambda>certificateInfo r.
              and_then (tryCreateCertificateCredential w (env_value env ''MICROSOFT_APP_TENANT_ID'')
                          (env_value env ''MICROSOFT_APP_ID'') certificateInfo r) (\<lambda>_ r.
                testCredential w r)) = attempt_strategy env w ClientCertificate r"
    by (simp add: attempt_strategy_def and_then_def split: sum.splits prod.splits)
  show ?thesis
  proof (cases "attempt_strategy env w ClientCertificate r")
    case (Pair res r')
    show ?thesis
    proof (cases res)
      case (Inl error)
      with Pair True same show ?thesis
        using attempt3_agree [of env w "fallback ''ClientCertificate'' error r'"]
        by (simp add: attempt2_def certificate_prerequisite_def)
    next
      case (Inr ok)
      with Pair True same show ?thesis
        by (simp add: attempt2_def agree_def certificate_prerequisite_def)
    qed
  qed
qed

lemma attempt1_agree:
  "agree (attempt1 env w r) (resolution_chain env w strategy_order r)"
proof (cases "prerequisite env ManagedIdentity")
  case False
  then show ?thesis
    using attempt2_agree [of env w r]
    by (auto simp add: attempt1_def strategy_order_def)
next
  case True
  have same: "construct_and_test w ManagedIdentityCredential r =
      attempt_strategy env w ManagedIdentity r"
    by (simp add: construct_and_test_def attempt_strategy_def construct_plain_def and_then_def
        call_def split: sum.splits)
  show ?thesis
  proof (cases "attempt_strategy env w ManagedIdentity r")
    case (Pair res r')
    show ?thesis
    proof (cases res)
      case (Inl error)
      with Pair True same show ?thesis
        using attempt2_agree [of env w "fallback ''ManagedIdentity'' error r'"]
        by (simp add: attempt1_def strategy_order_def)
    next
      case (Inr ok)
      with Pair True same show ?thesis
        by (simp add: attempt1_def agree_def strategy_order_def)
    qed
  qed
qed

lemma setupCredentials_agree:
  "agree (setupCredentials env w r)
     (resolution_chain env w strategy_order (r\<lparr>credentialAttempts := []\<rparr>))"
  by (simp add: setupCredentials_def attempt1_agree)

subsection \<open>What a resolution pass adds to the trace\<close>

lemma testCredential_run:
  "this (snd (testCredential w r)) = this r"
  "files (snd (testCredential w r)) = files r"
  "credentialAttempts (snd (testCredential w r)) = credentialAttempts r"
  "trace (snd (testCredential w r)) =
     trace r @ (case credential (this r) of Val c \<Rightarrow> [(GetToken c default_scope, this r)]
                | _ \<Rightarrow> [])"
  by (simp_all add: testCredential_def run_defs split: js.splits sum.splits)

lemma testCredential_passed:
  assumes "fst (testCredential w r) = Inr ok"
  shows "committed w (snd (testCredential w r))"
  using assms
  by (auto simp add: testCredential_def run_defs committed_def passes_liveness_def
      split: js.splits sum.splits if_splits)

lemma getCertificate_run:
  "this (snd (getCertificateFromKeyVault env w u n r)) = this r"
  "\<exists>new. trace (snd (getCertificateFromKeyVault env w u n r)) = trace r @ new
         \<and> list_all (\<lambda>x. snd x = this r \<and> (\<forall>c sc. fst x \<noteq> GetToken c sc)) new"
  by (simp_all add: getCertificateFromKeyVault_def run_defs Let_def
      split: option.splits sum.splits)

lemma tryCreate_run:
  "same_but_credential (this (snd (tryCreateCertificateCredential w t c info r))) (this r)"
  "\<exists>new. trace (snd (tryCreateCertificateCredential w t c info r)) = trace r @ new
         \<and> list_all (\<lambda>x. \<not> is_suspend_point (fst x)
                             \<and> same_but_credential (snd x) (this r)) new"
  by (simp_all add: resolve_defs run_defs same_but_credential_def Let_def
      split: option.splits write_outcome.splits)


lemma construct_plain_run:
  "same_but_credential (this (snd (construct_plain w c r))) (this r)"
  "trace (snd (construct_plain w c r)) = trace r @ [(New c, this r)]"
  "credentialAttempts (snd (construct_plain w c r)) = credentialAttempts r"
  "fst (construct_plain w c r) = Inr u \<Longrightarrow> credential (this (snd (construct_plain w c r))) = Val c"
  by (simp_all add: construct_plain_def run_defs same_but_credential_def split: option.splits)

lemma construct_credential_run:
  assumes "same_but_credential (this r) s0"
    and "credential (this r) = credential s0 \<or> credential (this r) = Null"
  shows "same_but_credential (this (snd (construct_credential env w st r))) s0"
    and "\<exists>new. trace (snd (construct_credential env w st r)) = trace r @ new
           \<and> list_all (snapshot_ok s0) new"
    and "credentialAttempts (snd (construct_credential env w st r)) = credentialAttempts r"
proof -
  have plain: "same_but_credential (this (snd (construct_plain w c r))) s0
      \<and> (\<exists>new. trace (snd (construct_plain w c r)) = trace r @ new
           \<and> list_all (snapshot_ok s0) new)
      \<and> credentialAttempts (snd (construct_plain w c r)) = credentialAttempts r" for c
    using assms construct_plain_run(1-3) [of w c r]
    by (simp add: same_but_credential_def snapshot_ok_def)
  let ?g = "getCertificateFromKeyVault env w (env_value env ''AZURE_KEY_VAULT_URI'')
                 (env_value env ''AZURE_KEY_VAULT_CERTIFICATE_NAME'') r"
  have cert: "same_but_credential (this (snd (construct_credential env w ClientCertificate r))) s0
      \<and> (\<exists>new. trace (snd (construct_credential env w ClientCertificate r)) = trace r @ new
           \<and> list_all (snapshot_ok s0) new)
      \<and> credentialAttempts (snd (construct_credential env w ClientCertificate r)) =
          credentialAttempts r"
  proof -
    obtain new1 where n1: "trace (snd ?g) = trace r @ new1"
      "list_all (\<lambda>x. snd x = this r \<and> (\<forall>c sc. fst x \<noteq> GetToken c sc)) new1"
      using getCertificate_run(2) by blast
    have ok1: "list_all (snapshot_ok s0) new1"
    proof -
      have "snapshot_ok s0 x" if "snd x = this r" "\<forall>c sc. fst x \<noteq> GetToken c sc" for x
        using that assms by (cases x, cases "fst x") (auto simp add: snapshot_ok_def)
      with n1(2) show ?thesis by (auto simp add: list_all_iff)
    qed
    have t1: "this (snd ?g) = this r"
      by (rule getCertificate_run(1))
    have a1: "credentialAttempts (snd ?g) = credentialAttempts r"
      by (rule getCertificate_attempts)
    show ?thesis
    proof (cases ?g)
      case (Pair res r1)
      show ?thesis
      proof (cases res)
        case (Inl e)
        with Pair n1 ok1 t1 a1 assms(1) show ?thesis
          by (simp add: and_then_def)
      next
        case (Inr info)
        let ?y = "tryCreateCertificateCredential w (env_value env ''MICROSOFT_APP_TENANT_ID'')
           (env_value env ''MICROSOFT_APP_ID'') info r1"
        obtain new2 where n2: "trace (snd ?y) = trace r1 @ new2"
          "list_all (\<lambda>x. \<not> is_suspend_point (fst x)
                             \<and> same_but_credential (snd x) (this r1)) new2"
          using tryCreate_run(2) by blast
        have r1: "this r1 = this r" "trace r1 = trace r @ new1"
          "credentialAttempts r1 = credentialAttempts r"
          using Pair t1 n1(1) a1 by simp_all
        have ok2: "list_all (snapshot_ok s0) new2"
        proof -
          have "snapshot_ok s0 x"
            if "\<not> is_suspend_point (fst x)" "same_but_credential (snd x) (this r1)" for x
            using that assms(1) r1(1)
            by (cases x, cases "fst x") (auto simp add: snapshot_ok_def same_but_credential_def)
          with n2(2) show ?thesis by (auto simp add: list_all_iff)
        qed
        have "same_but_credential (this (snd ?y)) s0"
          using tryCreate_run(1) [of w "env_value env ''MICROSOFT_APP_TENANT_ID''"
              "env_value env ''MICROSOFT_APP_ID''" info r1] assms(1) r1(1)
          by (simp add: same_but_credential_def)
        moreover have "trace (snd ?y) = trace r @ (new1 @ new2)"
          using n2(1) r1(2) by simp
        moreover have "list_all (snapshot_ok s0) (new1 @ new2)"
          using ok1 ok2 by simp
        moreover have "credentialAttempts (snd ?y) = credentialAttempts r"
          using tryCreate_attempts [of w "env_value env ''MICROSOFT_APP_TENANT_ID''"
              "env_value env ''MICROSOFT_APP_ID''" info r1] r1(3) by simp
        ultimately show ?thesis
          using Pair Inr by (simp add: and_then_def)
      qed
    qed
  qed
  show "same_but_credential (this (snd (construct_credential env w st r))) s0"
    using plain cert by (cases st) simp_all
  show "\<exists>new. trace (snd (construct_credential env w st r)) = trace r @ new
           \<and> list_all (snapshot_ok s0) new"
    using plain cert by (cases st) simp_all
  show "credentialAttempts (snd (construct_credential env w st r)) = credentialAttempts r"
    using plain cert by (cases st) simp_all
qed

lemma attempt_strategy_run:
  assumes "same_but_credential (this r) s0"
    and "credential (this r) = credential s0 \<or> credential (this r) = Null"
  shows "same_but_credential (this (snd (attempt_strategy env w st r))) s0"
    and "\<exists>new. trace (snd (attempt_strategy env w st r)) = trace r @ new
           \<and> list_all (snapshot_ok s0) new"
    and "credentialAttempts (snd (attempt_strategy env w st r)) = credentialAttempts r"
    and "fst (attempt_strategy env w st r) = Inr ok
           \<Longrightarrow> committed w (snd (attempt_strategy env w st r))"
proof -
  let ?k = "construct_credential env w st r"
  obtain new1 where n1: "trace (snd ?k) = trace r @ new1" "list_all (snapshot_ok s0) new1"
    using construct_credential_run(2) [OF assms] by blast
  have s1: "same_but_credential (this (snd ?k)) s0"
    by (rule construct_credential_run(1) [OF assms])
  have a1: "credentialAttempts (snd ?k) = credentialAttempts r"
    by (rule construct_credential_run(3) [OF assms])
  have all: "same_but_credential (this (snd (attempt_strategy env w st r))) s0
    \<and> (\<exists>new. trace (snd (attempt_strategy env w st r)) = trace r @ new
           \<and> list_all (snapshot_ok s0) new)
    \<and> credentialAttempts (snd (attempt_strategy env w st r)) = credentialAttempts r
    \<and> (fst (attempt_strategy env w st r) = Inr ok
           \<longrightarrow> committed w (snd (attempt_strategy env w st r)))"
  proof (cases ?k)
    case (Pair res r1)
    show ?thesis
    proof (cases res)
      case (Inl e)
      with Pair n1 s1 a1 show ?thesis
        by (simp add: attempt_strategy_def and_then_def)
    next
      case (Inr u)
      have eq: "attempt_strategy env w st r = testCredential w r1"
        using Pair Inr by (simp add: attempt_strategy_def and_then_def)
      have r1: "trace r1 = trace r @ new1" "same_but_credential (this r1) s0"
        "credentialAttempts r1 = credentialAttempts r"
        using Pair n1(1) s1 a1 by simp_all
      have "list_all (snapshot_ok s0)
          (case credential (this r1) of Val c \<Rightarrow> [(GetToken c default_scope, this r1)]
                | _ \<Rightarrow> [])"
        using r1(2) by (simp add: snapshot_ok_def split: js.splits)
      then have "\<exists>new. trace (snd (testCredential w r1)) = trace r @ new
           \<and> list_all (snapshot_ok s0) new"
        using testCredential_run(4) [of w r1] r1(1) n1(2) by simp
      then show ?thesis
        unfolding eq using testCredential_run(1,3) [of w r1] r1(2,3)
          testCredential_passed [of w r1 ok]
        by simp
    qed
  qed
  from all show "same_but_credential (this (snd (attempt_strategy env w st r))) s0"
    by simp
  from all show "\<exists>new. trace (snd (attempt_strategy env w st r)) = trace r @ new
           \<and> list_all (snapshot_ok s0) new"
    by simp
  from all show "credentialAttempts (snd (attempt_strategy env w st r)) = credentialAttempts r"
    by simp
  from all show "fst (attempt_strategy env w st r) = Inr ok
           \<Longrightarrow> committed w (snd (attempt_strategy env w st r))"
    by simp
qed

lemma fallback_run:
  "trace (fallback n e r) = trace r"
  "files (fallback n e r) = files r"
  "credential (this (fallback n e r)) = Null"
  "credentialAttempts (fallback n e r) = credentialAttempts r @ [(n, e)]"
  "same_but_credential (this r) s0 \<Longrightarrow> same_but_credential (this (fallback n e r)) s0"
  by (simp_all add: fallback_def set_credential_def same_but_credential_def)

lemma chain_run:
  assumes "same_but_credential (this r) s0"
    and "credential (this r) = credential s0 \<or> credential (this r) = Null"
  shows "(\<exists>new. trace (snd (resolution_chain env w sts r)) = trace r @ new
             \<and> list_all (snapshot_ok s0) new)
       \<and> same_but_credential (this (snd (resolution_chain env w sts r))) s0
       \<and> (fst (resolution_chain env w sts r)
            \<longrightarrow> committed w (snd (resolution_chain env w sts r)))"
  using assms
proof (induction sts arbitrary: r)
  case Nil
  then show ?case by simp
next
  case (Cons st sts)
  show ?case
  proof (cases "prerequisite env st")
    case False
    then show ?thesis using Cons.IH [OF Cons.prems] by simp
  next
    case True
    obtain res r1 where a: "attempt_strategy env w st r = (res, r1)"
      by (cases "attempt_strategy env w st r")
    obtain new1 where n1: "trace r1 = trace r @ new1" "list_all (snapshot_ok s0) new1"
      using attempt_strategy_run(2) [OF Cons.prems, of env w st] a by auto
    have s1: "same_but_credential (this r1) s0"
      using attempt_strategy_run(1) [OF Cons.prems, of env w st] a by simp
    show ?thesis
    proof (cases res)
      case (Inr ok)
      then show ?thesis
        using True a n1 s1 attempt_strategy_run(4) [OF Cons.prems, of env w st ok]
        by simp
    next
      case (Inl e)
      let ?r2 = "fallback (strategy_name st) e r1"
      have "(\<exists>new. trace (snd (resolution_chain env w sts ?r2)) = trace ?r2 @ new
             \<and> list_all (snapshot_ok s0) new)
       \<and> same_but_credential (this (snd (resolution_chain env w sts ?r2))) s0
       \<and> (fst (resolution_chain env w sts ?r2)
            \<longrightarrow> committed w (snd (resolution_chain env w sts ?r2)))"
        by (rule Cons.IH) (simp_all add: fallback_run s1)
      then obtain new2 where n2: "trace (snd (resolution_chain env w sts ?r2)) = trace ?r2 @ new2"
        "list_all (snapshot_ok s0) new2"
        and rest: "same_but_credential (this (snd (resolution_chain env w sts ?r2))) s0"
        "fst (resolution_chain env w sts ?r2)
            \<longrightarrow> committed w (snd (resolution_chain env w sts ?r2))"
        by blast
      have "trace (snd (resolution_chain env w sts ?r2)) = trace r @ (new1 @ new2)"
        using n2(1) n1(1) by (simp add: fallback_run)
      moreover have "list_all (snapshot_ok s0) (new1 @ new2)"
        using n1(2) n2(2) by simp
      ultimately have "\<exists>new. trace (snd (resolution_chain env w sts ?r2)) = trace r @ new
             \<and> list_all (snapshot_ok s0) new"
        by blast
      then show ?thesis
        using True a Inl rest by simp
    qed
  qed
qed

lemma chain_log:
  "prefix (map fst (credentialAttempts (snd (resolution_chain env w sts r))))
     (map fst (credentialAttempts r) @ map strategy_name (filter (prerequisite env) sts))
   \<and> (\<not> fst (resolution_chain env w sts r) \<longrightarrow>
        map fst (credentialAttempts (snd (resolution_chain env w sts r))) =
        map fst (credentialAttempts r) @ map strategy_name (filter (prerequisite env) sts))"
proof (induction sts arbitrary: r)
  case Nil
  then show ?case by simp
next
  case (Cons st sts)
  show ?case
  proof (cases "prerequisite env st")
    case False
    then show ?thesis using Cons.IH [of r] by simp
  next
    case True
    obtain res r1 where a: "attempt_strategy env w st r = (res, r1)"
      by (cases "attempt_strategy env w st r")
    have log: "credentialAttempts r1 = credentialAttempts r"
      using attempt_strategy_run(3) [of r "this r" env w st] a
      by (simp add: same_but_credential_def)
    show ?thesis
    proof (cases res)
      case (Inr ok)
      then show ?thesis using True a log by simp
    next
      case (Inl e)
      then show ?thesis
        using True a log Cons.IH [of "fallback (strategy_name st) e r1"]
        by (simp add: fallback_run)
    qed
  qed
qed

subsection \<open>The order of the strategies\<close>


lemma committed_cong:
  "this r1 = this r2 \<Longrightarrow> trace r1 = trace r2 \<Longrightarrow> committed w r1 = committed w r2"
  by (simp add: committed_def split: js.splits)

lemma setupCredentials_run:
  "(\<exists>new. trace (snd (setupCredentials env w r)) = trace r @ new
         \<and> list_all (snapshot_ok (this r)) new)
   \<and> (fst (setupCredentials env w r) = Inr () \<longrightarrow> committed w (snd (setupCredentials env w r)))
   \<and> prefix (map fst (credentialAttempts (snd (setupCredentials env w r))))
        (map strategy_name (filter (prerequisite env) strategy_order))
   \<and> (fst (setupCredentials env w r) \<noteq> Inr () \<longrightarrow>
        map fst (credentialAttempts (snd (setupCredentials env w r))) =
        map strategy_name (filter (prerequisite env) strategy_order))"
proof -
  let ?r0 = "r\<lparr>credentialAttempts := []\<rparr>"
  let ?spec = "resolution_chain env w strategy_order ?r0"
  let ?code = "setupCredentials env w r"
  have ag: "agree ?code ?spec"
    by (rule setupCredentials_agree)
  have run: "(\<exists>new. trace (snd ?spec) = trace ?r0 @ new \<and> list_all (snapshot_ok (this r)) new)
       \<and> same_but_credential (this (snd ?spec)) (this r)
       \<and> (fst ?spec \<longrightarrow> committed w (snd ?spec))"
    by (rule chain_run) (simp_all add: same_but_credential_def)
  have log: "prefix (map fst (credentialAttempts (snd ?spec)))
     (map fst (credentialAttempts ?r0) @ map strategy_name (filter (prerequisite env) strategy_order))
   \<and> (\<not> fst ?spec \<longrightarrow>
        map fst (credentialAttempts (snd ?spec)) =
        map fst (credentialAttempts ?r0) @ map strategy_name (filter (prerequisite env) strategy_order))"
    by (rule chain_log)
  have c: "committed w (snd ?code)" if "fst ?code = Inr ()"
  proof -
    from that ag have "fst ?spec" "this (snd ?code) = this (snd ?spec)"
      "trace (snd ?code) = trace (snd ?spec)"
      by (simp_all add: agree_def)
    with run committed_cong [of "snd ?code" "snd ?spec" w] show ?thesis by blast
  qed
  from ag have t: "trace (snd ?code) = trace (snd ?spec)"
    and l: "credentialAttempts (snd ?code) = credentialAttempts (snd ?spec)"
    and f: "(fst ?code = Inr ()) = fst ?spec"
    by (simp_all add: agree_def)
  show ?thesis
    using run log c unfolding t l f by simp
qed




subsection \<open>Failure of every strategy\<close>

lemma chain_log_errors:
  assumes "x \<in> set (credentialAttempts (snd (resolution_chain env w sts r)))"
  shows "x \<in> set (credentialAttempts r)
       \<or> (\<exists>st r1. st \<in> set sts \<and> prerequisite env st \<and> fst x = strategy_name st
             \<and> fst (attempt_strategy env w st r1) = Inl (snd x))"
  using assms
proof (induction sts arbitrary: r)
  case Nil
  then show ?case by simp
next
  case (Cons st sts)
  show ?case
  proof (cases "prerequisite env st")
    case False
    then show ?thesis using Cons.IH [of r] Cons.prems by auto
  next
    case True
    obtain res r1 where a: "attempt_strategy env w st r = (res, r1)"
      by (cases "attempt_strategy env w st r")
    have log: "credentialAttempts r1 = credentialAttempts r"
      using attempt_strategy_run(3) [of r "this r" env w st] a
      by (simp add: same_but_credential_def)
    show ?thesis
    proof (cases res)
      case (Inr ok)
      then show ?thesis using True a log Cons.prems by simp
    next
      case (Inl e)
      let ?r2 = "fallback (strategy_name st) e r1"
      from Cons.prems True a Inl
      have "x \<in> set (credentialAttempts (snd (resolution_chain env w sts ?r2)))"
        by simp
      from Cons.IH [OF this]
      consider "x \<in> set (credentialAttempts r)" | "x = (strategy_name st, e)"
        | "\<exists>st r1. st \<in> set sts \<and> prerequisite env st \<and> fst x = strategy_name st
             \<and> fst (attempt_strategy env w st r1) = Inl (snd x)"
        by (auto simp add: fallback_run log)
      then show ?thesis
      proof cases
        case 1
        then show ?thesis by simp
      next
        case 2
        have "fst (attempt_strategy env w st r) = Inl (snd x)"
          using a Inl 2 by simp
        with True 2 show ?thesis by auto
      next
        case 3
        then show ?thesis by auto
      qed
    qed
  qed
qed

lemma setupCredentials_failed:
  assumes "fst (setupCredentials env w r) \<noteq> Inr ()"
  shows "fst (setupCredentials env w r) =
           Inl (AllAuthenticationMethodsFailed
                  (credentialAttempts (snd (setupCredentials env w r))))"
    and "map fst (credentialAttempts (snd (setupCredentials env w r))) =
           map strategy_name (filter (prerequisite env) strategy_order)"
    and "\<forall>x \<in> set (credentialAttempts (snd (setupCredentials env w r))).
           \<exists>st r1. prerequisite env st \<and> fst x = strategy_name st
             \<and> fst (attempt_strategy env w st r1) = Inl (snd x)"
proof -
  let ?spec = "resolution_chain env w strategy_order (r\<lparr>credentialAttempts := []\<rparr>)"
  have ag: "agree (setupCredentials env w r) ?spec"
    by (rule setupCredentials_agree)
  with assms show "fst (setupCredentials env w r) =
           Inl (AllAuthenticationMethodsFailed
                  (credentialAttempts (snd (setupCredentials env w r))))"
    by (simp add: agree_def split: if_splits)
  from assms show "map fst (credentialAttempts (snd (setupCredentials env w r))) =
           map strategy_name (filter (prerequisite env) strategy_order)"
    using setupCredentials_run [of env w r] by simp
  from ag have l: "credentialAttempts (snd (setupCredentials env w r)) =
      credentialAttempts (snd ?spec)"
    by (simp add: agree_def)
  show "\<forall>x \<in> set (credentialAttempts (snd (setupCredentials env w r))).
           \<exists>st r1. prerequisite env st \<and> fst x = strategy_name st
             \<and> fst (attempt_strategy env w st r1) = Inl (snd x)"
    unfolding l using chain_log_errors [of _ env w strategy_order "r\<lparr>credentialAttempts := []\<rparr>"]
    by fastforce
qed

lemma initializeAsync_fulfilled: "fst (initializeAsync env w r) = Inr ()"
  by (simp add: initializeAsync_def split: prod.splits sum.splits)

lemma initializeAsync_failed:
  assumes "fst (setupCredentials env w r) = Inl e"
  shows "this (snd (initializeAsync env w r)) =
           (this (snd (setupCredentials env w r)))
             \<lparr>initializationError := Val e, isInitialized := Val False\<rparr>"
    and "credentialAttempts (snd (initializeAsync env w r)) =
           credentialAttempts (snd (setupCredentials env w r))"
    and "trace (snd (initializeAsync env w r)) = trace (snd (setupCredentials env w r))"
proof -
  obtain r1 where s: "setupCredentials env w r = (Inl e, r1)"
    using assms by (cases "setupCredentials env w r") simp
  show "this (snd (initializeAsync env w r)) =
           (this (snd (setupCredentials env w r)))
             \<lparr>initializationError := Val e, isInitialized := Val False\<rparr>"
    by (simp add: initializeAsync_def initialize_def and_then_def s)
  show "credentialAttempts (snd (initializeAsync env w r)) =
           credentialAttempts (snd (setupCredentials env w r))"
    by (simp add: initializeAsync_def initialize_def and_then_def s)
  show "trace (snd (initializeAsync env w r)) = trace (snd (setupCredentials env w r))"
    by (simp add: initializeAsync_def initialize_def and_then_def s)
qed

lemma constructor_promise: "fst (constructor env w disk) \<noteq> Inr (Some (Inl e))"
proof (cases "new_Logger env w (blank disk)")
  case (Pair a r)
  show ?thesis
  proof (cases a)
    case (Inl x)
    then show ?thesis
      using Pair by (simp add: constructor_def)
  next
    case (Inr u)
    obtain p r' where i: "initializeAsync env w (r\<lparr>this := fresh\<rparr>) = (p, r')"
      by (cases "initializeAsync env w (r\<lparr>this := fresh\<rparr>)")
    have "p = Inr ()"
      using initializeAsync_fulfilled [of env w "r\<lparr>this := fresh\<rparr>"] i by simp
    then show ?thesis
      using Pair Inr i by (simp add: constructor_def)
  qed
qed

text \<open>
  C2. The constructor throws only what the creation of the logger throws, and then no
  strategy has been attempted; the promise of \<open>initializeAsync\<close> that it drops is never
  rejected. Outside the test environment and with the logger created, when
  \<open>setupCredentials\<close> does not succeed the constructor returns, the promise is fulfilled,
  and the factory ends with \<open>isInitialized = false\<close> and with \<open>initializationError\<close> holding
  the aggregate error of the attempt log; the log names exactly the strategies whose
  prerequisites are present, in order, each with the error its attempt threw.
\<close>

theorem resolution_failure_is_stored:
  "(fst (constructor env w disk) = Inl e) = (fst (new_Logger env w (blank disk)) = Inl e)
   \<and> (fst (constructor env w disk) = Inl e \<longrightarrow>
        credentialAttempts (snd (constructor env w disk)) = []
        \<and> list_all (\<lambda>x. logger_call (fst x)) (trace (snd (constructor env w disk))))
   \<and> fst (constructor env w disk) \<noteq> Inr (Some (Inl e))
   \<and> (\<not> test_environment env \<and> new_Logger env w (blank disk) = (Inr (), r0)
        \<and> fst (setupCredentials env w (r0\<lparr>this := fresh\<rparr>)) \<noteq> Inr ()
      \<longrightarrow> fst (constructor env w disk) = Inr (Some (Inr ()))
          \<and> hasInitializationError (this (snd (constructor env w disk)))
          \<and> getInitializationError (this (snd (constructor env w disk))) =
              Val (AllAuthenticationMethodsFailed
                     (credentialAttempts (snd (constructor env w disk))))
          \<and> isInitialized (this (snd (constructor env w disk))) = Val False
          \<and> map fst (credentialAttempts (snd (constructor env w disk))) =
              map strategy_name (filter (prerequisite env) strategy_order)
          \<and> (\<forall>x \<in> set (credentialAttempts (snd (constructor env w disk))).
                \<exists>st r1. prerequisite env st \<and> fst x = strategy_name st
                  \<and> fst (attempt_strategy env w st r1) = Inl (snd x)))"
proof (intro conjI impI)
  show "(fst (constructor env w disk) = Inl e) = (fst (new_Logger env w (blank disk)) = Inl e)"
    by (rule constructor_throws)
  show "fst (constructor env w disk) \<noteq> Inr (Some (Inl e))"
    by (rule constructor_promise)
next
  assume "fst (constructor env w disk) = Inl e"
  then have "fst (new_Logger env w (blank disk)) = Inl e"
    by (simp add: constructor_throws)
  then have c: "snd (constructor env w disk) = snd (new_Logger env w (blank disk))"
    by (simp add: constructor_thrown)
  show "credentialAttempts (snd (constructor env w disk)) = []"
    unfolding c by (simp add: new_Logger_attempts blank_def)
  obtain new where n: "trace (snd (new_Logger env w (blank disk))) = trace (blank disk) @ new"
    "list_all (\<lambda>x. logger_call (fst x) \<and> snd x = this (blank disk)) new"
    using new_Logger_trace [of env w "blank disk"] by blast
  show "list_all (\<lambda>x. logger_call (fst x)) (trace (snd (constructor env w disk)))"
    unfolding c n(1) using n(2) by (simp add: blank_def list_all_iff)
next
  assume h: "\<not> test_environment env \<and> new_Logger env w (blank disk) = (Inr (), r0)
        \<and> fst (setupCredentials env w (r0\<lparr>this := fresh\<rparr>)) \<noteq> Inr ()"
  let ?r0 = "r0\<lparr>this := fresh\<rparr>"
  from h have c: "constructor env w disk =
      (Inr (Some (fst (initializeAsync env w ?r0))), snd (initializeAsync env w ?r0))"
    by (simp add: constructor_started)
  show "fst (constructor env w disk) = Inr (Some (Inr ()))"
    unfolding c by (simp add: initializeAsync_fulfilled)
  from h have "fst (setupCredentials env w ?r0) \<noteq> Inr ()"
    by simp
  note f = setupCredentials_failed [OF this]
  note i = initializeAsync_failed [OF f(1)]
  show "hasInitializationError (this (snd (constructor env w disk)))"
    unfolding c by (simp add: i hasInitializationError_def)
  show "getInitializationError (this (snd (constructor env w disk))) =
              Val (AllAuthenticationMethodsFailed
                     (credentialAttempts (snd (constructor env w disk))))"
    unfolding c by (simp add: i getInitializationError_def)
  show "isInitialized (this (snd (constructor env w disk))) = Val False"
    unfolding c by (simp add: i)
  show "map fst (credentialAttempts (snd (constructor env w disk))) =
              map strategy_name (filter (prerequisite env) strategy_order)"
    unfolding c using f(2) by (simp add: i)
  show "\<forall>x \<in> set (credentialAttempts (snd (constructor env w disk))).
                \<exists>st r1. prerequisite env st \<and> fst x = strategy_name st
                  \<and> fst (attempt_strategy env w st r1) = Inl (snd x)"
    unfolding c using f(3) by (simp add: i)
qed

lemma secret_env_logger:
  "\<not> test_environment secret_env"
  "createLogger w = (\<lambda>level. None) \<Longrightarrow>
     new_Logger secret_env w (blank disk) =
       (Inr (), \<lparr>this = unassigned, files = disk, trace = [(CreateLogger ''info'', unassigned)],
                 credentialAttempts = []\<rparr>)"
  by (simp_all add: new_Logger_def blank_def run_defs env_defs secret_env_def Let_def)

lemma secret_env_constructor:
  assumes "createLogger w = (\<lambda>level. None)"
  shows "constructor secret_env w disk =
           (Inr (Some (fst (initializeAsync secret_env w (logged disk)))),
            snd (initializeAsync secret_env w (logged disk)))"
  using constructor_started [OF secret_env_logger(1) secret_env_logger(2) [OF assms]]
  by (simp add: logged_def)

lemma offline_run:
  "setupCredentials secret_env offline_world (logged {}) =
     (Inl (AllAuthenticationMethodsFailed
            [(''ManagedIdentity'', Text ''network unreachable''),
             (''ClientSecret'', Text ''network unreachable''),
             (''DefaultAzureCredential'', Text ''network unreachable'')]),
      \<lparr>this = fresh\<lparr>credential := Val DefaultAzureCredential\<rparr>,
       files = {},
       trace = [(CreateLogger ''info'', unassigned),
                (New ManagedIdentityCredential, fresh),
                (GetToken ManagedIdentityCredential default_scope,
                 fresh\<lparr>credential := Val ManagedIdentityCredential\<rparr>),
                (New (ClientSecretCredential ''t'' ''c'' ''s''), fresh),
                (GetToken (ClientSecretCredential ''t'' ''c'' ''s'') default_scope,
                 fresh\<lparr>credential := Val (ClientSecretCredential ''t'' ''c'' ''s'')\<rparr>),
                (New DefaultAzureCredential, fresh),
                (GetToken DefaultAzureCredential default_scope,
                 fresh\<lparr>credential := Val DefaultAzureCredential\<rparr>)],
       credentialAttempts =
            [(''ManagedIdentity'', Text ''network unreachable''),
             (''ClientSecret'', Text ''network unreachable''),
             (''DefaultAzureCredential'', Text ''network unreachable'')]\<rparr>)"
  by (simp add: resolve_defs run_defs env_defs secret_env_def offline_world_def calm_world_def
      logged_def fresh_def certificate_prerequisite_def Let_def)

theorem resolution_failure_is_stored_witness:
  "\<not> test_environment secret_env
   \<and> new_Logger secret_env offline_world (blank {}) =
       (Inr (), \<lparr>this = unassigned, files = {}, trace = [(CreateLogger ''info'', unassigned)],
                 credentialAttempts = []\<rparr>)
   \<and> fst (setupCredentials secret_env offline_world (logged {})) \<noteq> Inr ()
   \<and> fst (constructor secret_env offline_world {}) = Inr (Some (Inr ()))
   \<and> getInitializationError (this (snd (constructor secret_env offline_world {}))) =
       Val (AllAuthenticationMethodsFailed
            [(''ManagedIdentity'', Text ''network unreachable''),
             (''ClientSecret'', Text ''network unreachable''),
             (''DefaultAzureCredential'', Text ''network unreachable'')])
   \<and> isInitialized (this (snd (constructor secret_env offline_world {}))) = Val False"
proof -
  let ?r0 = "\<lparr>this = unassigned, files = {}, trace = [(CreateLogger ''info'', unassigned)],
                 credentialAttempts = []\<rparr>"
  have w: "createLogger offline_world = (\<lambda>level. None)"
    by (simp add: offline_world_def calm_world_def)
  note nt = secret_env_logger(1)
  note n = secret_env_logger(2) [OF w, of "{}"]
  have u: "?r0\<lparr>this := fresh\<rparr> = logged {}"
    by (simp add: logged_def)
  have f: "fst (setupCredentials secret_env offline_world (?r0\<lparr>this := fresh\<rparr>)) \<noteq> Inr ()"
    unfolding u by (simp add: offline_run)
  have l: "credentialAttempts (snd (constructor secret_env offline_world {})) =
            [(''ManagedIdentity'', Text ''network unreachable''),
             (''ClientSecret'', Text ''network unreachable''),
             (''DefaultAzureCredential'', Text ''network unreachable'')]"
    unfolding secret_env_constructor [OF w]
    by (simp add: initializeAsync_def initialize_def and_then_def offline_run)
  from resolution_failure_is_stored [of secret_env offline_world "{}" _ ?r0] nt n f
  have "fst (constructor secret_env offline_world {}) = Inr (Some (Inr ()))
     \<and> getInitializationError (this (snd (constructor secret_env offline_world {}))) =
              Val (AllAuthenticationMethodsFailed
                     (credentialAttempts (snd (constructor secret_env offline_world {}))))
     \<and> isInitialized (this (snd (constructor secret_env offline_world {}))) = Val False"
    by blast
  then show ?thesis
    using nt n f unfolding l u by simp
qed

subsection \<open>The readiness gate\<close>

declare wait_loop.simps [simp del]

lemma elapsed_after_lower: "100 * k \<le> elapsed_after sch k"
  by (induction k) simp_all

lemma elapsed_after_mono: "j \<le> k \<Longrightarrow> elapsed_after sch j \<le> elapsed_after sch k"
  by (induction k) (auto simp add: le_Suc_eq)

lemma wait_loop_stops:
  assumes "e = elapsed_after sch k"
    and "k \<le> n"
    and "\<forall>j. k \<le> j \<and> j < n \<longrightarrow> pending (view sch j) \<and> elapsed_after sch j < T"
    and "\<not> (pending (view sch n) \<and> elapsed_after sch n < T)"
  shows "wait_loop sch T e k = n"
  using assms
proof (induction "n - k" arbitrary: k e)
  case 0
  then have "k = n" by simp
  with 0 show ?case
    by (subst wait_loop.simps) auto
next
  case (Suc d)
  then have lt: "k < n" by simp
  with Suc.prems have go: "pending (view sch k) \<and> e < T"
    by auto
  have "wait_loop sch T (e + 100 + lateness sch k) (Suc k) = n"
  proof (rule Suc.hyps(1))
    show "d = n - Suc k" using Suc.hyps(2) by simp
    show "e + 100 + lateness sch k = elapsed_after sch (Suc k)"
      using Suc.prems(1) by simp
    show "Suc k \<le> n" using lt by simp
    show "\<forall>j. Suc k \<le> j \<and> j < n \<longrightarrow> pending (view sch j) \<and> elapsed_after sch j < T"
      using Suc.prems(3) by auto
    show "\<not> (pending (view sch n) \<and> elapsed_after sch n < T)"
      by (rule Suc.prems(4))
  qed
  with go show ?case
    by (subst wait_loop.simps) simp
qed

lemma wait_loop_timeout:
  assumes "\<forall>j. pending (view sch j)"
  shows "\<exists>n. wait_loop sch T 0 0 = n \<and> 100 * n < T + 100 \<and> T \<le> elapsed_after sch n"
proof -
  define n where "n = (LEAST j. T \<le> elapsed_after sch j)"
  have ex: "T \<le> elapsed_after sch T"
    using elapsed_after_lower [of T sch] by simp
  have reach: "T \<le> elapsed_after sch n"
    unfolding n_def using ex by (rule LeastI)
  have before: "elapsed_after sch j < T" if "j < n" for j
    using that not_less_Least [of j "\<lambda>j. T \<le> elapsed_after sch j"] by (simp add: n_def)
  have "wait_loop sch T 0 0 = n"
    by (rule wait_loop_stops) (use assms reach before in auto)
  moreover have "100 * n < T + 100"
  proof (cases n)
    case 0
    then show ?thesis by simp
  next
    case (Suc m)
    then have "elapsed_after sch m < T" using before [of m] by simp
    with elapsed_after_lower [of m sch] Suc show ?thesis by simp
  qed
  ultimately show ?thesis using reach by simp
qed


lemma waitForInitialization_terminal:
  assumes "\<forall>j<n. pending (view sch j) \<and> elapsed_after sch j < T"
    and "\<not> pending (view sch n)"
  shows "waitForInitialization sch T =
           ((case initializationError (view sch n) of Val e \<Rightarrow> Inl e | _ \<Rightarrow> Inr True), n)"
proof -
  have "wait_loop sch T 0 0 = n"
    by (rule wait_loop_stops) (use assms in auto)
  then show ?thesis
    using assms(2)
    by (auto simp add: waitForInitialization_def pending_def Let_def split: js.splits)
qed

lemma setupCredentials_this:
  "same_but_credential (this (snd (setupCredentials env w r))) (this r)"
proof -
  let ?spec = "resolution_chain env w strategy_order (r\<lparr>credentialAttempts := []\<rparr>)"
  have ag: "agree (setupCredentials env w r) ?spec"
    by (rule setupCredentials_agree)
  have "same_but_credential (this (snd ?spec)) (this r)"
    using chain_run [of "r\<lparr>credentialAttempts := []\<rparr>" "this r" env w strategy_order]
    by (simp add: same_but_credential_def)
  with ag show ?thesis
    by (auto simp add: agree_def same_but_credential_def split: if_splits)
qed

lemma setupKeyVaultClients_this:
  "credential (this (snd (setupKeyVaultClients env w r))) = credential (this r)"
  "initializationError (this (snd (setupKeyVaultClients env w r))) = initializationError (this r)"
  "isInitialized (this (snd (setupKeyVaultClients env w r))) = isInitialized (this r)"
  by (simp_all add: setupKeyVaultClients_def run_defs Let_def split: js.splits option.splits)

lemma setupGraphClient_this:
  "credential (this (snd (setupGraphClient env w r))) = credential (this r)"
  "initializationError (this (snd (setupGraphClient env w r))) = initializationError (this r)"
  "isInitialized (this (snd (setupGraphClient env w r))) = isInitialized (this r)"
  "fst (setupGraphClient env w r) = Inr u \<Longrightarrow> truthy (credential (this r))"
  by (simp_all add: setupGraphClient_def run_defs Let_def split: js.splits option.splits)

lemma refresh_this:
  "credential (this (snd (refreshCredentials env w r))) =
     credential (this (snd (setupCredentials env w r)))"
  "initializationError (this (snd (refreshCredentials env w r))) = initializationError (this r)"
  "isInitialized (this (snd (refreshCredentials env w r))) = isInitialized (this r)"
  "fst (refreshCredentials env w r) = Inr u
     \<Longrightarrow> truthy (credential (this (snd (refreshCredentials env w r))))"
proof -
  have s: "initializationError (this (snd (setupCredentials env w r))) = initializationError (this r)"
    "isInitialized (this (snd (setupCredentials env w r))) = isInitialized (this r)"
    using setupCredentials_this [of env w r]
    by (auto simp add: same_but_credential_def dest: arg_cong [where f = initializationError]
        arg_cong [where f = isInitialized])
  obtain a r1 where 1: "setupCredentials env w r = (a, r1)"
    by (cases "setupCredentials env w r")
  obtain b r2 where 2: "setupKeyVaultClients env w r1 = (b, r2)"
    by (cases "setupKeyVaultClients env w r1")
  obtain c r3 where 3: "setupGraphClient env w r2 = (c, r3)"
    by (cases "setupGraphClient env w r2")
  have k: "credential (this r2) = credential (this r1)"
    "initializationError (this r2) = initializationError (this r1)"
    "isInitialized (this r2) = isInitialized (this r1)"
    using setupKeyVaultClients_this [of env w r1] 2 by simp_all
  have g: "credential (this r3) = credential (this r2)"
    "initializationError (this r3) = initializationError (this r2)"
    "isInitialized (this r3) = isInitialized (this r2)"
    using setupGraphClient_this(1-3) [of env w r2] 3 by simp_all
  have gt: "c = Inr u \<Longrightarrow> truthy (credential (this r2))" for u
    using setupGraphClient_this(4) [of env w r2 u] 3 by simp
  show "credential (this (snd (refreshCredentials env w r))) =
     credential (this (snd (setupCredentials env w r)))"
    using 1 2 3 k g by (simp add: refreshCredentials_def and_then_def split: sum.splits)
  show "initializationError (this (snd (refreshCredentials env w r))) = initializationError (this r)"
    using 1 2 3 k g s by (simp add: refreshCredentials_def and_then_def split: sum.splits)
  show "isInitialized (this (snd (refreshCredentials env w r))) = isInitialized (this r)"
    using 1 2 3 k g s by (simp add: refreshCredentials_def and_then_def split: sum.splits)
  show "truthy (credential (this (snd (refreshCredentials env w r))))"
    if "fst (refreshCredentials env w r) = Inr u"
    using that 1 2 3 k g gt by (simp add: refreshCredentials_def and_then_def split: sum.splits)
qed

lemma initialize_is_refresh:
  "initialize env w r =
     (case refreshCredentials env w r of
        (Inr u, r') \<Rightarrow> (Inr True, r')
      | (Inl error, r') \<Rightarrow>
          (Inr False, r'\<lparr>this := (this r')\<lparr>initializationError := Val error\<rparr>\<rparr>))"
  by (simp add: initialize_def refreshCredentials_def)

lemma constructed_ready:
  assumes "\<not> test_environment env"
    and "truthy_bool (isInitialized (this (snd (constructor env w disk))))"
  shows "truthy (credential (this (snd (constructor env w disk))))"
    and "initializationError (this (snd (constructor env w disk))) = Null"
proof -
  from assms(1) obtain r0 where c0: "constructor env w disk =
             (Inr (Some (fst (initializeAsync env w (r0\<lparr>this := fresh\<rparr>)))),
              snd (initializeAsync env w (r0\<lparr>this := fresh\<rparr>)))"
  proof (cases rule: constructor_cases [of env w disk])
    case (thrown e)
    then have "this (snd (constructor env w disk)) = unassigned"
      by (simp add: new_Logger_blank)
    with assms(2) show ?thesis
      by (simp add: unassigned_def)
  next
    case (started r0)
    then show ?thesis
      using that by blast
  qed
  let ?r0 = "r0\<lparr>this := fresh\<rparr>"
  obtain a r1 where 1: "refreshCredentials env w ?r0 = (a, r1)"
    by (cases "refreshCredentials env w ?r0")
  have ok: "a = Inr ()"
    using assms(2) 1 unfolding c0
    by (cases a) (simp_all add: initializeAsync_def initialize_is_refresh)
  have c: "this (snd (constructor env w disk)) = (this r1)\<lparr>isInitialized := Val True\<rparr>"
    using 1 ok unfolding c0 by (simp add: initializeAsync_def initialize_is_refresh)
  show "truthy (credential (this (snd (constructor env w disk))))"
    using refresh_this(4) [of env w ?r0 "()"] 1 ok by (simp add: c)
  show "initializationError (this (snd (constructor env w disk))) = Null"
    using refresh_this(2) [of env w ?r0] 1 by (simp add: c fresh_def)
qed

lemma elapsed_after_punctual: "elapsed_after (becomes n s) k = 100 * k"
  by (induction k) (simp_all add: becomes_def)

lemma vault_run_value:
  "this vault_run = with_vault (ClientCertificateCredential ''t'' ''c'' (Base64String ''QUJD''))"
  unfolding vault_run_def
  by (simp add: init_defs resolve_defs run_defs env_defs hinted_env_def
      no_msi_world_def calm_world_def with_vault_def Let_def)

text \<open>
  C5, as stated, fails in two points. On a factory whose resolution has already failed,
  \<open>ensureCredentialAvailable\<close> does not raise the stored error but a new error whose
  message is the stored message after the prefix \<open>Credentials not available: \<close>
  (line 549); only a caller that was waiting when the failure arrived gets the stored
  error itself, from \<open>waitForInitialization\<close>. And a factory whose resolution has
  succeeded does not always pass: while a refresh of it is suspended at the Key Vault
  request of the certificate strategy, after the managed identity has failed its test,
  \<open>isInitialized\<close> is still true and no error is stored, but the credential has been reset
  to null (line 91), and the gate refuses with
  \<open>No credential available after initialization\<close>.
\<close>

theorem gate_wraps_or_refuses:
  "\<not> test_environment secret_env
   \<and> initializationError (failed_with (Text ''boom'')) = Val (Text ''boom'')
   \<and> ensureCredentialAvailable secret_env (settled (failed_with (Text ''boom''))) =
       (Inl (CredentialsNotAvailable (Text ''boom'')), 0)
   \<and> CredentialsNotAvailable (Text ''boom'') \<noteq> Text ''boom''
   \<and> ensureCredentialAvailable secret_env (becomes 3 (failed_with (Text ''boom''))) =
       (Inl (Text ''boom''), 3)
   \<and> \<not> test_environment hinted_env
   \<and> isInitialized (this vault_run) = Val True
   \<and> initializationError (this vault_run) = Null
   \<and> (GetCertificate (CertificateClient ''https://kv.example'' DefaultAzureCredential) ''bot'',
       (this vault_run)\<lparr>credential := Null\<rparr>)
       \<in> set (drop (length (trace vault_run))
                 (trace (snd (refreshCredentials hinted_env no_msi_world vault_run))))
   \<and> ensureCredentialAvailable hinted_env (settled ((this vault_run)\<lparr>credential := Null\<rparr>)) =
       (Inl (Text ''No credential available after initialization''), 0)"
proof -
  have nt: "\<not> test_environment secret_env"
    by (simp add: test_environment_def secret_env_def)
  have a: "ensureCredentialAvailable secret_env (settled (failed_with (Text ''boom''))) =
       (Inl (CredentialsNotAvailable (Text ''boom'')), 0)"
    using nt
    by (simp add: ensureCredentialAvailable_def check_available_def pending_def settled_def
        failed_with_def fresh_def)
  let ?sch = "becomes 3 (failed_with (Text ''boom''))"
  have "waitForInitialization ?sch 30000 =
      ((case initializationError (view ?sch 3) of Val e \<Rightarrow> Inl e | _ \<Rightarrow> Inr True), 3)"
    by (rule waitForInitialization_terminal)
      (simp_all add: elapsed_after_punctual, simp_all add: becomes_def pending_def
        failed_with_def fresh_def)
  then have b: "ensureCredentialAvailable secret_env ?sch = (Inl (Text ''boom''), 3)"
    using nt
    by (simp add: ensureCredentialAvailable_def becomes_def pending_def failed_with_def
        fresh_def)
  have nh: "\<not> test_environment hinted_env"
    by (simp add: test_environment_def hinted_env_def)
  have c: "(GetCertificate (CertificateClient ''https://kv.example'' DefaultAzureCredential) ''bot'',
       (this vault_run)\<lparr>credential := Null\<rparr>)
       \<in> set (drop (length (trace vault_run))
                 (trace (snd (refreshCredentials hinted_env no_msi_world vault_run))))"
    by (simp add: refreshCredentials_def setupKeyVaultClients_def setupGraphClient_def
        graph_scopes_def resolve_defs run_defs env_defs hinted_env_def
        no_msi_world_def calm_world_def vault_run_value with_vault_def Let_def)
  have d: "ensureCredentialAvailable hinted_env
       (settled ((this vault_run)\<lparr>credential := Null\<rparr>)) =
       (Inl (Text ''No credential available after initialization''), 0)"
    using nh
    by (simp add: ensureCredentialAvailable_def check_available_def pending_def settled_def
        vault_run_value with_vault_def)
  show ?thesis
    using nt a b nh c d by (simp add: failed_with_def fresh_def vault_run_value with_vault_def)
qed

text \<open>
  C5, amended. In the test environment the gate returns at once. Outside it: a factory
  that is initialized and without error passes the gate at once if its credential is set,
  and is refused at once with \<open>No credential available after initialization\<close> if it is
  not; the factory that the constructor has initialized passes at once; a factory with a
  stored error is refused at once, by \<open>waitForInitialization\<close> with the stored error itself
  and by \<open>ensureCredentialAvailable\<close> with an error that carries it under a fixed prefix,
  and the gate has no access to the outside world, so nothing is attempted again; a
  factory that is pending at the call and at every later look before the \<open>n\<close>-th, each of
  them less than 30000 ms after the call, makes the caller sleep \<open>n\<close> times, 100 ms or
  more each, until that first look that finds it no longer pending, and then the stored
  error is raised or the credential check decides; a factory that stays pending makes the
  caller give up after at most 300 sleeps, once 30000 ms have passed, with the timeout
  error, which is different from the errors of a failed resolution.
\<close>

theorem readiness_gate:
  "(test_environment env \<longrightarrow> ensureCredentialAvailable env sch = (Inr (), 0))
   \<and> (\<not> test_environment env \<longrightarrow>
     (truthy_bool (isInitialized (view sch 0)) \<and> \<not> truthy (initializationError (view sch 0))
      \<longrightarrow> ensureCredentialAvailable env sch =
           ((if truthy (credential (view sch 0)) then Inr ()
             else Inl (Text ''No credential available after initialization'')), 0))
     \<and> (truthy_bool (isInitialized (this (snd (constructor env w disk))))
        \<longrightarrow> ensureCredentialAvailable env (settled (this (snd (constructor env w disk)))) =
             (Inr (), 0))
     \<and> (initializationError (view sch 0) = Val e
        \<longrightarrow> ensureCredentialAvailable env sch = (Inl (CredentialsNotAvailable e), 0)
          \<and> waitForInitialization sch T = (Inl e, 0))
     \<and> (0 < n \<and> (\<forall>j<n. pending (view sch j) \<and> elapsed_after sch j < 30000)
          \<and> \<not> pending (view sch n)
        \<longrightarrow> ensureCredentialAvailable env sch =
             ((case initializationError (view sch n) of
                 Val e' \<Rightarrow> Inl e'
               | _ \<Rightarrow> if truthy (credential (view sch n)) then Inr ()
                      else Inl (Text ''No credential available after initialization'')), n))
     \<and> ((\<forall>j. pending (view sch j))
        \<longrightarrow> fst (ensureCredentialAvailable env sch) = Inl initialization_timeout
          \<and> snd (ensureCredentialAvailable env sch) \<le> 300
          \<and> 30000 \<le> elapsed_after sch (snd (ensureCredentialAvailable env sch)))
     \<and> initialization_timeout \<noteq> CredentialsNotAvailable e
     \<and> initialization_timeout \<noteq> AllAuthenticationMethodsFailed log)"
proof (intro impI conjI)
  assume "test_environment env"
  then show "ensureCredentialAvailable env sch = (Inr (), 0)"
    by (simp add: ensureCredentialAvailable_def)
next
  assume nt: "\<not> test_environment env"
  {
    assume "truthy_bool (isInitialized (view sch 0)) \<and> \<not> truthy (initializationError (view sch 0))"
    then show "ensureCredentialAvailable env sch =
           ((if truthy (credential (view sch 0)) then Inr ()
             else Inl (Text ''No credential available after initialization'')), 0)"
      using nt
      by (auto simp add: ensureCredentialAvailable_def pending_def check_available_def
          split: js.splits)
  }
  {
    assume i: "truthy_bool (isInitialized (this (snd (constructor env w disk))))"
    show "ensureCredentialAvailable env (settled (this (snd (constructor env w disk)))) =
           (Inr (), 0)"
      using nt i constructed_ready [OF nt i]
      by (auto simp add: ensureCredentialAvailable_def pending_def check_available_def
          settled_def split: js.splits)
  }
  {
    assume e: "initializationError (view sch 0) = Val e"
    then show "ensureCredentialAvailable env sch = (Inl (CredentialsNotAvailable e), 0)"
      using nt by (simp add: ensureCredentialAvailable_def pending_def check_available_def)
    have "wait_loop sch T 0 0 = 0"
      using e by (subst wait_loop.simps) (simp add: pending_def)
    then show "waitForInitialization sch T = (Inl e, 0)"
      using e by (simp add: waitForInitialization_def)
  }
  {
    assume a: "0 < n \<and> (\<forall>j<n. pending (view sch j) \<and> elapsed_after sch j < 30000)
        \<and> \<not> pending (view sch n)"
    then have p0: "pending (view sch 0)" by blast
    have w: "waitForInitialization sch 30000 =
           ((case initializationError (view sch n) of Val e \<Rightarrow> Inl e | _ \<Rightarrow> Inr True), n)"
      by (rule waitForInitialization_terminal) (use a in auto)
    show "ensureCredentialAvailable env sch =
           ((case initializationError (view sch n) of
               Val e' \<Rightarrow> Inl e'
             | _ \<Rightarrow> if truthy (credential (view sch n)) then Inr ()
                    else Inl (Text ''No credential available after initialization'')), n)"
      using nt p0 w
      by (simp add: ensureCredentialAvailable_def check_available_def split: js.splits)
  }
  {
    assume a: "\<forall>j. pending (view sch j)"
    obtain m where m: "wait_loop sch 30000 0 0 = m" "100 * m < 30000 + 100"
      "30000 \<le> elapsed_after sch m"
      using wait_loop_timeout [OF a, of 30000] by blast
    have pm: "pending (view sch m)" "pending (view sch 0)"
      using a by simp_all
    have w: "waitForInitialization sch 30000 = (Inl initialization_timeout, m)"
      using m(1) pm(1)
      by (auto simp add: waitForInitialization_def pending_def initialization_timeout_def Let_def
          split: js.splits)
    have en: "ensureCredentialAvailable env sch = (Inl initialization_timeout, m)"
      using nt pm(2) w by (simp add: ensureCredentialAvailable_def)
    show "fst (ensureCredentialAvailable env sch) = Inl initialization_timeout"
      by (simp add: en)
    show "snd (ensureCredentialAvailable env sch) \<le> 300"
      using m(2) by (simp add: en)
    show "30000 \<le> elapsed_after sch (snd (ensureCredentialAvailable env sch))"
      using m(3) by (simp add: en)
  }
  show "initialization_timeout \<noteq> CredentialsNotAvailable e"
    by (simp add: initialization_timeout_def)
  show "initialization_timeout \<noteq> AllAuthenticationMethodsFailed log"
    by (simp add: initialization_timeout_def)
qed

theorem readiness_gate_witness:
  "test_environment test_env
   \<and> ensureCredentialAvailable test_env (settled (failed_with (Text ''boom''))) = (Inr (), 0)
   \<and> \<not> test_environment secret_env
   \<and> ensureCredentialAvailable secret_env (settled (ready_with DefaultAzureCredential)) = (Inr (), 0)
   \<and> ensureCredentialAvailable secret_env
        (settled ((ready_with DefaultAzureCredential)\<lparr>credential := Null\<rparr>)) =
       (Inl (Text ''No credential available after initialization''), 0)
   \<and> truthy_bool (isInitialized (this (snd (constructor secret_env no_msi_world {}))))
   \<and> ensureCredentialAvailable secret_env
        (settled (this (snd (constructor secret_env no_msi_world {})))) = (Inr (), 0)
   \<and> ensureCredentialAvailable secret_env (settled (failed_with (Text ''boom''))) =
       (Inl (CredentialsNotAvailable (Text ''boom'')), 0)
   \<and> ensureCredentialAvailable secret_env (becomes 3 (ready_with DefaultAzureCredential)) =
       (Inr (), 3)
   \<and> ensureCredentialAvailable secret_env (becomes 3 (failed_with (Text ''boom''))) =
       (Inl (Text ''boom''), 3)
   \<and> fst (ensureCredentialAvailable secret_env (settled fresh)) = Inl initialization_timeout
   \<and> snd (ensureCredentialAvailable secret_env (settled fresh)) \<le> 300"
proof -
  have t: "test_environment test_env"
    by (simp add: test_environment_def test_env_def)
  have nt: "\<not> test_environment secret_env"
    by (simp add: test_environment_def secret_env_def)
  have z: "ensureCredentialAvailable test_env (settled (failed_with (Text ''boom''))) =
      (Inr (), 0)"
    using readiness_gate [where env = test_env
        and sch = "settled (failed_with (Text ''boom''))"] t
    by blast
  have a: "ensureCredentialAvailable secret_env (settled (ready_with DefaultAzureCredential)) =
      (Inr (), 0)"
    using readiness_gate [where env = secret_env
        and sch = "settled (ready_with DefaultAzureCredential)"] nt
    by (simp add: settled_def ready_with_def fresh_def)
  have a': "ensureCredentialAvailable secret_env
        (settled ((ready_with DefaultAzureCredential)\<lparr>credential := Null\<rparr>)) =
       (Inl (Text ''No credential available after initialization''), 0)"
    using readiness_gate [where env = secret_env
        and sch = "settled ((ready_with DefaultAzureCredential)\<lparr>credential := Null\<rparr>)"] nt
    by (simp add: settled_def ready_with_def fresh_def)
  have i: "truthy_bool (isInitialized (this (snd (constructor secret_env no_msi_world {}))))"
    by (simp add: init_defs resolve_defs run_defs env_defs secret_env_def no_msi_world_def
        calm_world_def Let_def)
  from readiness_gate [where env = secret_env and w = no_msi_world and disk = "{}"] nt i
  have k: "ensureCredentialAvailable secret_env
        (settled (this (snd (constructor secret_env no_msi_world {})))) = (Inr (), 0)"
    by blast
  have b: "ensureCredentialAvailable secret_env (settled (failed_with (Text ''boom''))) =
       (Inl (CredentialsNotAvailable (Text ''boom'')), 0)"
    using readiness_gate [where env = secret_env
        and sch = "settled (failed_with (Text ''boom''))" and e = "Text ''boom''"] nt
    by (simp add: settled_def failed_with_def fresh_def)
  have p: "\<forall>j<3. pending (view (becomes 3 s) j) \<and> elapsed_after (becomes 3 s) j < 30000" for s
    by (simp add: elapsed_after_punctual) (simp add: becomes_def pending_def fresh_def)
  have c: "ensureCredentialAvailable secret_env (becomes 3 (ready_with DefaultAzureCredential)) =
       (Inr (), 3)"
  proof -
    have "\<not> pending (view (becomes 3 (ready_with DefaultAzureCredential)) 3)"
      by (simp add: becomes_def pending_def ready_with_def fresh_def)
    with readiness_gate [where env = secret_env
        and sch = "becomes 3 (ready_with DefaultAzureCredential)" and n = 3] nt p
    show ?thesis
      by (simp add: becomes_def ready_with_def fresh_def)
  qed
  have d: "ensureCredentialAvailable secret_env (becomes 3 (failed_with (Text ''boom''))) =
       (Inl (Text ''boom''), 3)"
  proof -
    have "\<not> pending (view (becomes 3 (failed_with (Text ''boom''))) 3)"
      by (simp add: becomes_def pending_def failed_with_def fresh_def)
    with readiness_gate [where env = secret_env
        and sch = "becomes 3 (failed_with (Text ''boom''))" and n = 3] nt p
    show ?thesis
      by (simp add: becomes_def failed_with_def fresh_def)
  qed
  have "\<forall>j. pending (view (settled fresh) j)"
    by (simp add: settled_def pending_def fresh_def)
  with readiness_gate [where env = secret_env and sch = "settled fresh"] nt
  have u: "fst (ensureCredentialAvailable secret_env (settled fresh)) = Inl initialization_timeout
   \<and> snd (ensureCredentialAvailable secret_env (settled fresh)) \<le> 300"
    by blast
  show ?thesis using t z nt a a' i k b c d u by simp
qed

subsection \<open>The accessors\<close>

lemma graphless_constructed:
  "this (snd (constructor certificate_env graphless_world {})) =
     \<lparr>credential = Val (ClientCertificateCredential ''t'' ''c'' (Base64String ''QUJD'')),
      secretClient = Val (SecretClient ''https://kv.example''
                            (ClientCertificateCredential ''t'' ''c'' (Base64String ''QUJD''))),
      certificateClient = Val (CertificateClient ''https://kv.example''
                            (ClientCertificateCredential ''t'' ''c'' (Base64String ''QUJD''))),
      graphClient = Null,
      initializationError = Val (Text ''graph sdk error''),
      isInitialized = Val False\<rparr>"
  by (simp add: init_defs resolve_defs run_defs env_defs certificate_env_def graphless_world_def
      calm_world_def default_scope_def Let_def)

text \<open>
  C6, as stated, fails. \<open>getGraphClient\<close> is synchronous and never passes the gate: on a
  factory whose resolution has failed it raises the missing-client error where the gate
  raises the stored failure. \<open>setSecret\<close> and \<open>getCertificate\<close> do not call the gate
  either: on the factory left by a construction whose Graph client could not be built,
  \<open>getSecret\<close> is refused by the gate while \<open>setSecret\<close> writes to the vault and
  \<open>getCertificate\<close> reads from it.
\<close>

theorem accessors_without_gate:
  "\<not> test_environment certificate_env
   \<and> getGraphClient (failed_with (Text ''boom'')) = Inl graph_client_missing
   \<and> gate_then_check certificate_env (settled (failed_with (Text ''boom''))) graphClient
        graph_client_missing Inr = Inl (CredentialsNotAvailable (Text ''boom''))
   \<and> getSecret certificate_env graphless_world
        (settled (this (snd (constructor certificate_env graphless_world {})))) ''name'' =
        Inl (CredentialsNotAvailable (Text ''graph sdk error''))
   \<and> setSecret graphless_world (this (snd (constructor certificate_env graphless_world {})))
        ''name'' ''value'' = Inr ()
   \<and> getCertificate graphless_world (this (snd (constructor certificate_env graphless_world {})))
        ''name'' = Inr ''cert''"
  unfolding graphless_constructed
  by (simp add: getGraphClient_def gate_then_check_def ensureCredentialAvailable_def
      check_available_def pending_def settled_def failed_with_def fresh_def env_defs
      certificate_env_def getSecret_def setSecret_def getCertificate_def throws_def
      graphless_world_def calm_world_def)

text \<open>
  C6, amended. \<open>getSecret\<close> is the accessor of the specification: gate first, then the
  check of the secret client, then the vault. Whatever the gate raises is what \<open>getSecret\<close>
  and \<open>getAccessToken\<close> raise; once the gate has let them pass, \<open>getSecret\<close> raises the
  missing-client error when there is no secret client, and \<open>getAccessToken\<close> asks the
  credential it finds for a token without checking any sub-client. \<open>getGraphClient\<close> does
  not wait: it returns the Graph client or raises its missing-client error. \<open>setSecret\<close>
  and \<open>getCertificate\<close> raise their missing-client error when their sub-client is absent.
  The three missing-client errors differ from each other and from the errors of the gate.
\<close>

theorem accessor_checks:
  "getSecret env w sch name =
     gate_then_check env sch secretClient secret_client_missing (\<lambda>cl. vaultGetSecret w cl name)
   \<and> (fst (ensureCredentialAvailable env sch) = Inl e
      \<longrightarrow> getSecret env w sch name = Inl e \<and> getAccessToken env w sch sc = Inl e)
   \<and> (ensureCredentialAvailable env sch = (Inr (), k)
      \<longrightarrow> getSecret env w sch name =
            (case secretClient (view sch k) of
               Val cl \<Rightarrow> vaultGetSecret w cl name
             | _ \<Rightarrow> Inl secret_client_missing)
        \<and> getAccessToken env w sch sc = request_token w (view sch k) sc)
   \<and> getGraphClient s = (case graphClient s of Val g \<Rightarrow> Inr g | _ \<Rightarrow> Inl graph_client_missing)
   \<and> (\<not> truthy (secretClient s) \<longrightarrow> setSecret w s name v = Inl secret_client_missing)
   \<and> (\<not> truthy (certificateClient s)
      \<longrightarrow> getCertificate w s name = Inl certificate_client_missing)
   \<and> distinct [secret_client_missing, certificate_client_missing, graph_client_missing,
        initialization_timeout, Text ''No credential available after initialization'',
        CredentialsNotAvailable e]"
proof (intro conjI impI)
  show "getSecret env w sch name =
     gate_then_check env sch secretClient secret_client_missing (\<lambda>cl. vaultGetSecret w cl name)"
    by (simp add: getSecret_def gate_then_check_def)
  show "getSecret env w sch name = Inl e" if "fst (ensureCredentialAvailable env sch) = Inl e"
    using that by (cases "ensureCredentialAvailable env sch") (simp add: getSecret_def)
  show "getAccessToken env w sch sc = Inl e" if "fst (ensureCredentialAvailable env sch) = Inl e"
    using that by (cases "ensureCredentialAvailable env sch") (simp add: getAccessToken_def)
  show "getSecret env w sch name =
            (case secretClient (view sch k) of
               Val cl \<Rightarrow> vaultGetSecret w cl name
             | _ \<Rightarrow> Inl secret_client_missing)"
    if "ensureCredentialAvailable env sch = (Inr (), k)"
    using that by (simp add: getSecret_def)
  show "getAccessToken env w sch sc = request_token w (view sch k) sc"
    if "ensureCredentialAvailable env sch = (Inr (), k)"
    using that by (simp add: getAccessToken_def)
  show "getGraphClient s = (case graphClient s of Val g \<Rightarrow> Inr g | _ \<Rightarrow> Inl graph_client_missing)"
    by (simp add: getGraphClient_def)
  show "setSecret w s name v = Inl secret_client_missing" if "\<not> truthy (secretClient s)"
    using that by (cases "secretClient s") (simp_all add: setSecret_def)
  show "getCertificate w s name = Inl certificate_client_missing"
    if "\<not> truthy (certificateClient s)"
    using that by (cases "certificateClient s") (simp_all add: getCertificate_def)
  show "distinct [secret_client_missing, certificate_client_missing, graph_client_missing,
        initialization_timeout, Text ''No credential available after initialization'',
        CredentialsNotAvailable e]"
    by (simp add: secret_client_missing_def certificate_client_missing_def
        graph_client_missing_def initialization_timeout_def)
qed

theorem accessor_checks_witness:
  "fst (ensureCredentialAvailable secret_env (settled (failed_with (Text ''boom'')))) =
     Inl (CredentialsNotAvailable (Text ''boom''))
   \<and> getSecret secret_env calm_world (settled (failed_with (Text ''boom''))) ''name'' =
       Inl (CredentialsNotAvailable (Text ''boom''))
   \<and> getAccessToken secret_env calm_world (settled (failed_with (Text ''boom'')))
       (ScopeArray [default_scope]) = Inl (CredentialsNotAvailable (Text ''boom''))
   \<and> ensureCredentialAvailable secret_env (settled (ready_with DefaultAzureCredential)) = (Inr (), 0)
   \<and> getSecret secret_env calm_world (settled (ready_with DefaultAzureCredential)) ''name'' =
       Inl secret_client_missing
   \<and> getAccessToken secret_env calm_world (settled (ready_with DefaultAzureCredential))
       (ScopeArray [default_scope]) = Inr ''tok''
   \<and> setSecret calm_world (ready_with DefaultAzureCredential) ''name'' ''value'' =
       Inl secret_client_missing
   \<and> getCertificate calm_world (ready_with DefaultAzureCredential) ''name'' =
       Inl certificate_client_missing"
proof -
  have g1: "fst (ensureCredentialAvailable secret_env (settled (failed_with (Text ''boom'')))) =
     Inl (CredentialsNotAvailable (Text ''boom''))"
    by (simp add: ensureCredentialAvailable_def check_available_def pending_def settled_def
        failed_with_def fresh_def env_defs secret_env_def)
  have g2: "ensureCredentialAvailable secret_env (settled (ready_with DefaultAzureCredential)) =
      (Inr (), 0)"
    by (simp add: ensureCredentialAvailable_def check_available_def pending_def settled_def
        ready_with_def fresh_def env_defs secret_env_def)
  have n: "\<not> truthy (secretClient (ready_with DefaultAzureCredential))"
    "\<not> truthy (certificateClient (ready_with DefaultAzureCredential))"
    by (simp_all add: ready_with_def fresh_def)
  note a = accessor_checks [where env = secret_env and w = calm_world
      and sch = "settled (failed_with (Text ''boom''))" and name = "''name''"
      and sc = "ScopeArray [default_scope]" and e = "CredentialsNotAvailable (Text ''boom'')"]
  note b = accessor_checks [where env = secret_env and w = calm_world
      and sch = "settled (ready_with DefaultAzureCredential)" and name = "''name''"
      and sc = "ScopeArray [default_scope]" and k = 0 and s = "ready_with DefaultAzureCredential"
      and v = "''value''"]
  from a g1 have 1: "getSecret secret_env calm_world (settled (failed_with (Text ''boom''))) ''name'' =
       Inl (CredentialsNotAvailable (Text ''boom''))
     \<and> getAccessToken secret_env calm_world (settled (failed_with (Text ''boom'')))
       (ScopeArray [default_scope]) = Inl (CredentialsNotAvailable (Text ''boom''))"
    by blast
  from b g2 have b1: "getSecret secret_env calm_world (settled (ready_with DefaultAzureCredential)) ''name'' =
            (case secretClient (view (settled (ready_with DefaultAzureCredential)) 0) of
               Val cl \<Rightarrow> vaultGetSecret calm_world cl ''name''
             | _ \<Rightarrow> Inl secret_client_missing)"
    and b2: "getAccessToken secret_env calm_world (settled (ready_with DefaultAzureCredential))
       (ScopeArray [default_scope]) =
         request_token calm_world (view (settled (ready_with DefaultAzureCredential)) 0)
           (ScopeArray [default_scope])"
    by blast+
  from b n have b3: "setSecret calm_world (ready_with DefaultAzureCredential) ''name'' ''value'' =
       Inl secret_client_missing"
    and b4: "getCertificate calm_world (ready_with DefaultAzureCredential) ''name'' =
       Inl certificate_client_missing"
    by blast+
  have 2: "getSecret secret_env calm_world (settled (ready_with DefaultAzureCredential)) ''name'' =
       Inl secret_client_missing
     \<and> getAccessToken secret_env calm_world (settled (ready_with DefaultAzureCredential))
       (ScopeArray [default_scope]) = Inr ''tok''"
    unfolding b1 b2
    by (simp add: settled_def ready_with_def fresh_def request_token_def calm_world_def
        default_scope_def)
  show ?thesis using g1 g2 1 2 b3 b4 by simp
qed

subsection \<open>What is visible during a pass\<close>

lemma snapshot_ok_pass: "snapshot_ok s0 x \<Longrightarrow> pass_ok s0 x"
  by (auto simp add: snapshot_ok_def pass_ok_def same_but_credential_def
      dest: arg_cong [where f = initializationError] arg_cong [where f = isInitialized])

lemma setupKeyVaultClients_trace:
  "\<exists>new. trace (snd (setupKeyVaultClients env w r)) = trace r @ new
     \<and> list_all (\<lambda>x. \<not> is_suspend_point (fst x)
          \<and> initializationError (snd x) = initializationError (this r)
          \<and> isInitialized (snd x) = isInitialized (this r)) new"
  by (simp add: setupKeyVaultClients_def run_defs Let_def split: js.splits option.splits)

lemma setupGraphClient_trace:
  "\<exists>new. trace (snd (setupGraphClient env w r)) = trace r @ new
     \<and> list_all (\<lambda>x. \<not> is_suspend_point (fst x)
          \<and> initializationError (snd x) = initializationError (this r)
          \<and> isInitialized (snd x) = isInitialized (this r)) new"
  by (simp add: setupGraphClient_def run_defs Let_def split: js.splits option.splits)

lemma quiet_pass_ok:
  assumes "\<not> is_suspend_point (fst x)"
    and "initializationError (snd x) = initializationError s0"
    and "isInitialized (snd x) = isInitialized s0"
  shows "pass_ok s0 x"
  using assms by (cases x, cases "fst x") (auto simp add: pass_ok_def)

lemma refresh_trace:
  "\<exists>new. trace (snd (refreshCredentials env w r)) = trace r @ new
     \<and> list_all (pass_ok (this r)) new"
proof -
  obtain a r1 where 1: "setupCredentials env w r = (a, r1)"
    by (cases "setupCredentials env w r")
  obtain b r2 where 2: "setupKeyVaultClients env w r1 = (b, r2)"
    by (cases "setupKeyVaultClients env w r1")
  obtain c r3 where 3: "setupGraphClient env w r2 = (c, r3)"
    by (cases "setupGraphClient env w r2")
  have s1: "initializationError (this r1) = initializationError (this r)"
    "isInitialized (this r1) = isInitialized (this r)"
    using setupCredentials_this [of env w r] 1
    by (auto simp add: same_but_credential_def dest: arg_cong [where f = initializationError]
        arg_cong [where f = isInitialized])
  have s2: "initializationError (this r2) = initializationError (this r)"
    "isInitialized (this r2) = isInitialized (this r)"
    using setupKeyVaultClients_this(2,3) [of env w r1] 2 s1 by simp_all
  obtain n1 where m1: "trace (snd (setupCredentials env w r)) = trace r @ n1"
    "list_all (snapshot_ok (this r)) n1"
    using setupCredentials_run [of env w r] by blast
  have n1: "trace r1 = trace r @ n1" "list_all (pass_ok (this r)) n1"
    using m1 1 by (auto intro: list.pred_mono_strong snapshot_ok_pass)
  obtain n2 where m2: "trace (snd (setupKeyVaultClients env w r1)) = trace r1 @ n2"
    "list_all (\<lambda>x. \<not> is_suspend_point (fst x)
          \<and> initializationError (snd x) = initializationError (this r1)
          \<and> isInitialized (snd x) = isInitialized (this r1)) n2"
    using setupKeyVaultClients_trace [of env w r1] by blast
  have n2: "trace r2 = trace r1 @ n2" "list_all (pass_ok (this r)) n2"
    using m2 2 s1 by (auto intro: list.pred_mono_strong quiet_pass_ok)
  obtain n3 where m3: "trace (snd (setupGraphClient env w r2)) = trace r2 @ n3"
    "list_all (\<lambda>x. \<not> is_suspend_point (fst x)
          \<and> initializationError (snd x) = initializationError (this r2)
          \<and> isInitialized (snd x) = isInitialized (this r2)) n3"
    using setupGraphClient_trace [of env w r2] by blast
  have n3: "trace r3 = trace r2 @ n3" "list_all (pass_ok (this r)) n3"
    using m3 3 s2 by (auto intro: list.pred_mono_strong quiet_pass_ok)
  have t2: "trace r2 = trace r @ (n1 @ n2)" "list_all (pass_ok (this r)) (n1 @ n2)"
    using n1 n2 by simp_all
  have t3: "trace r3 = trace r @ (n1 @ n2 @ n3)" "list_all (pass_ok (this r)) (n1 @ n2 @ n3)"
    using n1 n2 n3 by simp_all
  show ?thesis
  proof (cases a)
    case (Inl e)
    then show ?thesis using 1 n1 by (auto simp add: refreshCredentials_def and_then_def)
  next
    case (Inr u)
    show ?thesis
    proof (cases b)
      case (Inl e)
      then show ?thesis
        using 1 2 Inr t2 by (auto simp add: refreshCredentials_def and_then_def)
    next
      case (Inr u')
      then show ?thesis
        using 1 2 3 \<open>a = Inr u\<close> t3 by (auto simp add: refreshCredentials_def and_then_def)
    qed
  qed
qed

lemma initializeAsync_trace:
  "trace (snd (initializeAsync env w r)) = trace (snd (refreshCredentials env w r))"
  by (simp add: initializeAsync_def initialize_is_refresh split: prod.splits sum.splits)

lemma constructor_trace:
  assumes "\<not> test_environment env"
  shows "list_all (\<lambda>x. logger_call (fst x) \<and> snd x = unassigned \<or> pass_ok fresh x)
           (trace (snd (constructor env w disk)))"
  using assms
proof (cases rule: constructor_cases [of env w disk])
  case (thrown e)
  then show ?thesis
    using new_Logger_blank(3) [of env w disk] by (simp add: list_all_iff)
next
  case (started r0)
  obtain new where n: "trace (snd (refreshCredentials env w (r0\<lparr>this := fresh\<rparr>))) =
      trace (r0\<lparr>this := fresh\<rparr>) @ new"
    "list_all (pass_ok (this (r0\<lparr>this := fresh\<rparr>))) new"
    using refresh_trace [of env w "r0\<lparr>this := fresh\<rparr>"] by blast
  have "list_all (\<lambda>x. logger_call (fst x) \<and> snd x = unassigned) (trace r0)"
    using new_Logger_blank(3) [of env w disk] started(1) by simp
  with n(2) show ?thesis
    unfolding started(2) by (auto simp add: initializeAsync_trace n(1) list_all_iff)
qed

subsection \<open>One temporary file in a pass\<close>

text \<open>
  A refresh, and so the construction of a factory, writes at most one temporary file: the
  clock and the random generator are read at most once in a pass.
\<close>

lemma written_append: "written (xs @ ys) = written xs @ written ys"
  by (induction xs rule: written.induct) simp_all

lemma getCertificate_written:
  "\<exists>new. trace (snd (getCertificateFromKeyVault env w u n r)) = trace r @ new
     \<and> written (map fst new) = []"
  by (simp add: getCertificateFromKeyVault_def run_defs Let_def split: option.splits sum.splits)

lemma tryCreate_written:
  "\<exists>new. trace (snd (tryCreateCertificateCredential w t c info r)) = trace r @ new
     \<and> length (written (map fst new)) \<le> 1"
  by (simp add: resolve_defs run_defs Let_def split: option.splits write_outcome.splits)

lemma construct_credential_written:
  "\<exists>new. trace (snd (construct_credential env w st r)) = trace r @ new
     \<and> length (written (map fst new)) \<le> (if st = ClientCertificate then 1 else 0)"
proof (cases st)
  case ClientCertificate
  let ?g = "getCertificateFromKeyVault env w (env_value env ''AZURE_KEY_VAULT_URI'')
      (env_value env ''AZURE_KEY_VAULT_CERTIFICATE_NAME'') r"
  obtain n1 where n1: "trace (snd ?g) = trace r @ n1" "written (map fst n1) = []"
    using getCertificate_written by blast
  show ?thesis
  proof (cases ?g)
    case (Pair a r1)
    show ?thesis
    proof (cases a)
      case (Inl e)
      with Pair n1 ClientCertificate show ?thesis
        by (simp add: and_then_def)
    next
      case (Inr info)
      obtain n2 where n2: "trace (snd (tryCreateCertificateCredential w
          (env_value env ''MICROSOFT_APP_TENANT_ID'') (env_value env ''MICROSOFT_APP_ID'')
          info r1)) = trace r1 @ n2" "length (written (map fst n2)) \<le> 1"
        using tryCreate_written by blast
      with Pair Inr n1 ClientCertificate show ?thesis
        by (simp add: and_then_def written_append)
    qed
  qed
qed (simp_all add: construct_plain_run)

lemma attempt_strategy_written:
  "\<exists>new. trace (snd (attempt_strategy env w st r)) = trace r @ new
     \<and> length (written (map fst new)) \<le> (if st = ClientCertificate then 1 else 0)"
proof -
  obtain n1 where n1: "trace (snd (construct_credential env w st r)) = trace r @ n1"
    "length (written (map fst n1)) \<le> (if st = ClientCertificate then 1 else 0)"
    using construct_credential_written by blast
  show ?thesis
  proof (cases "construct_credential env w st r")
    case (Pair a r1)
    then show ?thesis
      using n1 by (cases a)
        (auto simp add: attempt_strategy_def and_then_def testCredential_run written_append
          split: js.splits)
  qed
qed

lemma chain_written:
  assumes "distinct sts"
  shows "\<exists>new. trace (snd (resolution_chain env w sts r)) = trace r @ new
     \<and> length (written (map fst new)) \<le> (if ClientCertificate \<in> set sts then 1 else 0)"
  using assms
proof (induction sts arbitrary: r)
  case Nil
  then show ?case by simp
next
  case (Cons st sts)
  then have d: "distinct sts" "st \<notin> set sts"
    by simp_all
  show ?case
  proof (cases "prerequisite env st")
    case False
    then show ?thesis
      using Cons.IH [OF d(1), of r] by (auto split: if_splits)
  next
    case True
    obtain n1 where n1: "trace (snd (attempt_strategy env w st r)) = trace r @ n1"
      "length (written (map fst n1)) \<le> (if st = ClientCertificate then 1 else 0)"
      using attempt_strategy_written by blast
    show ?thesis
    proof (cases "attempt_strategy env w st r")
      case (Pair a r1)
      show ?thesis
      proof (cases a)
        case (Inr ok)
        with Pair True n1 show ?thesis
          by (auto split: if_splits)
      next
        case (Inl e)
        obtain n2 where n2: "trace (snd (resolution_chain env w sts
            (fallback (strategy_name st) e r1))) = trace (fallback (strategy_name st) e r1) @ n2"
          "length (written (map fst n2)) \<le> (if ClientCertificate \<in> set sts then 1 else 0)"
          using Cons.IH [OF d(1)] by blast
        with Pair Inl True n1 d(2) show ?thesis
          by (auto simp add: fallback_run written_append split: if_splits)
      qed
    qed
  qed
qed

lemma setupCredentials_written:
  "\<exists>new. trace (snd (setupCredentials env w r)) = trace r @ new
     \<and> length (written (map fst new)) \<le> 1"
proof -
  have "agree (setupCredentials env w r)
      (resolution_chain env w strategy_order (r\<lparr>credentialAttempts := []\<rparr>))"
    by (rule setupCredentials_agree)
  then have t: "trace (snd (setupCredentials env w r)) =
      trace (snd (resolution_chain env w strategy_order (r\<lparr>credentialAttempts := []\<rparr>)))"
    by (simp add: agree_def)
  have "distinct strategy_order"
    by (simp add: strategy_order_def)
  from chain_written [OF this, of env w "r\<lparr>credentialAttempts := []\<rparr>"]
  show ?thesis
    unfolding t by (auto split: if_splits)
qed

lemma clients_written:
  "\<exists>new. trace (snd (setupKeyVaultClients env w r)) = trace r @ new \<and> written (map fst new) = []"
  "\<exists>new. trace (snd (setupGraphClient env w r)) = trace r @ new \<and> written (map fst new) = []"
  by (simp_all add: setupKeyVaultClients_def setupGraphClient_def run_defs Let_def
      split: js.splits option.splits)

lemma refresh_written:
  "length (written (new_events r (snd (refreshCredentials env w r)))) \<le> 1"
proof -
  obtain n1 where n1: "trace (snd (setupCredentials env w r)) = trace r @ n1"
    "length (written (map fst n1)) \<le> 1"
    using setupCredentials_written by blast
  let ?r1 = "snd (setupCredentials env w r)"
  obtain n2 where n2: "trace (snd (setupKeyVaultClients env w ?r1)) = trace ?r1 @ n2"
    "written (map fst n2) = []"
    using clients_written(1) by blast
  let ?r2 = "snd (setupKeyVaultClients env w ?r1)"
  obtain n3 where n3: "trace (snd (setupGraphClient env w ?r2)) = trace ?r2 @ n3"
    "written (map fst n3) = []"
    using clients_written(2) by blast
  show ?thesis
    using n1 n2 n3
    by (cases "setupCredentials env w r"; cases "setupKeyVaultClients env w ?r1")
      (auto simp add: refreshCredentials_def and_then_def new_events_def written_append
        split: sum.splits)
qed

lemma logger_written:
  "list_all (\<lambda>x. logger_call (fst x) \<and> snd x = s) xs \<Longrightarrow> written (map fst xs) = []"
proof (induction xs)
  case Nil
  then show ?case by simp
next
  case (Cons x xs)
  then show ?case
    by (cases x, cases "fst x") simp_all
qed

lemma constructor_written:
  "length (written (map fst (trace (snd (constructor env w disk))))) \<le> 1"
proof -
  let ?l = "snd (new_Logger env w (blank disk))"
  have l: "written (map fst (trace ?l)) = []"
    using new_Logger_blank(3) [of env w disk] by (rule logger_written)
  show ?thesis
  proof (cases "test_environment env")
    case True
    then have "snd (constructor env w disk) = ?l"
      by (simp add: constructor_def split: prod.splits sum.splits)
    with l show ?thesis
      by simp
  next
    case False
    then show ?thesis
    proof (cases rule: constructor_cases [of env w disk])
      case (thrown e)
      with l show ?thesis
        by simp
    next
      case (started r0)
      have "length (written (new_events (r0\<lparr>this := fresh\<rparr>)
          (snd (refreshCredentials env w (r0\<lparr>this := fresh\<rparr>))))) \<le> 1"
        by (rule refresh_written)
      moreover obtain new where "trace (snd (refreshCredentials env w (r0\<lparr>this := fresh\<rparr>))) =
          trace (r0\<lparr>this := fresh\<rparr>) @ new"
        using refresh_trace [of env w "r0\<lparr>this := fresh\<rparr>"] by blast
      ultimately show ?thesis
        using l started
        by (simp add: initializeAsync_trace new_events_def written_append)
    qed
  qed
qed

subsection \<open>The health status\<close>

lemma first_run_value:
  "first_run =
     \<lparr>this = ready_with (ClientSecretCredential ''t'' ''c'' ''s''),
      files = {},
      trace = [(CreateLogger ''info'', unassigned),
               (New ManagedIdentityCredential, fresh),
               (GetToken ManagedIdentityCredential default_scope,
                under_test fresh ManagedIdentityCredential),
               (New (ClientSecretCredential ''t'' ''c'' ''s''), fresh),
               (GetToken (ClientSecretCredential ''t'' ''c'' ''s'') default_scope,
                under_test fresh (ClientSecretCredential ''t'' ''c'' ''s'')),
               (NewGraphClient (ClientSecretCredential ''t'' ''c'' ''s'') [default_scope],
                under_test fresh (ClientSecretCredential ''t'' ''c'' ''s''))],
      credentialAttempts = [(''ManagedIdentity'', Text ''no managed identity endpoint'')]\<rparr>"
  by (simp add: first_run_def init_defs resolve_defs run_defs env_defs secret_env_def
      no_msi_world_def calm_world_def ready_with_def under_test_def Let_def)

text \<open>
  C7, as stated, fails in its last part. The candidate credential is assigned before its
  liveness test (line 83 and the like), so at the token request of the managed identity
  test the factory is still pending and \<open>getHealthStatus\<close> reports the credential as
  initialized.
\<close>

theorem health_reports_untested_candidate:
  "(GetToken ManagedIdentityCredential default_scope, under_test fresh ManagedIdentityCredential)
     \<in> set (trace (snd (constructor secret_env no_msi_world {})))
   \<and> is_suspend_point (GetToken ManagedIdentityCredential default_scope)
   \<and> pending (under_test fresh ManagedIdentityCredential)
   \<and> credential_status (getHealthStatus secret_env (under_test fresh ManagedIdentityCredential)) =
       ''initialized''"
  using first_run_value
  by (simp add: first_run_def pending_def under_test_def fresh_def getHealthStatus_def
      initialized_or_not_def)

text \<open>
  C7, amended. \<open>getHealthStatus\<close> is a function of the factory as it is at the moment of
  the call: it performs no call and raises nothing. It reports the credential as
  initialized exactly when \<open>this.credential\<close> is set. During the construction of a factory
  every snapshot is pending, and at a suspend point the credential is reported initialized
  during a liveness test, where the candidate is already assigned, and not initialized
  during the Key Vault requests; before resolution starts, and in the test environment, it
  is reported not initialized.
\<close>

theorem health_status_snapshot:
  "(\<not> test_environment env \<longrightarrow>
      (\<forall>x \<in> set (trace (snd (constructor env w disk))).
         pending (snd x)
         \<and> (is_suspend_point (fst x) \<longrightarrow>
              credential_status (getHealthStatus env (snd x)) =
                (if is_liveness_test (fst x) then ''initialized'' else ''not initialized''))))
   \<and> credential_status (getHealthStatus env s) =
       (if truthy (credential s) then ''initialized'' else ''not initialized'')
   \<and> credential_status (getHealthStatus env fresh) = ''not initialized''
   \<and> (test_environment env \<longrightarrow>
        credential_status (getHealthStatus env (this (snd (constructor env w disk)))) =
          ''not initialized'')"
proof (intro conjI impI ballI)
  fix x
  assume nt: "\<not> test_environment env"
    and x: "x \<in> set (trace (snd (constructor env w disk)))"
  from x have d: "logger_call (fst x) \<and> snd x = unassigned \<or> pass_ok fresh x"
    using constructor_trace [OF nt, of w disk] by (simp add: list_all_iff)
  then show "pending (snd x)"
    by (auto simp add: pass_ok_def pending_def fresh_def unassigned_def)
  assume s: "is_suspend_point (fst x)"
  with d have ok: "pass_ok fresh x"
    by (auto dest: logger_call_quiet)
  with s show "credential_status (getHealthStatus env (snd x)) =
                (if is_liveness_test (fst x) then ''initialized'' else ''not initialized'')"
    by (cases x, cases "fst x")
      (auto simp add: pass_ok_def getHealthStatus_def initialized_or_not_def fresh_def)
next
  show "credential_status (getHealthStatus env s) =
       (if truthy (credential s) then ''initialized'' else ''not initialized'')"
    by (simp add: getHealthStatus_def initialized_or_not_def)
  show "credential_status (getHealthStatus env fresh) = ''not initialized''"
    by (simp add: getHealthStatus_def initialized_or_not_def fresh_def)
  show "credential_status (getHealthStatus env (this (snd (constructor env w disk)))) =
          ''not initialized''" if "test_environment env"
  proof -
    from that have "snd (constructor env w disk) = snd (new_Logger env w (blank disk))"
      by (simp add: constructor_def split: prod.splits sum.splits)
    then show ?thesis
      by (simp add: new_Logger_blank getHealthStatus_def initialized_or_not_def unassigned_def)
  qed
qed

theorem health_status_snapshot_witness:
  "\<not> test_environment secret_env
   \<and> (GetToken (ClientSecretCredential ''t'' ''c'' ''s'') default_scope,
       under_test fresh (ClientSecretCredential ''t'' ''c'' ''s''))
       \<in> set (trace (snd (constructor secret_env no_msi_world {})))
   \<and> pending (under_test fresh (ClientSecretCredential ''t'' ''c'' ''s''))
   \<and> credential_status (getHealthStatus secret_env
        (under_test fresh (ClientSecretCredential ''t'' ''c'' ''s''))) = ''initialized''
   \<and> test_environment test_env
   \<and> credential_status (getHealthStatus test_env
        (this (snd (constructor test_env calm_world {})))) = ''not initialized''"
proof -
  let ?x = "(GetToken (ClientSecretCredential ''t'' ''c'' ''s'') default_scope,
       under_test fresh (ClientSecretCredential ''t'' ''c'' ''s''))"
  have nt: "\<not> test_environment secret_env"
    by (simp add: test_environment_def secret_env_def)
  have t: "test_environment test_env"
    by (simp add: test_environment_def test_env_def)
  have m: "?x \<in> set (trace (snd (constructor secret_env no_msi_world {})))"
    using first_run_value by (simp add: first_run_def)
  note a = health_status_snapshot [where env = secret_env and w = no_msi_world and disk = "{}"]
  from a nt m have "pending (snd ?x)
         \<and> (is_suspend_point (fst ?x) \<longrightarrow>
              credential_status (getHealthStatus secret_env (snd ?x)) =
                (if is_liveness_test (fst ?x) then ''initialized'' else ''not initialized''))"
    by blast
  then have 1: "pending (under_test fresh (ClientSecretCredential ''t'' ''c'' ''s''))
     \<and> credential_status (getHealthStatus secret_env
        (under_test fresh (ClientSecretCredential ''t'' ''c'' ''s''))) = ''initialized''"
    by simp
  from health_status_snapshot [where env = test_env and w = calm_world and disk = "{}"] t
  have 2: "credential_status (getHealthStatus test_env
        (this (snd (constructor test_env calm_world {})))) = ''not initialized''"
    by blast
  show ?thesis using nt t m 1 2 by simp
qed

subsection \<open>The credential during a pass\<close>

lemma second_run_value:
  "this second_run = ready_with (ClientSecretCredential ''t'' ''c'' ''s'')"
  "drop (length (trace first_run)) (trace second_run) =
     [(New ManagedIdentityCredential, ready_with (ClientSecretCredential ''t'' ''c'' ''s'')),
      (GetToken ManagedIdentityCredential default_scope,
       under_test (ready_with (ClientSecretCredential ''t'' ''c'' ''s'')) ManagedIdentityCredential),
      (New (ClientSecretCredential ''t'' ''c'' ''s''),
       (ready_with (ClientSecretCredential ''t'' ''c'' ''s''))\<lparr>credential := Null\<rparr>),
      (GetToken (ClientSecretCredential ''t'' ''c'' ''s'') default_scope,
       ready_with (ClientSecretCredential ''t'' ''c'' ''s'')),
      (NewGraphClient (ClientSecretCredential ''t'' ''c'' ''s'') [default_scope],
       ready_with (ClientSecretCredential ''t'' ''c'' ''s''))]"
  "fst (refreshCredentials secret_env no_msi_world first_run) = Inr ()"
  unfolding second_run_def first_run_value
  by (simp_all add: refreshCredentials_def init_defs resolve_defs run_defs env_defs secret_env_def
      no_msi_world_def calm_world_def ready_with_def under_test_def Let_def)

text \<open>
  C9, as stated, fails. A factory that works with the client secret is refreshed; the pass
  assigns the managed identity candidate before testing it, and at that token request a
  concurrent \<open>getAccessToken\<close> passes the gate and asks the untested candidate, which is
  neither the credential before the refresh nor the one after it, and fails where both of
  those would have given a token.
\<close>

theorem untested_candidate_observed:
  "(GetToken ManagedIdentityCredential default_scope,
      under_test (this first_run) ManagedIdentityCredential)
     \<in> set (drop (length (trace first_run)) (trace second_run))
   \<and> credential (this first_run) = Val (ClientSecretCredential ''t'' ''c'' ''s'')
   \<and> credential (this second_run) = Val (ClientSecretCredential ''t'' ''c'' ''s'')
   \<and> credential (under_test (this first_run) ManagedIdentityCredential) =
       Val ManagedIdentityCredential
   \<and> getAccessToken secret_env no_msi_world
        (settled (under_test (this first_run) ManagedIdentityCredential))
        (ScopeArray [default_scope]) = Inl (Text ''no managed identity endpoint'')
   \<and> getAccessToken secret_env no_msi_world (settled (this first_run))
        (ScopeArray [default_scope]) = Inr ''tok''
   \<and> getAccessToken secret_env no_msi_world (settled (this second_run))
        (ScopeArray [default_scope]) = Inr ''tok''"
  unfolding second_run_value
  by (simp add: first_run_value getAccessToken_def ensureCredentialAvailable_def
      check_available_def pending_def settled_def request_token_def ready_with_def
      under_test_def fresh_def env_defs secret_env_def no_msi_world_def calm_world_def
      default_scope_def)

text \<open>
  C9, amended. During a refresh (and so during any resolution pass) the resolution state
  of every snapshot is that of the factory before the pass; at a liveness test the
  credential a concurrent accessor sees is the candidate under test, and at the Key Vault
  requests of the certificate strategy it is the credential from before the pass or null.
  When the refresh succeeds, the credential it leaves has passed its liveness test.
\<close>

theorem credential_during_pass:
  "list_all (pass_ok (this r)) (drop (length (trace r)) (trace (snd (refreshCredentials env w r))))
   \<and> (\<forall>x \<in> set (drop (length (trace r)) (trace (snd (refreshCredentials env w r)))).
         is_suspend_point (fst x) \<longrightarrow>
           (if is_liveness_test (fst x)
            then (case credential (snd x) of
                    Val c \<Rightarrow> fst x = GetToken c default_scope
                  | _ \<Rightarrow> False)
            else credential (snd x) = credential (this r) \<or> credential (snd x) = Null))
   \<and> (fst (refreshCredentials env w r) = Inr () \<longrightarrow>
         (case credential (this (snd (refreshCredentials env w r))) of
            Val c \<Rightarrow> passes_liveness w c
          | _ \<Rightarrow> False))"
proof (intro conjI ballI impI)
  obtain new where n: "trace (snd (refreshCredentials env w r)) = trace r @ new"
    "list_all (pass_ok (this r)) new"
    using refresh_trace [of env w r] by blast
  then show all: "list_all (pass_ok (this r))
      (drop (length (trace r)) (trace (snd (refreshCredentials env w r))))"
    by simp
  fix x
  assume "x \<in> set (drop (length (trace r)) (trace (snd (refreshCredentials env w r))))"
    and s: "is_suspend_point (fst x)"
  with all have "pass_ok (this r) x"
    by (simp add: list_all_iff)
  with s show "if is_liveness_test (fst x)
            then (case credential (snd x) of
                    Val c \<Rightarrow> fst x = GetToken c default_scope
                  | _ \<Rightarrow> False)
            else credential (snd x) = credential (this r) \<or> credential (snd x) = Null"
    by (cases x, cases "fst x") (auto simp add: pass_ok_def)
next
  assume ok: "fst (refreshCredentials env w r) = Inr ()"
  then have "fst (setupCredentials env w r) = Inr ()"
    by (cases "setupCredentials env w r")
      (auto simp add: refreshCredentials_def and_then_def split: sum.splits)
  then have "committed w (snd (setupCredentials env w r))"
    using setupCredentials_run [of env w r] by blast
  then show "case credential (this (snd (refreshCredentials env w r))) of
            Val c \<Rightarrow> passes_liveness w c
          | _ \<Rightarrow> False"
    unfolding refresh_this(1) by (simp add: committed_def split: js.splits)
qed

theorem credential_during_pass_witness:
  "(GetToken ManagedIdentityCredential default_scope,
      under_test (this first_run) ManagedIdentityCredential)
     \<in> set (drop (length (trace first_run)) (trace second_run))
   \<and> is_suspend_point (GetToken ManagedIdentityCredential default_scope)
   \<and> credential (under_test (this first_run) ManagedIdentityCredential) =
       Val ManagedIdentityCredential
   \<and> fst (refreshCredentials secret_env no_msi_world first_run) = Inr ()
   \<and> credential (this second_run) = Val (ClientSecretCredential ''t'' ''c'' ''s'')
   \<and> passes_liveness no_msi_world (ClientSecretCredential ''t'' ''c'' ''s'')
   \<and> list_all (pass_ok (this first_run)) (drop (length (trace first_run)) (trace second_run))"
proof -
  let ?x = "(GetToken ManagedIdentityCredential default_scope,
      under_test (this first_run) ManagedIdentityCredential)"
  have m: "?x \<in> set (drop (length (trace first_run)) (trace second_run))"
    unfolding second_run_value by (simp add: first_run_value)
  have c: "credential (this second_run) = Val (ClientSecretCredential ''t'' ''c'' ''s'')"
    "credential (under_test (this first_run) ManagedIdentityCredential) =
       Val ManagedIdentityCredential"
    unfolding second_run_value by (simp_all add: ready_with_def under_test_def)
  note a = credential_during_pass [of first_run secret_env no_msi_world,
      folded second_run_def]
  from a have 1: "list_all (pass_ok (this first_run))
      (drop (length (trace first_run)) (trace second_run))"
    by blast
  from a second_run_value(3) have "case credential (this second_run) of
            Val c \<Rightarrow> passes_liveness no_msi_world c
          | _ \<Rightarrow> False"
    by blast
  then have 2: "passes_liveness no_msi_world (ClientSecretCredential ''t'' ''c'' ''s'')"
    by (simp add: c)
  show ?thesis
    using m c 1 2 second_run_value(3) by simp
qed

subsection \<open>Refreshing\<close>
































end
